theory Spec2Isabelle
  imports Main "HOL-Library.Word"
begin

unbundle bit_operations_syntax

section \<open>The DRM backend's display-state commit engine\<close>

text \<open>
  A shallow embedding of the state model and commit engine of the DRM backend
  (\<^verbatim>\<open>src/libweston/remoting-plugin.h\<close>): framebuffer reference counting, plane
  states, output states, pending states, the legacy and atomic commit paths, the
  completion handlers and the plane-assignment loop.

  The C code works on heap objects linked by pointers. The model keeps one store per
  struct type (a partial map from addresses to records); a pointer is an address, a
  nullable pointer an \<open>addr option\<close>. Reading through a pointer whose object has been
  freed, dereferencing \<^verbatim>\<open>NULL\<close> and a failing \<^verbatim>\<open>assert\<close> are results of type
  \<open>fault\<close>. Calls that leave the backend (ioctls, libgbm, the compositor core) are
  appended to a trace, and the value the kernel returns is read from an oracle that sees
  the trace so far.
\<close>

subsection \<open>Faults and sequencing\<close>

datatype fault = AssertFail | NullDeref | UseAfterFree | OutOfFuel

type_synonym 'a res = "fault + 'a"

definition bnd :: "'a res \<Rightarrow> ('a \<Rightarrow> 'b res) \<Rightarrow> 'b res" where
  "bnd m f = (case m of Inl e \<Rightarrow> Inl e | Inr x \<Rightarrow> f x)"

definition assert :: "bool \<Rightarrow> 'a res \<Rightarrow> 'a res" where
  "assert c k = (if c then k else Inl AssertFail)"

definition nonnull :: "'a option \<Rightarrow> ('a \<Rightarrow> 'b res) \<Rightarrow> 'b res" where
  "nonnull p k = (case p of None \<Rightarrow> Inl NullDeref | Some a \<Rightarrow> k a)"

subsection \<open>Data model\<close>

type_synonym addr = nat

datatype drm_fb_type =
  BUFFER_INVALID | BUFFER_CLIENT | BUFFER_PIXMAN_DUMB | BUFFER_GBM_SURFACE | BUFFER_CURSOR

datatype wdrm_plane_type =
  WDRM_PLANE_TYPE_PRIMARY | WDRM_PLANE_TYPE_CURSOR | WDRM_PLANE_TYPE_OVERLAY

datatype wdrm_plane_property =
  WDRM_PLANE_TYPE | WDRM_PLANE_SRC_X | WDRM_PLANE_SRC_Y | WDRM_PLANE_SRC_W
| WDRM_PLANE_SRC_H | WDRM_PLANE_CRTC_X | WDRM_PLANE_CRTC_Y | WDRM_PLANE_CRTC_W
| WDRM_PLANE_CRTC_H | WDRM_PLANE_FB_ID | WDRM_PLANE_CRTC_ID

datatype wdrm_connector_property =
  WDRM_CONNECTOR_EDID | WDRM_CONNECTOR_DPMS | WDRM_CONNECTOR_CRTC_ID

datatype wdrm_crtc_property = WDRM_CRTC_MODE_ID | WDRM_CRTC_ACTIVE

datatype drm_output_state_duplicate_mode =
  DRM_OUTPUT_STATE_CLEAR_PLANES | DRM_OUTPUT_STATE_PRESERVE_PLANES

datatype drm_state_apply_mode = DRM_STATE_APPLY_SYNC | DRM_STATE_APPLY_ASYNC

text \<open>
  Modelled from the spec: \<^verbatim>\<open>enum dpms_enum\<close> is declared in the compositor core's
  header, which is not among the sources. The spec gives an output state's power state
  as on/off, and the backend stores only these two values in a state.
\<close>

datatype dpms_enum = WESTON_DPMS_ON | WESTON_DPMS_OFF

text \<open>
  Modelled from the spec: the repaint status belongs to the compositor core's
  \<^verbatim>\<open>struct weston_output\<close>; the backend only compares it with
  \<^verbatim>\<open>REPAINT_AWAITING_COMPLETION\<close>.
\<close>

datatype repaint_status_enum = REPAINT_AWAITING_COMPLETION | REPAINT_OTHER

record drm_fb =
  fb_type :: drm_fb_type
  refcnt :: int
  fb_id :: "32 word"
  fb_stride :: "32 word"
  fb_handle :: "32 word"
  fb_size :: "32 word"
  fb_fd :: int
  fb_bo :: "addr option"
  fb_gbm_surface :: "addr option"
  fb_map :: "addr option"

record drm_plane_state =
  ps_plane :: addr
  ps_output :: "addr option"
  ps_output_state :: "addr option"
  ps_fb :: "addr option"
  src_x :: int
  src_y :: int
  src_w :: "32 word"
  src_h :: "32 word"
  dest_x :: int
  dest_y :: int
  dest_w :: "32 word"
  dest_h :: "32 word"
  complete :: bool

text \<open>
  The intrusive lists (\<^verbatim>\<open>struct wl_list\<close>) are kept at their heads: an output
  state lists the addresses of its plane states, a pending state those of its output
  states, first element first. \<^verbatim>\<open>wl_list_insert(&list, &elm)\<close> puts the element at
  the front.
\<close>

record drm_output_state =
  os_output :: addr
  os_pending_state :: "addr option"
  dpms :: dpms_enum
  plane_list :: "addr list"

record drm_pending_state =
  output_list :: "addr list"

record drm_plane =
  plane_type :: wdrm_plane_type
  plane_id :: "32 word"
  plane_props :: "wdrm_plane_property \<Rightarrow> 32 word"
  pl_state_cur :: "addr option"
  base_damage :: "(int \<times> int) set"
  base_x :: int
  base_y :: int

record drm_output =
  crtc_id :: "32 word"
  pipe :: int
  connector_id :: "32 word"
  props_conn :: "wdrm_connector_property \<Rightarrow> 32 word"
  props_crtc :: "wdrm_crtc_property \<Rightarrow> 32 word"
  vblank_pending :: int
  page_flip_pending :: int
  atomic_complete_pending :: int
  destroy_pending :: int
  disable_pending :: int
  dpms_off_pending :: int
  gbm_cursor_fb :: "nat \<Rightarrow> addr option"
  cursor_plane :: "addr option"
  cursor_view :: "addr option"
  current_cursor :: nat
  scanout_plane :: "addr option"
  state_cur :: "addr option"
  state_last :: "addr option"
  pageflip_timer :: bool
  recorder :: bool
  is_virtual :: bool
  base_enabled :: bool
  base_disable_planes :: bool
  base_repaint_status :: repaint_status_enum
  mode_width :: int
  mode_height :: int
  mode_blob_id :: "32 word"
  base_msc :: "64 word"

record drm_backend =
  state_invalid :: bool
  atomic_modeset :: bool
  sprites_hidden :: bool
  cursors_are_broken :: bool
  cursor_width :: int
  cursor_height :: int
  pageflip_timeout :: "32 word"
  unused_connectors :: "32 word list"
  unused_crtcs :: "32 word list"
  backend_plane_list :: "addr list"
  shutting_down :: bool
  use_pixman :: bool
  compositor_output_list :: "addr list"
  compositor_pending_output_list :: "addr list"

subsection \<open>Calls that leave the backend\<close>

datatype feedback_kind =
  WP_PRESENTATION_FEEDBACK_KIND_VSYNC
| WP_PRESENTATION_FEEDBACK_KIND_HW_CLOCK
| WP_PRESENTATION_FEEDBACK_KIND_HW_COMPLETION

datatype atomic_flag =
  DRM_MODE_ATOMIC_ALLOW_MODESET | DRM_MODE_PAGE_FLIP_EVENT | DRM_MODE_ATOMIC_NONBLOCK

datatype call =
  drmModeRmFB int "32 word"
| munmap addr "32 word"
| DRM_IOCTL_MODE_DESTROY_DUMB int "32 word"
| weston_buffer_reference_null addr
| gbm_bo_destroy addr
| gbm_surface_release_buffer "addr option" "addr option"
| drmModeSetPlane "32 word" "32 word" "32 word" "int \<times> int \<times> 32 word \<times> 32 word"
    "int \<times> int \<times> 32 word \<times> 32 word"
| drmModeSetCursor "32 word" "32 word" int int
| drmModeMoveCursor "32 word" int int
| drmModeSetCrtc "32 word" "32 word" "32 word list" bool
| drmModePageFlip "32 word" "32 word" addr
| drmWaitVBlank int addr
| drmModeConnectorSetProperty "32 word" "32 word" dpms_enum
| drmModeAtomicAlloc
| drmModeAtomicAddProperty "32 word" "32 word" int
| drmModeObjectGetProperties "32 word"
| drm_property_info_populate "32 word" string
| drm_property_get_value "32 word" string
| drmModeCreatePropertyBlob addr
| drmModeAtomicCommit "atomic_flag set"
| drmModeAtomicFree
| wl_event_source_timer_update addr "32 word"
| weston_compositor_read_presentation_clock
| weston_output_finish_frame addr "int \<times> int" "feedback_kind set"
| weston_output_schedule_repaint addr
| weston_output_disable addr
| renderer_output_destroy addr
| drm_output_release addr

record world =
  fbs :: "addr \<rightharpoonup> drm_fb"
  plane_states :: "addr \<rightharpoonup> drm_plane_state"
  output_states :: "addr \<rightharpoonup> drm_output_state"
  pending_states :: "addr \<rightharpoonup> drm_pending_state"
  planes :: "addr \<rightharpoonup> drm_plane"
  outputs :: "addr \<rightharpoonup> drm_output"
  bo_user_data :: "addr \<rightharpoonup> addr"
  backend :: drm_backend
  next_addr :: addr
  trace :: "call list"
  kernel :: "call list \<Rightarrow> call \<Rightarrow> int"

definition emit :: "call \<Rightarrow> world \<Rightarrow> world" where
  "emit c w = w\<lparr>trace := trace w @ [c]\<rparr>"

definition ioctl :: "call \<Rightarrow> world \<Rightarrow> world \<times> int" where
  "ioctl c w = (emit c w, kernel w (trace w) c)"

subsection \<open>Reading through pointers\<close>

definition deref :: "(addr \<rightharpoonup> 'a) \<Rightarrow> addr \<Rightarrow> ('a \<Rightarrow> 'b res) \<Rightarrow> 'b res" where
  "deref h a k = (case h a of None \<Rightarrow> Inl UseAfterFree | Some r \<Rightarrow> k r)"

fun foreach :: "'a list \<Rightarrow> ('a \<Rightarrow> world \<Rightarrow> world res) \<Rightarrow> world \<Rightarrow> world res" where
  "foreach [] f w = Inr w"
| "foreach (x # xs) f w = bnd (f x w) (foreach xs f)"

subsection \<open>Framebuffer registry\<close>

definition drm_fb_destroy :: "addr \<Rightarrow> world \<Rightarrow> world res" where
  "drm_fb_destroy fb w =
     deref (fbs w) fb (\<lambda>r.
       let w1 = (if fb_id r \<noteq> 0 then emit (drmModeRmFB (fb_fd r) (fb_id r)) w else w);
           w2 = emit (weston_buffer_reference_null fb) w1
       in Inr (w2\<lparr>fbs := (fbs w2)(fb := None)\<rparr>))"

definition drm_fb_destroy_dumb :: "addr \<Rightarrow> world \<Rightarrow> world res" where
  "drm_fb_destroy_dumb fb w =
     deref (fbs w) fb (\<lambda>r.
       assert (fb_type r = BUFFER_PIXMAN_DUMB)
         (let w1 = (case fb_map r of
                      Some m \<Rightarrow> if 0 < unat (fb_size r) then emit (munmap m (fb_size r)) w else w
                    | None \<Rightarrow> w);
              w2 = emit (DRM_IOCTL_MODE_DESTROY_DUMB (fb_fd r) (fb_handle r)) w1
          in drm_fb_destroy fb w2))"

definition drm_fb_destroy_gbm :: "addr \<Rightarrow> addr \<Rightarrow> world \<Rightarrow> world res" where
  "drm_fb_destroy_gbm bo fb w =
     deref (fbs w) fb (\<lambda>r.
       assert (fb_type r = BUFFER_GBM_SURFACE \<or> fb_type r = BUFFER_CLIENT
               \<or> fb_type r = BUFFER_CURSOR)
         (drm_fb_destroy fb w))"

text \<open>
  \<^verbatim>\<open>gbm_bo_destroy\<close> is libgbm's. \<^verbatim>\<open>drm_fb_get_from_bo\<close> registers
  \<^verbatim>\<open>drm_fb_destroy_gbm\<close> as the destroy callback of the buffer's user data, so the
  model of the library call runs that callback for a buffer that carries a framebuffer.
\<close>

definition gbm_bo_destroy_call :: "addr option \<Rightarrow> world \<Rightarrow> world res" where
  "gbm_bo_destroy_call bo w =
     (case bo of
        None \<Rightarrow> Inl NullDeref
      | Some b \<Rightarrow>
          let w1 = emit (gbm_bo_destroy b) w in
          (case bo_user_data w1 b of
             None \<Rightarrow> Inr w1
           | Some fb \<Rightarrow>
               bnd (drm_fb_destroy_gbm b fb w1)
                 (\<lambda>w2. Inr (w2\<lparr>bo_user_data := (bo_user_data w2)(b := None)\<rparr>))))"

definition drm_fb_ref :: "addr \<Rightarrow> world \<Rightarrow> (world \<times> addr) res" where
  "drm_fb_ref fb w =
     deref (fbs w) fb (\<lambda>r.
       Inr (w\<lparr>fbs := (fbs w)(fb \<mapsto> r\<lparr>refcnt := refcnt r + 1\<rparr>)\<rparr>, fb))"

definition drm_fb_unref :: "addr option \<Rightarrow> world \<Rightarrow> world res" where
  "drm_fb_unref fbp w =
     (case fbp of
        None \<Rightarrow> Inr w
      | Some fb \<Rightarrow>
          deref (fbs w) fb (\<lambda>r.
            assert (0 < refcnt r)
              (let w1 = w\<lparr>fbs := (fbs w)(fb \<mapsto> r\<lparr>refcnt := refcnt r - 1\<rparr>)\<rparr> in
               if 0 < refcnt r - 1 then Inr w1
               else (case fb_type r of
                       BUFFER_PIXMAN_DUMB \<Rightarrow> drm_fb_destroy_dumb fb w1
                     | BUFFER_CURSOR \<Rightarrow> gbm_bo_destroy_call (fb_bo r) w1
                     | BUFFER_CLIENT \<Rightarrow> gbm_bo_destroy_call (fb_bo r) w1
                     | BUFFER_GBM_SURFACE \<Rightarrow>
                         Inr (emit (gbm_surface_release_buffer (fb_gbm_surface r) (fb_bo r)) w1)
                     | BUFFER_INVALID \<Rightarrow> Inl AssertFail))))"

text \<open>A sequence of \<^verbatim>\<open>drm_fb_ref\<close> and \<^verbatim>\<open>drm_fb_unref\<close> calls on one framebuffer.\<close>

datatype fb_op = Ref | Unref


fun balance :: "fb_op list \<Rightarrow> int" where
  "balance [] = 0"
| "balance (Ref # ops) = balance ops + 1"
| "balance (Unref # ops) = balance ops - 1"

text \<open>
  The calls that releasing a dumb framebuffer makes, in the order of
  \<^verbatim>\<open>drm_fb_destroy_dumb\<close> followed by \<^verbatim>\<open>drm_fb_destroy\<close>.
\<close>

definition dumb_release_calls :: "addr \<Rightarrow> drm_fb \<Rightarrow> call list" where
  "dumb_release_calls fb r =
     (case fb_map r of
        Some m \<Rightarrow> if 0 < unat (fb_size r) then [munmap m (fb_size r)] else []
      | None \<Rightarrow> [])
     @ [DRM_IOCTL_MODE_DESTROY_DUMB (fb_fd r) (fb_handle r)]
     @ (if fb_id r \<noteq> 0 then [drmModeRmFB (fb_fd r) (fb_id r)] else [])
     @ [weston_buffer_reference_null fb]"

subsection \<open>Plane state model\<close>

text \<open>
  \<^verbatim>\<open>wl_list_remove(&state->link)\<close> takes the element out of whichever list holds it
  and is harmless on an element that is in no list (its link points to itself after
  \<^verbatim>\<open>wl_list_init\<close>).
\<close>

definition unlink_plane_state :: "addr \<Rightarrow> world \<Rightarrow> world" where
  "unlink_plane_state st w =
     w\<lparr>output_states :=
         (\<lambda>a. map_option (\<lambda>os. os\<lparr>plane_list := removeAll st (plane_list os)\<rparr>)
                 (output_states w a))\<rparr>"

definition unlink_output_state :: "addr \<Rightarrow> world \<Rightarrow> world" where
  "unlink_output_state st w =
     w\<lparr>pending_states :=
         (\<lambda>a. map_option (\<lambda>p. p\<lparr>output_list := removeAll st (output_list p)\<rparr>)
                 (pending_states w a))\<rparr>"

text \<open>
  \<^verbatim>\<open>zalloc\<close> and \<^verbatim>\<open>malloc\<close> hand out the next unused address; the model has no
  allocation failure.
\<close>

definition zalloc_plane_state :: "addr \<Rightarrow> drm_plane_state" where
  "zalloc_plane_state plane =
     \<lparr>ps_plane = plane, ps_output = None, ps_output_state = None, ps_fb = None,
      src_x = 0, src_y = 0, src_w = 0, src_h = 0,
      dest_x = 0, dest_y = 0, dest_w = 0, dest_h = 0, complete = False\<rparr>"

definition link_plane_state :: "addr \<Rightarrow> addr \<Rightarrow> world \<Rightarrow> world res" where
  "link_plane_state state_output st w =
     deref (output_states w) state_output (\<lambda>os.
       Inr (w\<lparr>output_states :=
                 (output_states w)(state_output \<mapsto> os\<lparr>plane_list := st # plane_list os\<rparr>)\<rparr>))"

definition drm_plane_state_alloc ::
  "addr option \<Rightarrow> addr \<Rightarrow> world \<Rightarrow> (world \<times> addr) res" where
  "drm_plane_state_alloc state_output plane w =
     (let st = next_addr w;
          w1 = w\<lparr>plane_states :=
                   (plane_states w)(st \<mapsto> (zalloc_plane_state plane)
                                             \<lparr>ps_output_state := state_output\<rparr>),
                 next_addr := Suc st\<rparr>
      in case state_output of
           None \<Rightarrow> Inr (w1, st)
         | Some so \<Rightarrow> bnd (link_plane_state so st w1) (\<lambda>w2. Inr (w2, st)))"

definition drm_plane_state_free :: "addr option \<Rightarrow> bool \<Rightarrow> world \<Rightarrow> world res" where
  "drm_plane_state_free state force w =
     (case state of
        None \<Rightarrow> Inr w
      | Some st \<Rightarrow>
          deref (plane_states w) st (\<lambda>r.
            let w1 = unlink_plane_state st w;
                w2 = w1\<lparr>plane_states :=
                         (plane_states w1)(st \<mapsto> r\<lparr>ps_output_state := None\<rparr>)\<rparr>;
                release = bnd (drm_fb_unref (ps_fb r) w2)
                            (\<lambda>w3. Inr (w3\<lparr>plane_states := (plane_states w3)(st := None)\<rparr>))
            in if force then release
               else deref (planes w2) (ps_plane r) (\<lambda>p.
                      if Some st \<noteq> pl_state_cur p then release else Inr w2)))"

definition free_same_plane :: "addr \<Rightarrow> addr \<Rightarrow> addr \<Rightarrow> world \<Rightarrow> world res" where
  "free_same_plane src plane old w =
     assert (old \<noteq> src)
       (deref (plane_states w) old (\<lambda>r.
          if ps_plane r = plane then drm_plane_state_free (Some old) False w else Inr w))"

text \<open>\<^verbatim>\<open>if (src->fb) dst->fb = drm_fb_ref(src->fb);\<close> yields the value of \<^verbatim>\<open>dst->fb\<close>.\<close>

definition duplicate_fb :: "addr \<Rightarrow> addr \<Rightarrow> world \<Rightarrow> (world \<times> addr option) res" where
  "duplicate_fb src dst w =
     deref (plane_states w) src (\<lambda>s.
       case ps_fb s of
         None \<Rightarrow> deref (plane_states w) dst (\<lambda>d. Inr (w, ps_fb d))
       | Some fb \<Rightarrow> bnd (drm_fb_ref fb w) (\<lambda>(w1, f). Inr (w1, Some f)))"

definition drm_plane_state_duplicate ::
  "addr \<Rightarrow> addr \<Rightarrow> world \<Rightarrow> (world \<times> addr) res" where
  "drm_plane_state_duplicate state_output src w =
     deref (plane_states w) src (\<lambda>s.
       let dst = next_addr w;
           w1 = w\<lparr>plane_states := (plane_states w)(dst \<mapsto> s), next_addr := Suc dst\<rparr>
       in deref (output_states w1) state_output (\<lambda>os.
            bnd (foreach (plane_list os) (free_same_plane src (ps_plane s)) w1)
              (\<lambda>w2. bnd (link_plane_state state_output dst w2)
                 (\<lambda>w3. bnd (duplicate_fb src dst w3)
                    (\<lambda>(w4, fbp).
                       deref (plane_states w4) dst (\<lambda>d.
                         Inr (w4\<lparr>plane_states :=
                                   (plane_states w4)
                                     (dst \<mapsto> d\<lparr>ps_fb := fbp,
                                                ps_output_state := Some state_output,
                                                complete := False\<rparr>)\<rparr>,
                              dst)))))))"

definition drm_plane_state_put_back :: "addr option \<Rightarrow> world \<Rightarrow> world res" where
  "drm_plane_state_put_back state w =
     (case state of
        None \<Rightarrow> Inr w
      | Some st \<Rightarrow>
          deref (plane_states w) st (\<lambda>r.
            bnd (drm_plane_state_free (Some st) False w)
              (\<lambda>w1. deref (planes w1) (ps_plane r) (\<lambda>p.
                 nonnull (pl_state_cur p) (\<lambda>cur.
                   deref (plane_states w1) cur (\<lambda>c.
                     if ps_fb c = None then Inr w1
                     else bnd (drm_plane_state_alloc (ps_output_state r) (ps_plane r) w1)
                            (\<lambda>(w2, _). Inr w2)))))))"

subsection \<open>Output state model and pending state\<close>

fun find_plane_state :: "world \<Rightarrow> addr \<Rightarrow> addr list \<Rightarrow> addr option res" where
  "find_plane_state w plane [] = Inr None"
| "find_plane_state w plane (ps # rest) =
     deref (plane_states w) ps (\<lambda>r.
       if ps_plane r = plane then Inr (Some ps) else find_plane_state w plane rest)"

definition drm_output_state_get_existing_plane ::
  "addr \<Rightarrow> addr \<Rightarrow> world \<Rightarrow> addr option res" where
  "drm_output_state_get_existing_plane state_output plane w =
     deref (output_states w) state_output (\<lambda>os. find_plane_state w plane (plane_list os))"

definition drm_output_state_get_plane ::
  "addr \<Rightarrow> addr \<Rightarrow> world \<Rightarrow> (world \<times> addr) res" where
  "drm_output_state_get_plane state_output plane w =
     bnd (drm_output_state_get_existing_plane state_output plane w)
       (\<lambda>ps. case ps of
                Some p \<Rightarrow> Inr (w, p)
              | None \<Rightarrow> drm_plane_state_alloc (Some state_output) plane w)"

definition link_output_state :: "addr option \<Rightarrow> addr \<Rightarrow> world \<Rightarrow> world res" where
  "link_output_state pending_state st w =
     (case pending_state of
        None \<Rightarrow> Inr w
      | Some ps \<Rightarrow>
          deref (pending_states w) ps (\<lambda>p.
            Inr (w\<lparr>pending_states :=
                      (pending_states w)(ps \<mapsto> p\<lparr>output_list := st # output_list p\<rparr>)\<rparr>)))"

definition drm_output_state_alloc ::
  "addr \<Rightarrow> addr option \<Rightarrow> world \<Rightarrow> (world \<times> addr) res" where
  "drm_output_state_alloc output pending_state w =
     (let st = next_addr w;
          w1 = w\<lparr>output_states :=
                   (output_states w)
                     (st \<mapsto> \<lparr>os_output = output, os_pending_state = pending_state,
                             dpms = WESTON_DPMS_OFF, plane_list = []\<rparr>),
                 next_addr := Suc st\<rparr>
      in bnd (link_output_state pending_state st w1) (\<lambda>w2. Inr (w2, st)))"

definition duplicate_plane ::
  "addr \<Rightarrow> drm_output_state_duplicate_mode \<Rightarrow> addr \<Rightarrow> world \<Rightarrow> world res" where
  "duplicate_plane dst plane_mode ps w =
     deref (plane_states w) ps (\<lambda>r.
       if ps_output r = None then Inr w
       else if plane_mode = DRM_OUTPUT_STATE_CLEAR_PLANES
       then bnd (drm_plane_state_alloc (Some dst) (ps_plane r) w) (\<lambda>(w1, _). Inr w1)
       else bnd (drm_plane_state_duplicate dst ps w) (\<lambda>(w1, _). Inr w1))"

definition drm_output_state_duplicate ::
  "addr \<Rightarrow> addr option \<Rightarrow> drm_output_state_duplicate_mode \<Rightarrow> world \<Rightarrow> (world \<times> addr) res"
  where
  "drm_output_state_duplicate src pending_state plane_mode w =
     deref (output_states w) src (\<lambda>s.
       let dst = next_addr w;
           w1 = w\<lparr>output_states :=
                    (output_states w)
                      (dst \<mapsto> s\<lparr>os_pending_state := pending_state, plane_list := []\<rparr>),
                  next_addr := Suc dst\<rparr>
       in bnd (link_output_state pending_state dst w1)
            (\<lambda>w2. bnd (foreach (plane_list s) (duplicate_plane dst plane_mode) w2)
                     (\<lambda>w3. Inr (w3, dst))))"

definition free_listed_plane_state :: "addr \<Rightarrow> world \<Rightarrow> world res" where
  "free_listed_plane_state ps = drm_plane_state_free (Some ps) False"

definition drm_output_state_free :: "addr option \<Rightarrow> world \<Rightarrow> world res" where
  "drm_output_state_free state w =
     (case state of
        None \<Rightarrow> Inr w
      | Some st \<Rightarrow>
          deref (output_states w) st (\<lambda>s.
            bnd (foreach (plane_list s) free_listed_plane_state w)
              (\<lambda>w1. deref (output_states w1) st (\<lambda>_.
                 let w2 = unlink_output_state st w1
                 in Inr (w2\<lparr>output_states := (output_states w2)(st := None)\<rparr>)))))"

definition drm_output_get_disable_state ::
  "addr \<Rightarrow> addr \<Rightarrow> world \<Rightarrow> (world \<times> addr) res" where
  "drm_output_get_disable_state pending_state output w =
     deref (outputs w) output (\<lambda>out.
       nonnull (state_cur out) (\<lambda>cur.
         bnd (drm_output_state_duplicate cur (Some pending_state)
                DRM_OUTPUT_STATE_CLEAR_PLANES w)
           (\<lambda>(w1, output_state).
              deref (output_states w1) output_state (\<lambda>s.
                Inr (w1\<lparr>output_states :=
                          (output_states w1)(output_state \<mapsto> s\<lparr>dpms := WESTON_DPMS_OFF\<rparr>)\<rparr>,
                     output_state)))))"

definition drm_pending_state_alloc :: "world \<Rightarrow> world \<times> addr" where
  "drm_pending_state_alloc w =
     (let ret = next_addr w
      in (w\<lparr>pending_states := (pending_states w)(ret \<mapsto> \<lparr>output_list = []\<rparr>),
            next_addr := Suc ret\<rparr>, ret))"

definition free_listed_output_state :: "addr \<Rightarrow> world \<Rightarrow> world res" where
  "free_listed_output_state os = drm_output_state_free (Some os)"

definition drm_pending_state_free :: "addr option \<Rightarrow> world \<Rightarrow> world res" where
  "drm_pending_state_free pending_state w =
     (case pending_state of
        None \<Rightarrow> Inr w
      | Some ps \<Rightarrow>
          deref (pending_states w) ps (\<lambda>p.
            bnd (foreach (output_list p) free_listed_output_state w)
              (\<lambda>w1. deref (pending_states w1) ps (\<lambda>_.
                 Inr (w1\<lparr>pending_states := (pending_states w1)(ps := None)\<rparr>)))))"

fun find_output_state :: "world \<Rightarrow> addr \<Rightarrow> addr list \<Rightarrow> addr option res" where
  "find_output_state w output [] = Inr None"
| "find_output_state w output (st # rest) =
     deref (output_states w) st (\<lambda>s.
       if os_output s = output then Inr (Some st) else find_output_state w output rest)"

definition drm_pending_state_get_output ::
  "addr \<Rightarrow> addr \<Rightarrow> world \<Rightarrow> addr option res" where
  "drm_pending_state_get_output pending_state output w =
     deref (pending_states w) pending_state (\<lambda>p. find_output_state w output (output_list p))"

subsection \<open>Retiring a commit\<close>

definition set_output :: "addr \<Rightarrow> drm_output \<Rightarrow> world \<Rightarrow> world" where
  "set_output output out w = w\<lparr>outputs := (outputs w)(output \<mapsto> out)\<rparr>"

definition set_backend :: "drm_backend \<Rightarrow> world \<Rightarrow> world" where
  "set_backend b w = w\<lparr>backend := b\<rparr>"

definition outstanding :: "drm_output \<Rightarrow> bool" where
  "outstanding out \<longleftrightarrow>
     page_flip_pending out \<noteq> 0 \<or> vblank_pending out \<noteq> 0 \<or> atomic_complete_pending out \<noteq> 0"

text \<open>
  Of the renderer teardown (\<^verbatim>\<open>drm_output_fini_egl\<close>, \<^verbatim>\<open>drm_output_fini_pixman\<close>)
  the model keeps the replacement of the scanout plane's current state; releasing the
  renderer's own buffers is the call \<open>renderer_output_destroy\<close>.
\<close>

definition drm_output_fini_renderer :: "addr \<Rightarrow> world \<Rightarrow> world res" where
  "drm_output_fini_renderer output w =
     deref (outputs w) output (\<lambda>out.
       bnd (if shutting_down (backend w) then Inr w
            else nonnull (scanout_plane out) (\<lambda>sp.
                   deref (planes w) sp (\<lambda>p.
                     nonnull (pl_state_cur p) (\<lambda>cur.
                       deref (plane_states w) cur (\<lambda>c.
                         case ps_fb c of
                           None \<Rightarrow> Inr w
                         | Some fb \<Rightarrow>
                             deref (fbs w) fb (\<lambda>f.
                               if fb_type f = (if use_pixman (backend w) then BUFFER_PIXMAN_DUMB
                                               else BUFFER_GBM_SURFACE)
                               then bnd (drm_plane_state_free (Some cur) True w)
                                      (\<lambda>w1. bnd (drm_plane_state_alloc None sp w1)
                                         (\<lambda>(w2, st).
                                            deref (planes w2) sp (\<lambda>p2.
                                              deref (plane_states w2) st (\<lambda>n.
                                                Inr (w2\<lparr>planes :=
                                                          (planes w2)(sp \<mapsto> p2\<lparr>pl_state_cur := Some st\<rparr>),
                                                        plane_states :=
                                                          (plane_states w2)(st \<mapsto> n\<lparr>complete := True\<rparr>)\<rparr>)))))
                               else Inr w))))))
         (\<lambda>w3. Inr (emit (renderer_output_destroy output) w3)))"

definition drm_output_deinit :: "addr \<Rightarrow> world \<Rightarrow> world res" where
  "drm_output_deinit output w =
     bnd (drm_output_fini_renderer output w)
       (\<lambda>w1. deref (outputs w1) output (\<lambda>out.
          let w2 = (if \<not> shutting_down (backend w1) \<and> cursor_plane out \<noteq> None
                    then emit (drmModeSetCursor (crtc_id out) 0 0 0) w1 else w1);
              b = backend w2
          in Inr (set_backend
                    (b\<lparr>unused_connectors := unused_connectors b @ [connector_id out],
                       unused_crtcs := unused_crtcs b @ [crtc_id out],
                       state_invalid := True\<rparr>) w2)))"

text \<open>
  After the deferral check \<^verbatim>\<open>drm_output_destroy\<close> releases the mode list, the timer,
  the core's output, the CRTC and the connector; the model records that as the call
  \<open>drm_output_release\<close> and keeps the release of the output's state and of the output.
\<close>

definition drm_output_destroy :: "addr \<Rightarrow> world \<Rightarrow> world res" where
  "drm_output_destroy output w =
     deref (outputs w) output (\<lambda>out.
       assert (\<not> is_virtual out)
         (if outstanding out
          then Inr (set_output output (out\<lparr>destroy_pending := 1\<rparr>) w)
          else bnd (if base_enabled out then drm_output_deinit output w else Inr w)
                 (\<lambda>w1. let w2 = emit (drm_output_release output) w1
                        in deref (outputs w2) output (\<lambda>out2.
                             assert (state_last out2 = None)
                               (bnd (drm_output_state_free (state_cur out2) w2)
                                  (\<lambda>w3. Inr (w3\<lparr>outputs := (outputs w3)(output := None)\<rparr>)))))))"

definition drm_output_disable :: "addr \<Rightarrow> world \<Rightarrow> (world \<times> int) res" where
  "drm_output_disable output w =
     deref (outputs w) output (\<lambda>out.
       assert (\<not> is_virtual out)
         (if outstanding out
          then Inr (set_output output (out\<lparr>disable_pending := 1\<rparr>) w, - 1)
          else bnd (if base_enabled out then drm_output_deinit output w else Inr w)
                 (\<lambda>w1. deref (outputs w1) output (\<lambda>out2.
                    Inr (set_output output (out2\<lparr>disable_pending := 0\<rparr>) w1, 0)))))"

text \<open>
  Modelled from the spec: \<^verbatim>\<open>weston_output_disable\<close> is the compositor core's and not
  among the sources. The deferred disable "is executed" by it: it runs the output's
  disable hook, which \<^verbatim>\<open>create_output_for_connector\<close> sets to
  \<^verbatim>\<open>drm_output_disable\<close>.
\<close>

definition weston_output_disable_call :: "addr \<Rightarrow> world \<Rightarrow> world res" where
  "weston_output_disable_call output w =
     bnd (drm_output_disable output (emit (weston_output_disable output) w))
       (\<lambda>(w1, _). Inr w1)"

text \<open>
  \<^verbatim>\<open>drm_output_update_complete\<close> in two phases: the retirement proper (stop the
  page-flip timer, mark the current plane states complete, free the previous state), then
  the deferred action or the frame notification. The DPMS-off action re-enters the commit
  engine through \<^verbatim>\<open>drm_pending_state_apply_sync\<close>, which is the parameter
  \<open>apply_sync\<close> here.
\<close>

definition mark_complete :: "addr \<Rightarrow> world \<Rightarrow> world res" where
  "mark_complete ps w =
     deref (plane_states w) ps (\<lambda>r.
       Inr (w\<lparr>plane_states := (plane_states w)(ps \<mapsto> r\<lparr>complete := True\<rparr>)\<rparr>))"

definition update_complete_retire :: "addr \<Rightarrow> world \<Rightarrow> world res" where
  "update_complete_retire output w =
     deref (outputs w) output (\<lambda>out.
       let w1 = (if pageflip_timer out then emit (wl_event_source_timer_update output 0) w
                 else w)
       in nonnull (state_cur out) (\<lambda>cur.
            deref (output_states w1) cur (\<lambda>s.
              bnd (foreach (plane_list s) mark_complete w1)
                (\<lambda>w2. bnd (drm_output_state_free (state_last out) w2)
                   (\<lambda>w3. deref (outputs w3) output (\<lambda>out3.
                      Inr (set_output output (out3\<lparr>state_last := None\<rparr>) w3)))))))"

definition update_complete_deferred ::
  "(addr \<Rightarrow> world \<Rightarrow> (world \<times> int) res) \<Rightarrow> addr \<Rightarrow> feedback_kind set \<Rightarrow> int \<times> int
     \<Rightarrow> world \<Rightarrow> world res" where
  "update_complete_deferred apply_sync output flags ts w =
     deref (outputs w) output (\<lambda>out.
       if destroy_pending out \<noteq> 0 then
         drm_output_destroy output
           (set_output output
              (out\<lparr>destroy_pending := 0, disable_pending := 0, dpms_off_pending := 0\<rparr>) w)
       else if disable_pending out \<noteq> 0 then
         weston_output_disable_call output
           (set_output output (out\<lparr>disable_pending := 0, dpms_off_pending := 0\<rparr>) w)
       else if dpms_off_pending out \<noteq> 0 then
         (let (w1, pending) = drm_pending_state_alloc w
          in deref (outputs w1) output (\<lambda>out1.
               bnd (drm_output_get_disable_state pending output
                      (set_output output (out1\<lparr>dpms_off_pending := 0\<rparr>) w1))
                 (\<lambda>(w2, _). bnd (apply_sync pending w2) (\<lambda>(w3, _). Inr w3))))
       else
         nonnull (state_cur out) (\<lambda>cur.
           deref (output_states w) cur (\<lambda>s.
             if dpms s = WESTON_DPMS_OFF
                \<and> base_repaint_status out \<noteq> REPAINT_AWAITING_COMPLETION
             then Inr w
             else (let w1 = emit (weston_output_finish_frame output
                                    (fst ts, snd ts * 1000) flags) w
                   in Inr (if recorder out
                           then emit (weston_output_schedule_repaint output) w1 else w1)))))"

definition drm_output_update_complete_with ::
  "(addr \<Rightarrow> world \<Rightarrow> (world \<times> int) res) \<Rightarrow> addr \<Rightarrow> feedback_kind set \<Rightarrow> int \<times> int
     \<Rightarrow> world \<Rightarrow> world res" where
  "drm_output_update_complete_with apply_sync output flags ts w =
     bnd (update_complete_retire output w)
       (update_complete_deferred apply_sync output flags ts)"

subsection \<open>Assigning a state to its output\<close>

definition free_orphan :: "addr \<Rightarrow> world \<Rightarrow> world res" where
  "free_orphan plane w =
     deref (planes w) plane (\<lambda>p.
       case pl_state_cur p of
         None \<Rightarrow> Inr w
       | Some cur \<Rightarrow>
           deref (plane_states w) cur (\<lambda>c.
             if ps_output_state c = None
             then drm_plane_state_free (Some cur) True w else Inr w))"

definition count_completion :: "addr \<Rightarrow> drm_plane \<Rightarrow> world \<Rightarrow> world res" where
  "count_completion output p w =
     (if atomic_modeset (backend w) then Inr w
      else deref (outputs w) output (\<lambda>out.
             if plane_type p = WDRM_PLANE_TYPE_OVERLAY
             then Inr (set_output output (out\<lparr>vblank_pending := vblank_pending out + 1\<rparr>) w)
             else if plane_type p = WDRM_PLANE_TYPE_PRIMARY
             then Inr (set_output output (out\<lparr>page_flip_pending := 1\<rparr>) w)
             else Inr w))"

definition assign_plane_state ::
  "addr \<Rightarrow> drm_state_apply_mode \<Rightarrow> addr \<Rightarrow> world \<Rightarrow> world res" where
  "assign_plane_state output mode plane_state w =
     deref (plane_states w) plane_state (\<lambda>ps.
       bnd (free_orphan (ps_plane ps) w)
         (\<lambda>w1. deref (planes w1) (ps_plane ps) (\<lambda>p1.
            let w2 = w1\<lparr>planes :=
                          (planes w1)(ps_plane ps \<mapsto> p1\<lparr>pl_state_cur := Some plane_state\<rparr>)\<rparr>
            in if mode \<noteq> DRM_STATE_APPLY_ASYNC
               then deref (plane_states w2) plane_state (\<lambda>ps2.
                      Inr (w2\<lparr>plane_states :=
                               (plane_states w2)(plane_state \<mapsto> ps2\<lparr>complete := True\<rparr>)\<rparr>))
               else count_completion output p1 w2)))"

definition drm_output_assign_state ::
  "addr \<Rightarrow> drm_state_apply_mode \<Rightarrow> world \<Rightarrow> world res" where
  "drm_output_assign_state state mode w =
     deref (output_states w) state (\<lambda>s.
       deref (outputs w) (os_output s) (\<lambda>out.
         assert (state_last out = None)
           (bnd (if mode = DRM_STATE_APPLY_ASYNC
                 then Inr (set_output (os_output s) (out\<lparr>state_last := state_cur out\<rparr>) w)
                 else drm_output_state_free (state_cur out) w)
              (\<lambda>w1. deref (output_states w1) state (\<lambda>s1.
                 let w2 = unlink_output_state state w1;
                     w3 = w2\<lparr>output_states :=
                              (output_states w2)(state \<mapsto> s1\<lparr>os_pending_state := None\<rparr>)\<rparr>
                 in deref (outputs w3) (os_output s) (\<lambda>out3.
                      let out4 = out3\<lparr>state_cur := Some state\<rparr>;
                          out5 = (if atomic_modeset (backend w3) \<and> mode = DRM_STATE_APPLY_ASYNC
                                  then out4\<lparr>atomic_complete_pending := 1\<rparr> else out4)
                      in foreach (plane_list s1)
                           (assign_plane_state (os_output s) mode)
                           (set_output (os_output s) out5 w3)))))))"

subsection \<open>Legacy commit of one output\<close>

definition cursor_broken :: "drm_output \<Rightarrow> world \<Rightarrow> world" where
  "cursor_broken out w =
     emit (drmModeSetCursor (crtc_id out) 0 0 0)
       (set_backend ((backend w)\<lparr>cursors_are_broken := True\<rparr>) w)"

definition clear_plane_damage :: "addr \<Rightarrow> world \<Rightarrow> world res" where
  "clear_plane_damage plane w =
     deref (planes w) plane (\<lambda>p.
       Inr (w\<lparr>planes := (planes w)(plane \<mapsto> p\<lparr>base_damage := {}\<rparr>)\<rparr>))"

definition set_cursor_fb ::
  "drm_output \<Rightarrow> addr \<Rightarrow> addr \<Rightarrow> drm_plane_state \<Rightarrow> addr \<Rightarrow> world \<Rightarrow> world res" where
  "set_cursor_fb out output plane st fb w =
     assert (Some fb = gbm_cursor_fb out (current_cursor out))
       (deref (planes w) plane (\<lambda>p.
          nonnull (pl_state_cur p) (\<lambda>cur.
            deref (plane_states w) cur (\<lambda>c.
              assert (ps_output c = None \<or> ps_output c = Some output)
                (bnd (if ps_fb c \<noteq> Some fb
                      then deref (fbs w) fb (\<lambda>f.
                             Inr (ioctl (drmModeSetCursor (crtc_id out) (fb_handle f)
                                           (cursor_width (backend w))
                                           (cursor_height (backend w))) w))
                      else Inr (w, 0))
                   (\<lambda>(w1, r).
                      if r \<noteq> 0 then Inr (cursor_broken out w1)
                      else bnd (clear_plane_damage plane w1)
                             (\<lambda>w2. let (w3, r2) = ioctl (drmModeMoveCursor (crtc_id out)
                                                            (dest_x st) (dest_y st)) w2
                                    in Inr (if r2 \<noteq> 0 then cursor_broken out w3 else w3))))))))"

definition drm_output_set_cursor :: "addr \<Rightarrow> world \<Rightarrow> world res" where
  "drm_output_set_cursor output_state w =
     deref (output_states w) output_state (\<lambda>s.
       deref (outputs w) (os_output s) (\<lambda>out.
         case cursor_plane out of
           None \<Rightarrow> Inr w
         | Some plane \<Rightarrow>
             bnd (drm_output_state_get_existing_plane output_state plane w)
               (\<lambda>found. case found of
                  None \<Rightarrow> Inr w
                | Some state \<Rightarrow>
                    deref (plane_states w) state (\<lambda>st.
                      case ps_fb st of
                        None \<Rightarrow>
                          bnd (clear_plane_damage plane w)
                            (\<lambda>w1. Inr (emit (drmModeSetCursor (crtc_id out) 0 0 0) w1))
                      | Some fb \<Rightarrow> set_cursor_fb out (os_output s) plane st fb w))))"

definition legacy_disable_plane :: "addr \<Rightarrow> world \<Rightarrow> world res" where
  "legacy_disable_plane ps w =
     deref (plane_states w) ps (\<lambda>r.
       assert (ps_fb r = None)
         (assert (ps_output r = None)
            (deref (planes w) (ps_plane r) (\<lambda>p.
               if plane_type p \<noteq> WDRM_PLANE_TYPE_OVERLAY then Inr w
               else Inr (fst (ioctl (drmModeSetPlane (plane_id p) 0 0 (0, 0, 0, 0) (0, 0, 0, 0))
                                w))))))"

definition legacy_disable ::
  "(addr \<Rightarrow> feedback_kind set \<Rightarrow> int \<times> int \<Rightarrow> world \<Rightarrow> world res) \<Rightarrow> addr \<Rightarrow> world
     \<Rightarrow> (world \<times> int) res" where
  "legacy_disable update_complete state w =
     deref (output_states w) state (\<lambda>s.
       deref (outputs w) (os_output s) (\<lambda>out.
         bnd (foreach (plane_list s) legacy_disable_plane w)
           (\<lambda>w1. let w2 = (if cursor_plane out \<noteq> None
                            then fst (ioctl (drmModeSetCursor (crtc_id out) 0 0 0) w1) else w1);
                      w3 = fst (ioctl (drmModeSetCrtc (crtc_id out) 0 [connector_id out] False) w2)
                  in bnd (drm_output_assign_state state DRM_STATE_APPLY_SYNC w3)
                       (\<lambda>w4. let (w5, now) = ioctl weston_compositor_read_presentation_clock w4
                              in bnd (update_complete (os_output s)
                                        {WP_PRESENTATION_FEEDBACK_KIND_HW_COMPLETION}
                                        (now div 1000000000, (now mod 1000000000) div 1000) w5)
                                   (\<lambda>w6. Inr (w6, 0))))))"

text \<open>
  \<^verbatim>\<open>DRM_VBLANK_HIGH_CRTC_SHIFT\<close> (1), \<^verbatim>\<open>DRM_VBLANK_HIGH_CRTC_MASK\<close> (0x3e) and
  \<^verbatim>\<open>DRM_VBLANK_SECONDARY\<close> (0x20000000) are libdrm's.
\<close>

definition drm_waitvblank_pipe :: "drm_output \<Rightarrow> int" where
  "drm_waitvblank_pipe out =
     (if 1 < pipe out then (push_bit 1 (pipe out)) AND 62
      else if 0 < pipe out then 536870912 else 0)"

definition legacy_overlay_plane :: "addr \<Rightarrow> addr \<Rightarrow> world \<Rightarrow> world res" where
  "legacy_overlay_plane output ps w =
     deref (plane_states w) ps (\<lambda>r.
       deref (planes w) (ps_plane r) (\<lambda>p.
         if plane_type p \<noteq> WDRM_PLANE_TYPE_OVERLAY then Inr w
         else nonnull (pl_state_cur p) (\<lambda>cur.
                deref (plane_states w) cur (\<lambda>c.
                  assert (complete c)
                    (assert ((ps_output c \<noteq> None) = (ps_fb c \<noteq> None))
                       (assert (ps_output c = None \<or> ps_output c = Some output)
                          (assert (\<not> complete r)
                             (assert (ps_output r = None \<or> ps_output r = Some output)
                                (assert ((ps_output r \<noteq> None) = (ps_fb r \<noteq> None))
                                   (deref (outputs w) output (\<lambda>out.
                                      bnd (case ps_fb r of
                                             None \<Rightarrow> Inr 0
                                           | Some fb \<Rightarrow>
                                               if sprites_hidden (backend w) then Inr 0
                                               else deref (fbs w) fb (\<lambda>f. Inr (fb_id f)))
                                        (\<lambda>fbid.
                                           let w1 = fst (ioctl (drmModeSetPlane (plane_id p)
                                                           (crtc_id out) fbid
                                                           (dest_x r, dest_y r, dest_w r, dest_h r)
                                                           (src_x r, src_y r, src_w r, src_h r)) w)
                                           in Inr (fst (ioctl (drmWaitVBlank
                                                          (drm_waitvblank_pipe out) ps) w1))))))))))))))"

definition legacy_err :: "addr \<Rightarrow> addr \<Rightarrow> world \<Rightarrow> (world \<times> int) res" where
  "legacy_err output state w =
     deref (outputs w) output (\<lambda>out.
       bnd (drm_output_state_free (Some state)
              (set_output output (out\<lparr>cursor_view := None\<rparr>) w))
         (\<lambda>w1. Inr (w1, - 1)))"

definition legacy_needs_modeset :: "addr \<Rightarrow> drm_fb \<Rightarrow> world \<Rightarrow> bool res" where
  "legacy_needs_modeset sp sf w =
     (if state_invalid (backend w) then Inr True
      else deref (planes w) sp (\<lambda>p.
             nonnull (pl_state_cur p) (\<lambda>cur.
               deref (plane_states w) cur (\<lambda>c.
                 case ps_fb c of
                   None \<Rightarrow> Inr True
                 | Some cfb \<Rightarrow> deref (fbs w) cfb (\<lambda>cf. Inr (fb_stride cf \<noteq> fb_stride sf))))))"

definition legacy_set_dpms :: "addr \<Rightarrow> addr \<Rightarrow> world \<Rightarrow> world res" where
  "legacy_set_dpms output state w =
     deref (outputs w) output (\<lambda>out.
       deref (output_states w) state (\<lambda>s.
         if props_conn out WDRM_CONNECTOR_DPMS = 0 then Inr w
         else nonnull (state_cur out) (\<lambda>cur.
                deref (output_states w) cur (\<lambda>cs.
                  if dpms s \<noteq> dpms cs
                  then Inr (fst (ioctl (drmModeConnectorSetProperty (connector_id out)
                                          (props_conn out WDRM_CONNECTOR_DPMS) (dpms s)) w))
                  else Inr w))))"

definition legacy_flip :: "addr \<Rightarrow> addr \<Rightarrow> drm_fb \<Rightarrow> world \<Rightarrow> (world \<times> int) res" where
  "legacy_flip output state sf w =
     deref (outputs w) output (\<lambda>out.
       deref (output_states w) state (\<lambda>s.
         let (w1, flip) = ioctl (drmModePageFlip (crtc_id out) (fb_id sf) output) w
         in if flip < 0 then legacy_err output state w1
            else assert (page_flip_pending out = 0)
                   (let w2 = (if pageflip_timer out
                              then emit (wl_event_source_timer_update output
                                           (pageflip_timeout (backend w1))) w1
                              else w1)
                    in bnd (drm_output_set_cursor state w2)
                         (\<lambda>w3. bnd (foreach (plane_list s) (legacy_overlay_plane output) w3)
                            (\<lambda>w4. bnd (legacy_set_dpms output state w4)
                               (\<lambda>w5. bnd (drm_output_assign_state state
                                             DRM_STATE_APPLY_ASYNC w5)
                                  (\<lambda>w6. Inr (w6, 0))))))))"

definition legacy_enable :: "addr \<Rightarrow> world \<Rightarrow> (world \<times> int) res" where
  "legacy_enable state w =
     deref (output_states w) state (\<lambda>s.
       deref (outputs w) (os_output s) (\<lambda>out.
         nonnull (scanout_plane out) (\<lambda>sp.
           bnd (drm_output_state_get_existing_plane state sp w)
             (\<lambda>found. nonnull found (\<lambda>scanout_state.
                deref (plane_states w) scanout_state (\<lambda>sc.
                  assert (src_x sc = 0 \<and> src_y sc = 0
                          \<and> src_w sc = word_of_int (mode_width out * 65536)
                          \<and> src_h sc = word_of_int (mode_height out * 65536)
                          \<and> dest_x sc = 0 \<and> dest_y sc = 0
                          \<and> dest_w sc = drop_bit 16 (src_w sc)
                          \<and> dest_h sc = drop_bit 16 (src_h sc))
                    (nonnull (ps_fb sc) (\<lambda>sfb.
                       deref (fbs w) sfb (\<lambda>sf.
                         bnd (legacy_needs_modeset sp sf w)
                           (\<lambda>modeset.
                              let (w1, ret) =
                                    (if modeset
                                     then ioctl (drmModeSetCrtc (crtc_id out) (fb_id sf)
                                                   [connector_id out] True) w
                                     else (w, 0))
                              in if ret \<noteq> 0 then legacy_err (os_output s) state w1
                                 else legacy_flip (os_output s) state sf w1))))))))))"

definition drm_output_apply_state_legacy_with ::
  "(addr \<Rightarrow> feedback_kind set \<Rightarrow> int \<times> int \<Rightarrow> world \<Rightarrow> world res) \<Rightarrow> addr \<Rightarrow> world
     \<Rightarrow> (world \<times> int) res" where
  "drm_output_apply_state_legacy_with update_complete state w =
     deref (output_states w) state (\<lambda>s.
       deref (outputs w) (os_output s) (\<lambda>out.
         bnd (if base_disable_planes out
              then (let w1 = set_output (os_output s) (out\<lparr>cursor_view := None\<rparr>) w
                    in case cursor_plane out of
                         None \<Rightarrow> Inr w1
                       | Some cp \<Rightarrow>
                           deref (planes w1) cp (\<lambda>p.
                             Inr (w1\<lparr>planes :=
                                       (planes w1)(cp \<mapsto> p\<lparr>base_x := - 2147483648,
                                                             base_y := - 2147483648\<rparr>)\<rparr>)))
              else Inr w)
           (\<lambda>w2. if dpms s \<noteq> WESTON_DPMS_ON
                  then legacy_disable update_complete state w2
                  else legacy_enable state w2)))"

subsection \<open>Atomic commit\<close>

definition add_prop :: "32 word \<Rightarrow> 32 word \<Rightarrow> int \<Rightarrow> world \<Rightarrow> world \<times> int" where
  "add_prop obj prop_id val w =
     (if prop_id = 0 then (w, - 1)
      else let (w1, ret) = ioctl (drmModeAtomicAddProperty obj prop_id val) w
           in (w1, if ret \<le> 0 then - 1 else 0))"

definition crtc_add_prop ::
  "drm_output \<Rightarrow> wdrm_crtc_property \<Rightarrow> int \<Rightarrow> world \<Rightarrow> world \<times> int" where
  "crtc_add_prop out prop val = add_prop (crtc_id out) (props_crtc out prop) val"

definition connector_add_prop ::
  "drm_output \<Rightarrow> wdrm_connector_property \<Rightarrow> int \<Rightarrow> world \<Rightarrow> world \<times> int" where
  "connector_add_prop out prop val = add_prop (connector_id out) (props_conn out prop) val"

definition plane_add_prop ::
  "drm_plane \<Rightarrow> wdrm_plane_property \<Rightarrow> int \<Rightarrow> world \<Rightarrow> world \<times> int" where
  "plane_add_prop p prop val = add_prop (plane_id p) (plane_props p prop) val"

text \<open>\<open>ret |= f(...)\<close> over a sequence of property additions.\<close>

fun or_all :: "(world \<Rightarrow> world \<times> int) list \<Rightarrow> int \<Rightarrow> world \<Rightarrow> world \<times> int" where
  "or_all [] ret w = (w, ret)"
| "or_all (f # fs) ret w = (let (w1, r) = f w in or_all fs (ret OR r) w1)"

definition drm_mode_ensure_blob :: "addr \<Rightarrow> world \<Rightarrow> (world \<times> int) res" where
  "drm_mode_ensure_blob output w =
     deref (outputs w) output (\<lambda>out.
       if mode_blob_id out \<noteq> 0 then Inr (w, 0)
       else let (w1, ret) = ioctl (drmModeCreatePropertyBlob output) w
            in if ret \<noteq> 0 then Inr (w1, ret)
               else Inr (set_output output
                           (out\<lparr>mode_blob_id :=
                                  word_of_int (kernel w1 (trace w1)
                                                 (drmModeCreatePropertyBlob output))\<rparr>) w1,
                         0))"

definition atomic_plane_props ::
  "drm_output \<Rightarrow> drm_plane \<Rightarrow> drm_plane_state \<Rightarrow> 32 word option
     \<Rightarrow> (world \<Rightarrow> world \<times> int) list" where
  "atomic_plane_props out plane ps fbid =
     [plane_add_prop plane WDRM_PLANE_FB_ID (case fbid of None \<Rightarrow> 0 | Some i \<Rightarrow> uint i),
      plane_add_prop plane WDRM_PLANE_CRTC_ID
        (case fbid of None \<Rightarrow> 0 | Some _ \<Rightarrow> uint (crtc_id out)),
      plane_add_prop plane WDRM_PLANE_SRC_X (src_x ps),
      plane_add_prop plane WDRM_PLANE_SRC_Y (src_y ps),
      plane_add_prop plane WDRM_PLANE_SRC_W (uint (src_w ps)),
      plane_add_prop plane WDRM_PLANE_SRC_H (uint (src_h ps)),
      plane_add_prop plane WDRM_PLANE_CRTC_X (dest_x ps),
      plane_add_prop plane WDRM_PLANE_CRTC_Y (dest_y ps),
      plane_add_prop plane WDRM_PLANE_CRTC_W (uint (dest_w ps)),
      plane_add_prop plane WDRM_PLANE_CRTC_H (uint (dest_h ps))]"

fun atomic_planes :: "drm_output \<Rightarrow> addr list \<Rightarrow> world \<Rightarrow> (world \<times> int) res" where
  "atomic_planes out [] w = Inr (w, 0)"
| "atomic_planes out (plane_state # rest) w =
     deref (plane_states w) plane_state (\<lambda>ps.
       deref (planes w) (ps_plane ps) (\<lambda>plane.
         bnd (case ps_fb ps of
                None \<Rightarrow> Inr None
              | Some fb \<Rightarrow> deref (fbs w) fb (\<lambda>f. Inr (Some (fb_id f))))
           (\<lambda>fbid. let (w1, ret) = or_all (atomic_plane_props out plane ps fbid) 0 w
                    in if ret \<noteq> 0 then Inr (w1, ret) else atomic_planes out rest w1)))"

definition atomic_crtc_props ::
  "addr \<Rightarrow> dpms_enum \<Rightarrow> world \<Rightarrow> (world \<times> int \<times> bool) res" where
  "atomic_crtc_props output level w =
     deref (outputs w) output (\<lambda>out.
       if level = WESTON_DPMS_ON
       then bnd (drm_mode_ensure_blob output w)
              (\<lambda>(w1, r). if r \<noteq> 0 then Inr (w1, r, True)
                 else deref (outputs w1) output (\<lambda>o1.
                        let (w2, r2) =
                              or_all [crtc_add_prop o1 WDRM_CRTC_MODE_ID (uint (mode_blob_id o1)),
                                      crtc_add_prop o1 WDRM_CRTC_ACTIVE 1,
                                      connector_add_prop o1 WDRM_CONNECTOR_CRTC_ID
                                        (uint (crtc_id o1))] r w1
                        in Inr (w2, r2, False)))
       else (let (w2, r2) =
                   or_all [crtc_add_prop out WDRM_CRTC_MODE_ID 0,
                           crtc_add_prop out WDRM_CRTC_ACTIVE 0,
                           connector_add_prop out WDRM_CONNECTOR_CRTC_ID 0] 0 w
             in Inr (w2, r2, False)))"

definition drm_output_apply_state_atomic ::
  "addr \<Rightarrow> atomic_flag set \<Rightarrow> world \<Rightarrow> (world \<times> atomic_flag set \<times> int) res" where
  "drm_output_apply_state_atomic state flags w =
     deref (output_states w) state (\<lambda>s.
       deref (outputs w) (os_output s) (\<lambda>out.
         nonnull (state_cur out) (\<lambda>cur.
           deref (output_states w) cur (\<lambda>cs.
             let flags1 = (if dpms s \<noteq> dpms cs
                           then insert DRM_MODE_ATOMIC_ALLOW_MODESET flags else flags)
             in bnd (atomic_crtc_props (os_output s) (dpms s) w)
                  (\<lambda>(w3, ret, early).
                     if early \<or> ret \<noteq> 0 then Inr (w3, flags1, ret)
                     else deref (outputs w3) (os_output s) (\<lambda>o3.
                            bnd (atomic_planes o3 (plane_list s) w3)
                              (\<lambda>(w4, r4). Inr (w4, flags1, r4))))))))"

text \<open>
  The resync of unused connectors and CRTCs only talks to the kernel: the property ids
  that \<^verbatim>\<open>drm_property_info_populate\<close> resolves and the value that
  \<^verbatim>\<open>drm_property_get_value\<close> reads are answers of the kernel oracle.
  \<^verbatim>\<open>DRM_MODE_DPMS_OFF\<close> is 3.
\<close>

definition resync_connector :: "32 word \<Rightarrow> world \<times> int \<Rightarrow> world \<times> int" where
  "resync_connector unused wr =
     (let (w, ret) = wr;
          (w1, props) = ioctl (drmModeObjectGetProperties unused) w
      in if props = 0 then (w1, - 1)
         else let (w2, crtc_prop) = ioctl (drm_property_info_populate unused ''CRTC_ID'') w1;
                  (w3, err) = ioctl (drmModeAtomicAddProperty unused (word_of_int crtc_prop) 0) w2;
                  ret1 = (if err \<le> 0 then - 1 else ret);
                  (w4, dpms_prop) = ioctl (drm_property_info_populate unused ''DPMS'') w3;
                  (w5, err2) = (if 0 < dpms_prop
                                then ioctl (drmModeAtomicAddProperty unused
                                              (word_of_int dpms_prop) 3) w4
                                else (w4, err))
              in (w5, if err2 \<le> 0 then - 1 else ret1))"

definition resync_crtc :: "32 word \<Rightarrow> world \<times> int \<Rightarrow> world \<times> int" where
  "resync_crtc unused wr =
     (let (w, ret) = wr;
          (w1, props) = ioctl (drmModeObjectGetProperties unused) w
      in if props = 0 then (w1, - 1)
         else let (w2, active_prop) = ioctl (drm_property_info_populate unused ''ACTIVE'') w1;
                  (w3, active) = ioctl (drm_property_get_value unused ''ACTIVE'') w2
              in if active = 0 then (w3, ret)
                 else let (w4, err) = ioctl (drmModeAtomicAddProperty unused
                                               (word_of_int active_prop) 0) w3;
                          ret1 = (if err \<le> 0 then - 1 else ret);
                          (w5, mode_prop) = ioctl (drm_property_info_populate unused ''MODE_ID'') w4;
                          (w6, err2) = ioctl (drmModeAtomicAddProperty unused
                                                (word_of_int mode_prop) 0) w5
                      in (w6, if err2 \<le> 0 then - 1 else ret1))"

definition resync_plane :: "addr \<Rightarrow> world \<Rightarrow> world res" where
  "resync_plane plane w =
     deref (planes w) plane (\<lambda>p.
       Inr (fst (plane_add_prop p WDRM_PLANE_FB_ID 0
                   (fst (plane_add_prop p WDRM_PLANE_CRTC_ID 0 w)))))"

definition atomic_resync :: "world \<Rightarrow> (world \<times> atomic_flag set \<times> int) res" where
  "atomic_resync w =
     (if state_invalid (backend w)
      then (let (w1, ret) = fold resync_crtc (unused_crtcs (backend w))
                              (fold resync_connector (unused_connectors (backend w)) (w, 0))
            in bnd (foreach (backend_plane_list (backend w1)) resync_plane w1)
                 (\<lambda>w2. Inr (w2, {DRM_MODE_ATOMIC_ALLOW_MODESET}, ret)))
      else Inr (w, {}, 0))"

fun atomic_compile ::
  "drm_state_apply_mode \<Rightarrow> addr list \<Rightarrow> atomic_flag set \<Rightarrow> int \<Rightarrow> world
     \<Rightarrow> (world \<times> atomic_flag set \<times> int) res" where
  "atomic_compile mode [] flags ret w = Inr (w, flags, ret)"
| "atomic_compile mode (output_state # rest) flags ret w =
     deref (output_states w) output_state (\<lambda>s.
       assert (mode = DRM_STATE_APPLY_SYNC \<longrightarrow> dpms s = WESTON_DPMS_OFF)
         (bnd (drm_output_apply_state_atomic output_state flags w)
            (\<lambda>(w1, flags1, r). atomic_compile mode rest flags1 (ret OR r) w1)))"

definition atomic_out :: "addr \<Rightarrow> int \<Rightarrow> world \<Rightarrow> (world \<times> int) res" where
  "atomic_out pending_state ret w =
     bnd (drm_pending_state_free (Some pending_state) (emit drmModeAtomicFree w))
       (\<lambda>w1. Inr (w1, ret))"

definition atomic_assign :: "addr \<Rightarrow> drm_state_apply_mode \<Rightarrow> world \<Rightarrow> world res" where
  "atomic_assign pending_state mode w =
     deref (pending_states w) pending_state (\<lambda>p.
       bnd (foreach (output_list p) (\<lambda>os. drm_output_assign_state os mode) w)
         (\<lambda>w1. let w2 = set_backend ((backend w1)\<lparr>state_invalid := False\<rparr>) w1
                in deref (pending_states w2) pending_state (\<lambda>p2.
                     assert (output_list p2 = []) (Inr w2))))"

definition atomic_commit ::
  "addr \<Rightarrow> drm_state_apply_mode \<Rightarrow> atomic_flag set \<Rightarrow> world \<Rightarrow> (world \<times> int) res" where
  "atomic_commit pending_state mode flags w =
     (let flags1 = (if mode = DRM_STATE_APPLY_ASYNC
                    then flags \<union> {DRM_MODE_PAGE_FLIP_EVENT, DRM_MODE_ATOMIC_NONBLOCK}
                    else flags);
          (w1, ret) = ioctl (drmModeAtomicCommit flags1) w
      in if ret \<noteq> 0 then atomic_out pending_state ret w1
         else bnd (atomic_assign pending_state mode w1) (atomic_out pending_state ret))"

definition drm_pending_state_apply_atomic ::
  "addr \<Rightarrow> drm_state_apply_mode \<Rightarrow> world \<Rightarrow> (world \<times> int) res" where
  "drm_pending_state_apply_atomic pending_state mode w =
     deref (pending_states w) pending_state (\<lambda>p.
       let (w0, req) = ioctl drmModeAtomicAlloc w
       in if req = 0 then Inr (w0, - 1)
          else bnd (atomic_resync w0)
                 (\<lambda>(w1, flags, ret).
                    bnd (atomic_compile mode (output_list p) flags ret w1)
                      (\<lambda>(w2, flags2, ret2).
                         if ret2 \<noteq> 0 then atomic_out pending_state ret2 w2
                         else atomic_commit pending_state mode flags2 w2)))"

subsection \<open>Flushing a pending state\<close>

definition legacy_resync :: "world \<Rightarrow> world" where
  "legacy_resync w =
     (if state_invalid (backend w)
      then fold (\<lambda>unused w'. fst (ioctl (drmModeSetCrtc unused 0 [] False) w'))
             (unused_crtcs (backend w)) w
      else w)"

definition legacy_apply_output ::
  "(addr \<Rightarrow> world \<Rightarrow> (world \<times> int) res) \<Rightarrow> addr \<Rightarrow> world \<Rightarrow> world res" where
  "legacy_apply_output apply_state_legacy output_state w =
     deref (output_states w) output_state (\<lambda>s.
       deref (outputs w) (os_output s) (\<lambda>out.
         if is_virtual out
         then drm_output_assign_state output_state DRM_STATE_APPLY_ASYNC w
         else bnd (apply_state_legacy output_state w) (\<lambda>(w1, _). Inr w1)))"

definition legacy_flush ::
  "(addr \<Rightarrow> world \<Rightarrow> world res) \<Rightarrow> addr \<Rightarrow> world \<Rightarrow> world res" where
  "legacy_flush apply_output pending_state w =
     deref (pending_states w) pending_state (\<lambda>p.
       bnd (foreach (output_list p) apply_output (legacy_resync w))
         (\<lambda>w1. Inr (set_backend ((backend w1)\<lparr>state_invalid := False\<rparr>) w1)))"

definition legacy_finish :: "addr \<Rightarrow> world \<Rightarrow> (world \<times> int) res" where
  "legacy_finish pending_state w =
     deref (pending_states w) pending_state (\<lambda>p.
       assert (output_list p = [])
         (bnd (drm_pending_state_free (Some pending_state) w) (\<lambda>w1. Inr (w1, 0))))"

definition drm_pending_state_apply_with ::
  "(addr \<Rightarrow> world \<Rightarrow> (world \<times> int) res) \<Rightarrow> addr \<Rightarrow> world \<Rightarrow> (world \<times> int) res" where
  "drm_pending_state_apply_with apply_state_legacy pending_state w =
     deref (pending_states w) pending_state (\<lambda>_.
       if atomic_modeset (backend w)
       then drm_pending_state_apply_atomic pending_state DRM_STATE_APPLY_ASYNC w
       else bnd (legacy_flush (legacy_apply_output apply_state_legacy) pending_state w)
              (legacy_finish pending_state))"

definition legacy_apply_output_sync ::
  "(addr \<Rightarrow> world \<Rightarrow> (world \<times> int) res) \<Rightarrow> addr \<Rightarrow> world \<Rightarrow> world res" where
  "legacy_apply_output_sync apply_state_legacy output_state w =
     deref (output_states w) output_state (\<lambda>s.
       assert (dpms s = WESTON_DPMS_OFF)
         (bnd (apply_state_legacy output_state w) (\<lambda>(w1, _). Inr w1)))"

definition drm_pending_state_apply_sync_with ::
  "(addr \<Rightarrow> world \<Rightarrow> (world \<times> int) res) \<Rightarrow> addr \<Rightarrow> world \<Rightarrow> (world \<times> int) res" where
  "drm_pending_state_apply_sync_with apply_state_legacy pending_state w =
     deref (pending_states w) pending_state (\<lambda>_.
       if atomic_modeset (backend w)
       then drm_pending_state_apply_atomic pending_state DRM_STATE_APPLY_SYNC w
       else bnd (legacy_flush (legacy_apply_output_sync apply_state_legacy) pending_state w)
              (legacy_finish pending_state))"

text \<open>
  \<^verbatim>\<open>drm_output_update_complete\<close>, \<^verbatim>\<open>drm_pending_state_apply_sync\<close> and
  \<^verbatim>\<open>drm_output_apply_state_legacy\<close> call each other: a deferred DPMS-off commits a
  disable state synchronously, which completes at once. The first argument bounds the
  depth of that re-entry.
\<close>

primrec drm_output_update_complete ::
  "nat \<Rightarrow> addr \<Rightarrow> feedback_kind set \<Rightarrow> int \<times> int \<Rightarrow> world \<Rightarrow> world res" where
  "drm_output_update_complete 0 = drm_output_update_complete_with (\<lambda>_ _. Inl OutOfFuel)"
| "drm_output_update_complete (Suc n) =
     drm_output_update_complete_with
       (drm_pending_state_apply_sync_with
          (drm_output_apply_state_legacy_with (drm_output_update_complete n)))"

definition drm_output_apply_state_legacy :: "nat \<Rightarrow> addr \<Rightarrow> world \<Rightarrow> (world \<times> int) res" where
  "drm_output_apply_state_legacy n =
     drm_output_apply_state_legacy_with (drm_output_update_complete n)"

definition drm_pending_state_apply_sync :: "nat \<Rightarrow> addr \<Rightarrow> world \<Rightarrow> (world \<times> int) res" where
  "drm_pending_state_apply_sync n =
     drm_pending_state_apply_sync_with (drm_output_apply_state_legacy n)"

definition drm_pending_state_apply :: "nat \<Rightarrow> addr \<Rightarrow> world \<Rightarrow> (world \<times> int) res" where
  "drm_pending_state_apply n =
     drm_pending_state_apply_with (drm_output_apply_state_legacy n)"

subsection \<open>Completion handlers\<close>

definition drm_output_update_msc :: "addr \<Rightarrow> 32 word \<Rightarrow> world \<Rightarrow> world res" where
  "drm_output_update_msc output seq w =
     deref (outputs w) output (\<lambda>out.
       let msc_hi = drop_bit 32 (base_msc out);
           msc_hi1 = (if ucast seq < (base_msc out AND 4294967295) then msc_hi + 1 else msc_hi)
       in Inr (set_output output (out\<lparr>base_msc := push_bit 32 msc_hi1 + ucast seq\<rparr>) w))"

text \<open>
  Each handler is its bookkeeping, which decides whether the output's commit is complete,
  followed by the call of \<^verbatim>\<open>drm_output_update_complete\<close> when it is.
\<close>

definition vblank_handler_gate ::
  "addr \<Rightarrow> 32 word \<Rightarrow> world \<Rightarrow> (world \<times> addr \<times> bool) res" where
  "vblank_handler_gate ps frame w =
     deref (plane_states w) ps (\<lambda>r.
       nonnull (ps_output_state r) (\<lambda>os.
         deref (output_states w) os (\<lambda>s.
           let output = os_output s in
           deref (outputs w) output (\<lambda>_.
             assert (\<not> atomic_modeset (backend w))
               (bnd (drm_output_update_msc output frame w)
                  (\<lambda>w1. deref (outputs w1) output (\<lambda>out.
                     let out1 = out\<lparr>vblank_pending := vblank_pending out - 1\<rparr>;
                         w2 = set_output output out1 w1
                     in assert (0 \<le> vblank_pending out1)
                          (assert (ps_fb r \<noteq> None)
                             (Inr (w2, output,
                                   \<not> (page_flip_pending out1 \<noteq> 0
                                      \<or> vblank_pending out1 \<noteq> 0)))))))))))"

definition vblank_handler ::
  "nat \<Rightarrow> addr \<Rightarrow> 32 word \<Rightarrow> int \<Rightarrow> int \<Rightarrow> world \<Rightarrow> world res" where
  "vblank_handler n ps frame sec usec w =
     bnd (vblank_handler_gate ps frame w)
       (\<lambda>(w1, output, done).
          if done
          then drm_output_update_complete n output
                 {WP_PRESENTATION_FEEDBACK_KIND_HW_COMPLETION,
                  WP_PRESENTATION_FEEDBACK_KIND_HW_CLOCK} (sec, usec) w1
          else Inr w1)"

definition page_flip_handler_gate ::
  "addr \<Rightarrow> 32 word \<Rightarrow> world \<Rightarrow> (world \<times> bool) res" where
  "page_flip_handler_gate output frame w =
     bnd (drm_output_update_msc output frame w)
       (\<lambda>w1. assert (\<not> atomic_modeset (backend w1))
          (deref (outputs w1) output (\<lambda>out.
             assert (page_flip_pending out \<noteq> 0)
               (let out1 = out\<lparr>page_flip_pending := 0\<rparr>
                in Inr (set_output output out1 w1, \<not> (vblank_pending out1 \<noteq> 0))))))"

definition page_flip_handler ::
  "nat \<Rightarrow> addr \<Rightarrow> 32 word \<Rightarrow> int \<Rightarrow> int \<Rightarrow> world \<Rightarrow> world res" where
  "page_flip_handler n output frame sec usec w =
     bnd (page_flip_handler_gate output frame w)
       (\<lambda>(w1, done).
          if done
          then drm_output_update_complete n output
                 {WP_PRESENTATION_FEEDBACK_KIND_VSYNC,
                  WP_PRESENTATION_FEEDBACK_KIND_HW_COMPLETION,
                  WP_PRESENTATION_FEEDBACK_KIND_HW_CLOCK} (sec, usec) w1
          else Inr w1)"

fun find_by_crtc :: "world \<Rightarrow> 32 word \<Rightarrow> addr list \<Rightarrow> addr option res" where
  "find_by_crtc w crtc [] = Inr None"
| "find_by_crtc w crtc (output # rest) =
     deref (outputs w) output (\<lambda>out.
       if crtc_id out = crtc then Inr (Some output) else find_by_crtc w crtc rest)"

definition drm_output_find_by_crtc :: "32 word \<Rightarrow> world \<Rightarrow> addr option res" where
  "drm_output_find_by_crtc crtc w =
     find_by_crtc w crtc
       (compositor_output_list (backend w) @ compositor_pending_output_list (backend w))"

definition atomic_flip_handler_gate ::
  "32 word \<Rightarrow> 32 word \<Rightarrow> world \<Rightarrow> (world \<times> addr option) res" where
  "atomic_flip_handler_gate crtc frame w =
     bnd (drm_output_find_by_crtc crtc w)
       (\<lambda>found. case found of
          None \<Rightarrow> Inr (w, None)
        | Some output \<Rightarrow>
            deref (outputs w) output (\<lambda>out.
              if \<not> base_enabled out then Inr (w, None)
              else bnd (drm_output_update_msc output frame w)
                     (\<lambda>w1. assert (atomic_modeset (backend w1))
                        (deref (outputs w1) output (\<lambda>out1.
                           assert (atomic_complete_pending out1 \<noteq> 0)
                             (Inr (set_output output (out1\<lparr>atomic_complete_pending := 0\<rparr>) w1,
                                   Some output)))))))"

definition atomic_flip_handler ::
  "nat \<Rightarrow> 32 word \<Rightarrow> 32 word \<Rightarrow> int \<Rightarrow> int \<Rightarrow> world \<Rightarrow> world res" where
  "atomic_flip_handler n crtc frame sec usec w =
     bnd (atomic_flip_handler_gate crtc frame w)
       (\<lambda>(w1, found).
          case found of
            None \<Rightarrow> Inr w1
          | Some output \<Rightarrow>
              drm_output_update_complete n output
                {WP_PRESENTATION_FEEDBACK_KIND_VSYNC,
                 WP_PRESENTATION_FEEDBACK_KIND_HW_COMPLETION,
                 WP_PRESENTATION_FEEDBACK_KIND_HW_CLOCK} (sec, usec) w1)"

subsection \<open>Plane assignment\<close>

text \<open>
  A pixman region is the set of pixels it covers. The compositor's primary plane is
  \<open>Primary\<close>; the base of a DRM plane is \<open>Drm_plane\<close> of its address. The three
  placement functions (\<^verbatim>\<open>drm_output_prepare_cursor_view\<close>,
  \<^verbatim>\<open>drm_output_prepare_scanout_view\<close>, \<^verbatim>\<open>drm_output_prepare_overlay_view\<close>)
  import client buffers through libgbm and EGL; the loop takes them as parameters that
  return the DRM plane they placed the view on, and notes every call of one.
\<close>

datatype weston_plane = Primary | Drm_plane addr

datatype placement = Cursor_placement | Scanout_placement | Overlay_placement

record weston_view =
  view_id :: nat
  boundingbox :: "(int \<times> int) set"
  has_buffer :: bool
  is_shm_buffer :: bool
  surface_width :: int
  surface_height :: int

record view_assignment =
  va_view :: nat
  va_plane :: weston_plane
  va_keep_buffer :: bool
  va_zero_copy :: bool

record assign_loop =
  al_world :: world
  renderer_region :: "(int \<times> int) set"
  picked_scanout :: bool
  assignments :: "view_assignment list"
  attempts :: "(nat \<times> placement) list"

type_synonym prepare_view = "addr \<Rightarrow> weston_view \<Rightarrow> world \<Rightarrow> (world \<times> addr option) res"

definition try_placement ::
  "placement \<Rightarrow> prepare_view \<Rightarrow> addr \<Rightarrow> weston_view \<Rightarrow> assign_loop \<times> weston_plane option
     \<Rightarrow> (assign_loop \<times> weston_plane option) res" where
  "try_placement kind prepare state ev ln =
     (case snd ln of
        Some next_plane \<Rightarrow> Inr ln
      | None \<Rightarrow>
          bnd (prepare state ev (al_world (fst ln)))
            (\<lambda>(w1, placed).
               let l1 = (fst ln)\<lparr>al_world := w1,
                                 attempts := attempts (fst ln) @ [(view_id ev, kind)]\<rparr>
               in Inr (if kind = Scanout_placement \<and> placed \<noteq> None
                       then l1\<lparr>picked_scanout := True\<rparr> else l1,
                       map_option Drm_plane placed)))"

definition keep_buffer :: "drm_backend \<Rightarrow> weston_view \<Rightarrow> bool" where
  "keep_buffer b ev \<longleftrightarrow>
     use_pixman b
     \<or> (has_buffer ev
        \<and> (\<not> is_shm_buffer ev
           \<or> (surface_width ev \<le> cursor_width b \<and> surface_height ev \<le> cursor_height b)))"

definition move_to_plane ::
  "addr option \<Rightarrow> weston_view \<Rightarrow> bool \<Rightarrow> weston_plane \<Rightarrow> assign_loop \<Rightarrow> assign_loop" where
  "move_to_plane cursor ev keep next_plane l =
     l\<lparr>renderer_region :=
         (if next_plane = Primary then renderer_region l \<union> boundingbox ev
          else renderer_region l),
       assignments := assignments l @
         [\<lparr>va_view = view_id ev, va_plane = next_plane, va_keep_buffer = keep,
           va_zero_copy =
             (\<not> (next_plane = Primary
                 \<or> (case cursor of None \<Rightarrow> False | Some cp \<Rightarrow> next_plane = Drm_plane cp)))\<rparr>]\<rparr>"

definition assign_view ::
  "prepare_view \<Rightarrow> prepare_view \<Rightarrow> prepare_view \<Rightarrow> addr \<Rightarrow> addr option \<Rightarrow> weston_view
     \<Rightarrow> assign_loop \<Rightarrow> assign_loop res" where
  "assign_view prepare_cursor prepare_scanout prepare_overlay state cursor ev l =
     (let keep = keep_buffer (backend (al_world l)) ev;
          surface_overlap = renderer_region l \<inter> boundingbox ev;
          forced = (if surface_overlap \<noteq> {} \<or> picked_scanout l then Some Primary else None)
      in bnd (try_placement Cursor_placement prepare_cursor state ev (l, forced))
           (\<lambda>ln1. bnd (try_placement Scanout_placement prepare_scanout state ev ln1)
              (\<lambda>ln2. bnd (try_placement Overlay_placement prepare_overlay state ev ln2)
                 (\<lambda>ln3. Inr (move_to_plane cursor ev keep
                               (case snd ln3 of None \<Rightarrow> Primary | Some pl \<Rightarrow> pl)
                               (fst ln3))))))"

fun assign_views ::
  "prepare_view \<Rightarrow> prepare_view \<Rightarrow> prepare_view \<Rightarrow> addr \<Rightarrow> addr option \<Rightarrow> weston_view list
     \<Rightarrow> assign_loop \<Rightarrow> assign_loop res" where
  "assign_views pc ps po state cursor [] l = Inr l"
| "assign_views pc ps po state cursor (ev # rest) l =
     bnd (assign_view pc ps po state cursor ev l) (assign_views pc ps po state cursor rest)"

definition drm_assign_planes ::
  "prepare_view \<Rightarrow> prepare_view \<Rightarrow> prepare_view \<Rightarrow> addr \<Rightarrow> addr \<Rightarrow> weston_view list
     \<Rightarrow> world \<Rightarrow> assign_loop res" where
  "drm_assign_planes pc ps po output pending_state view_list w =
     deref (outputs w) output (\<lambda>out.
       assert (state_last out = None)
         (nonnull (state_cur out) (\<lambda>cur.
            bnd (drm_output_state_duplicate cur (Some pending_state)
                   DRM_OUTPUT_STATE_CLEAR_PLANES w)
              (\<lambda>(w1, state).
                 bnd (assign_views pc ps po state (cursor_plane out) view_list
                        \<lparr>al_world = w1, renderer_region = {}, picked_scanout = False,
                         assignments = [], attempts = []\<rparr>)
                   (\<lambda>l. deref (outputs (al_world l)) output (\<lambda>out2.
                      if cursor_view out2 = None then Inr l
                      else bnd (case cursor_plane out2 of
                                  None \<Rightarrow> Inr None
                                | Some cp \<Rightarrow>
                                    drm_output_state_get_existing_plane state cp (al_world l))
                             (\<lambda>plane_state.
                                bnd (case plane_state of
                                       None \<Rightarrow> Inr True
                                     | Some a \<Rightarrow>
                                         deref (plane_states (al_world l)) a
                                           (\<lambda>r. Inr (ps_fb r = None)))
                                  (\<lambda>clear.
                                     Inr (if clear
                                          then l\<lparr>al_world :=
                                                   set_output output
                                                     (out2\<lparr>cursor_view := None\<rparr>) (al_world l)\<rparr>
                                          else l)))))))))"

subsection \<open>A concrete configuration\<close>

text \<open>
  One output (address 0) on a legacy backend, with a primary plane (1), an overlay plane
  (2) and a cursor plane (3). Its current state (20) shows a dumb framebuffer (30) on the
  primary plane and a client buffer (31) on the overlay; the cursor plane rests on its
  initial empty state (13). Framebuffer 32 is a buffer of a GBM surface that is not on
  screen. Pending state 50 is empty. The kernel accepts every call.
\<close>

definition example_fb :: "drm_fb_type \<Rightarrow> int \<Rightarrow> 32 word \<Rightarrow> addr option \<Rightarrow> drm_fb" where
  "example_fb t n i b =
     \<lparr>fb_type = t, refcnt = n, fb_id = i, fb_stride = 4096, fb_handle = 7, fb_size = 4194304,
      fb_fd = 3, fb_bo = b, fb_gbm_surface = None,
      fb_map = (if t = BUFFER_PIXMAN_DUMB then Some 900 else None)\<rparr>"

definition example_plane_state ::
  "addr \<Rightarrow> addr option \<Rightarrow> addr option \<Rightarrow> addr option \<Rightarrow> drm_plane_state" where
  "example_plane_state plane output os fb =
     (zalloc_plane_state plane)
       \<lparr>ps_output := output, ps_output_state := os, ps_fb := fb, complete := True\<rparr>"

definition example_plane :: "wdrm_plane_type \<Rightarrow> 32 word \<Rightarrow> addr \<Rightarrow> drm_plane" where
  "example_plane t i cur =
     \<lparr>plane_type = t, plane_id = i, plane_props = (\<lambda>_. 1), pl_state_cur = Some cur,
      base_damage = {}, base_x = 0, base_y = 0\<rparr>"

definition example_output :: drm_output where
  "example_output =
     \<lparr>crtc_id = 41, pipe = 0, connector_id = 77, props_conn = (\<lambda>_. 1), props_crtc = (\<lambda>_. 1),
      vblank_pending = 0, page_flip_pending = 0, atomic_complete_pending = 0,
      destroy_pending = 0, disable_pending = 0, dpms_off_pending = 0,
      gbm_cursor_fb = (\<lambda>_. None), cursor_plane = Some 3, cursor_view = None,
      current_cursor = 0, scanout_plane = Some 1, state_cur = Some 20, state_last = None,
      pageflip_timer = False, recorder = False, is_virtual = False, base_enabled = True,
      base_disable_planes = False, base_repaint_status = REPAINT_OTHER,
      mode_width = 1024, mode_height = 768, mode_blob_id = 0, base_msc = 0\<rparr>"

definition example_backend :: drm_backend where
  "example_backend =
     \<lparr>state_invalid = True, atomic_modeset = False, sprites_hidden = False,
      cursors_are_broken = False, cursor_width = 64, cursor_height = 64,
      pageflip_timeout = 0, unused_connectors = [], unused_crtcs = [],
      backend_plane_list = [1, 2, 3], shutting_down = False, use_pixman = True,
      compositor_output_list = [0], compositor_pending_output_list = []\<rparr>"

definition example_world :: world where
  "example_world =
     \<lparr>fbs = [30 \<mapsto> example_fb BUFFER_PIXMAN_DUMB 1 100 None,
             31 \<mapsto> example_fb BUFFER_CLIENT 1 101 (Some 40),
             32 \<mapsto> example_fb BUFFER_GBM_SURFACE 1 102 (Some 41)],
      plane_states = [11 \<mapsto> example_plane_state 1 (Some 0) (Some 20) (Some 30),
                      12 \<mapsto> example_plane_state 2 (Some 0) (Some 20) (Some 31),
                      13 \<mapsto> example_plane_state 3 None None None],
      output_states = [20 \<mapsto> \<lparr>os_output = 0, os_pending_state = None,
                               dpms = WESTON_DPMS_ON, plane_list = [12, 11]\<rparr>],
      pending_states = [50 \<mapsto> \<lparr>output_list = []\<rparr>],
      planes = [1 \<mapsto> example_plane WDRM_PLANE_TYPE_PRIMARY 201 11,
                2 \<mapsto> example_plane WDRM_PLANE_TYPE_OVERLAY 202 12,
                3 \<mapsto> example_plane WDRM_PLANE_TYPE_CURSOR 203 13],
      outputs = [0 \<mapsto> example_output],
      bo_user_data = [40 \<mapsto> 31],
      backend = example_backend,
      next_addr = 60,
      trace = [],
      kernel = (\<lambda>_ _. 0)\<rparr>"


definition repaint_world :: world where
  "repaint_world =
     example_world
       \<lparr>fbs := (fbs example_world)(30 \<mapsto> example_fb BUFFER_PIXMAN_DUMB 2 100 None),
        plane_states := (plane_states example_world)
          (61 \<mapsto> (example_plane_state 1 (Some 0) (Some 60) (Some 30))
                   \<lparr>src_w := 67108864, src_h := 50331648, dest_w := 1024, dest_h := 768,
                    complete := False\<rparr>),
        output_states := (output_states example_world)
          (60 \<mapsto> \<lparr>os_output = 0, os_pending_state = Some 50, dpms = WESTON_DPMS_ON,
                  plane_list = [61]\<rparr>),
        pending_states := [50 \<mapsto> \<lparr>output_list = [60]\<rparr>],
        next_addr := 70\<rparr>"

definition flip_failing_kernel :: "call list \<Rightarrow> call \<Rightarrow> int" where
  "flip_failing_kernel tr c = (case c of drmModePageFlip _ _ _ \<Rightarrow> - 1 | _ \<Rightarrow> 0)"

definition flip_fail_world :: world where
  "flip_fail_world = repaint_world\<lparr>kernel := flip_failing_kernel\<rparr>"





subsection \<open>Predicates used by the properties\<close>

text \<open>
  The part of an output that says which states are live; the part of the world that
  building and submitting an atomic request leaves alone (everything but the trace and the
  outputs' fields other than the live states); and the part that releasing states leaves
  alone.
\<close>

definition live :: "drm_output \<Rightarrow> addr option \<times> addr option" where
  "live out = (state_cur out, state_last out)"

definition submitted ::
  "world \<Rightarrow> (addr \<rightharpoonup> drm_plane) \<times> drm_backend \<times> (call list \<Rightarrow> call \<Rightarrow> int)
     \<times> (addr \<rightharpoonup> drm_pending_state) \<times> (addr \<rightharpoonup> drm_output_state)
     \<times> (addr \<rightharpoonup> drm_plane_state) \<times> (addr \<rightharpoonup> drm_fb)
     \<times> (addr \<rightharpoonup> addr option \<times> addr option)" where
  "submitted w =
     (planes w, backend w, kernel w, pending_states w, output_states w, plane_states w,
      fbs w, (\<lambda>a. map_option live (outputs w a)))"

definition owners ::
  "world \<Rightarrow> (addr \<rightharpoonup> drm_plane) \<times> (addr \<rightharpoonup> drm_output) \<times> drm_backend
     \<times> (call list \<Rightarrow> call \<Rightarrow> int)" where
  "owners w = (planes w, outputs w, backend w, kernel w)"

text \<open>Two worlds that differ at most in the framebuffer store, the trace and libgbm's user data.\<close>

definition fb_only :: "world \<Rightarrow> world \<Rightarrow> bool" where
  "fb_only w w' \<longleftrightarrow>
     plane_states w' = plane_states w \<and> output_states w' = output_states w
     \<and> pending_states w' = pending_states w \<and> planes w' = planes w
     \<and> outputs w' = outputs w \<and> backend w' = backend w \<and> next_addr w' = next_addr w
     \<and> kernel w' = kernel w"

text \<open>
  Plane exclusivity: the plane states listed in one output state are allocated, were
  handed out by the allocator, and name pairwise different planes.
\<close>

definition listed_ok :: "(addr \<rightharpoonup> drm_plane_state) \<Rightarrow> addr \<Rightarrow> addr list \<Rightarrow> bool" where
  "listed_ok ph n xs \<longleftrightarrow>
     (\<forall>ps\<in>set xs. ps < n \<and> ph ps \<noteq> None)
     \<and> distinct (map (\<lambda>ps. map_option ps_plane (ph ps)) xs)"

definition plane_exclusive :: "world \<Rightarrow> bool" where
  "plane_exclusive w \<longleftrightarrow>
     (\<forall>so os. output_states w so = Some os \<longrightarrow>
        listed_ok (plane_states w) (next_addr w) (plane_list os))"

text \<open>
  Back pointers: every plane state listed in an output state is allocated and its
  \<^verbatim>\<open>output_state\<close> member names that output state.
\<close>

definition backlinked :: "world \<Rightarrow> bool" where
  "backlinked w \<longleftrightarrow>
     (\<forall>so os. output_states w so = Some os \<longrightarrow>
        (\<forall>ps\<in>set (plane_list os).
           \<exists>r. plane_states w ps = Some r \<and> ps_output_state r = Some so))"

definition cleared :: "world \<Rightarrow> addr \<Rightarrow> bool" where
  "cleared w st \<longleftrightarrow>
     (\<exists>s. output_states w st = Some s
        \<and> (\<forall>ps\<in>set (plane_list s). ps < next_addr w
              \<and> (\<exists>r. plane_states w ps = Some r \<and> ps_fb r = None \<and> ps_output r = None)))"

section \<open>Properties\<close>

subsection \<open>Reasoning about results and loops\<close>

lemma bnd_Inr_iff: "bnd m f = Inr y \<longleftrightarrow> (\<exists>x. m = Inr x \<and> f x = Inr y)"
  by (cases m) (simp_all add: bnd_def)

lemma deref_Inr_iff: "deref h a k = Inr y \<longleftrightarrow> (\<exists>r. h a = Some r \<and> k r = Inr y)"
  by (cases "h a") (simp_all add: deref_def)

lemma assert_Inr_iff: "assert c k = Inr y \<longleftrightarrow> c \<and> k = Inr y"
  by (simp add: assert_def)

lemma nonnull_Inr_iff: "nonnull p k = Inr y \<longleftrightarrow> (\<exists>a. p = Some a \<and> k a = Inr y)"
  by (cases p) (simp_all add: nonnull_def)

text \<open>
  Claim C10. Each releasing operation returns at once on a null argument and leaves the
  world as it was.
\<close>

theorem null_release_is_noop:
  "drm_fb_unref None w = Inr w
   \<and> drm_plane_state_free None force w = Inr w
   \<and> drm_plane_state_put_back None w = Inr w
   \<and> drm_output_state_free None w = Inr w
   \<and> drm_pending_state_free None w = Inr w"
  by (simp add: drm_fb_unref_def drm_plane_state_free_def drm_plane_state_put_back_def
      drm_output_state_free_def drm_pending_state_free_def)

lemmas Inr_iffs = bnd_Inr_iff deref_Inr_iff assert_Inr_iff nonnull_Inr_iff

lemma foreach_inv:
  assumes "foreach xs f w = Inr w'" and "P w"
    and "\<And>x v v'. x \<in> set xs \<Longrightarrow> P v \<Longrightarrow> f x v = Inr v' \<Longrightarrow> P v'"
  shows "P w'"
  using assms
proof (induction xs arbitrary: w)
  case Nil
  then show ?case by simp
next
  case (Cons x xs)
  from Cons.prems(1) obtain v where v: "f x w = Inr v" and rest: "foreach xs f v = Inr w'"
    by (auto simp: bnd_Inr_iff)
  have "P v" using Cons.prems(2) Cons.prems(3) [of x w v] v by simp
  show ?case
  proof (rule Cons.IH [OF rest \<open>P v\<close>])
    fix y u u'
    assume "y \<in> set xs" "P u" "f y u = Inr u'"
    then show "P u'" using Cons.prems(3) [of y u u'] by simp
  qed
qed

lemma alloc_cleared:
  assumes "drm_plane_state_alloc (Some st) plane w = Inr (w', a)" and "cleared w st"
  shows "cleared w' st \<and> map_option os_output (output_states w' st) = map_option os_output (output_states w st)"
  using assms
  by (auto simp: drm_plane_state_alloc_def link_plane_state_def Let_def Inr_iffs cleared_def
      zalloc_plane_state_def less_Suc_eq)

lemma link_output_state_frame:
  assumes "link_output_state p st w = Inr w'"
  shows "output_states w' = output_states w \<and> plane_states w' = plane_states w
         \<and> next_addr w' = next_addr w"
  using assms by (auto simp: link_output_state_def Inr_iffs split: option.splits)

lemma duplicate_clear_cleared:
  assumes "drm_output_state_duplicate src p DRM_OUTPUT_STATE_CLEAR_PLANES w = Inr (w', dst)"
  shows "cleared w' dst"
proof -
  from assms obtain s w2 where s: "output_states w src = Some s"
    and dst: "dst = next_addr w"
    and w2: "link_output_state p dst
               (w\<lparr>output_states := (output_states w)
                     (dst \<mapsto> s\<lparr>os_pending_state := p, plane_list := []\<rparr>),
                  next_addr := Suc dst\<rparr>) = Inr w2"
    and loop: "foreach (plane_list s) (duplicate_plane dst DRM_OUTPUT_STATE_CLEAR_PLANES) w2 = Inr w'"
    by (auto simp: drm_output_state_duplicate_def Let_def Inr_iffs)
  have start: "cleared w2 dst"
    using link_output_state_frame [OF w2] by (simp add: cleared_def)
  show ?thesis
  proof (rule foreach_inv [where P = "\<lambda>v. cleared v dst", OF loop start])
    fix x v v'
    assume "cleared v dst"
      and "duplicate_plane dst DRM_OUTPUT_STATE_CLEAR_PLANES x v = Inr v'"
    then show "cleared v' dst"
      using alloc_cleared [of dst _ v v']
      by (auto simp: duplicate_plane_def Inr_iffs split: if_splits)
  qed
qed

text \<open>
  Claim C8. The state built by \<^verbatim>\<open>drm_output_get_disable_state\<close> has power state off,
  and every plane state in it has neither a framebuffer nor an output, so the two
  assertions of the legacy disable branch hold for each of them.
\<close>

theorem disable_state_has_no_framebuffer:
  assumes "drm_output_get_disable_state pending_state output w = Inr (w', st)"
  shows "\<exists>s. output_states w' st = Some s \<and> dpms s = WESTON_DPMS_OFF
           \<and> (\<forall>ps\<in>set (plane_list s).
                 (\<exists>r. plane_states w' ps = Some r \<and> ps_fb r = None \<and> ps_output r = None)
                 \<and> legacy_disable_plane ps w' \<noteq> Inl AssertFail)"
proof -
  from assms obtain cur w1 s1 where
    dup: "drm_output_state_duplicate cur (Some pending_state) DRM_OUTPUT_STATE_CLEAR_PLANES w
            = Inr (w1, st)"
    and s1: "output_states w1 st = Some s1"
    and w': "w' = w1\<lparr>output_states := (output_states w1)(st \<mapsto> s1\<lparr>dpms := WESTON_DPMS_OFF\<rparr>)\<rparr>"
    by (auto simp: drm_output_get_disable_state_def Inr_iffs)
  have "cleared w1 st" by (rule duplicate_clear_cleared [OF dup])
  then have fb: "\<forall>ps\<in>set (plane_list s1).
      \<exists>r. plane_states w' ps = Some r \<and> ps_fb r = None \<and> ps_output r = None"
    using s1 w' by (auto simp: cleared_def)
  have "legacy_disable_plane ps w' \<noteq> Inl AssertFail" if "ps \<in> set (plane_list s1)" for ps
    using fb that
    by (auto simp: legacy_disable_plane_def deref_def assert_def split: option.splits)
  then show ?thesis using fb s1 w' by simp
qed


lemmas example_defs = example_world_def example_output_def example_backend_def
  example_plane_def example_plane_state_def example_fb_def zalloc_plane_state_def

theorem disable_state_has_no_framebuffer_witness:
  "\<exists>w' st s. drm_output_get_disable_state 50 0 example_world = Inr (w', st)
      \<and> output_states w' st = Some s \<and> dpms s = WESTON_DPMS_OFF
      \<and> (\<forall>ps\<in>set (plane_list s).
            (\<exists>r. plane_states w' ps = Some r \<and> ps_fb r = None \<and> ps_output r = None)
            \<and> legacy_disable_plane ps w' \<noteq> Inl AssertFail)"
proof -
  have "\<exists>w'. drm_output_get_disable_state 50 0 example_world = Inr (w', 60)"
    by (simp add: drm_output_get_disable_state_def drm_output_state_duplicate_def
        duplicate_plane_def drm_plane_state_alloc_def link_plane_state_def
        link_output_state_def
        deref_def nonnull_def bnd_def Let_def example_defs)
  then obtain w' where "drm_output_get_disable_state 50 0 example_world = Inr (w', 60)" ..
  from disable_state_has_no_framebuffer [OF this] this show ?thesis by blast
qed

subsection \<open>Framebuffer reference counting\<close>





lemma dumb_release_calls_refcnt [simp]:
  "dumb_release_calls fb (r\<lparr>refcnt := n\<rparr>) = dumb_release_calls fb r"
  by (simp add: dumb_release_calls_def split: option.splits)

lemma balance_append: "balance (xs @ ys) = balance xs + balance ys"
  by (induction xs rule: balance.induct) simp_all







subsection \<open>Plane assignment\<close>











subsection \<open>Frames\<close>

lemma fb_only_refl [simp]: "fb_only w w"
  by (simp add: fb_only_def)

lemma fb_only_trans: "fb_only a b \<Longrightarrow> fb_only b c \<Longrightarrow> fb_only a c"
  by (simp add: fb_only_def)

lemma fb_only_simps [simp]:
  "fb_only w (emit c v) = fb_only w v"
  "fb_only w (v\<lparr>fbs := f\<rparr>) = fb_only w v"
  "fb_only w (v\<lparr>bo_user_data := u\<rparr>) = fb_only w v"
  "fb_only (emit c v) w = fb_only v w"
  "fb_only (v\<lparr>fbs := f\<rparr>) w = fb_only v w"
  "fb_only (v\<lparr>bo_user_data := u\<rparr>) w = fb_only v w"
  by (simp_all add: fb_only_def emit_def)

lemma drm_fb_destroy_frame: "drm_fb_destroy fb w = Inr w' \<Longrightarrow> fb_only w w'"
  by (auto simp: drm_fb_destroy_def Inr_iffs Let_def)

lemma drm_fb_destroy_dumb_frame: "drm_fb_destroy_dumb fb w = Inr w' \<Longrightarrow> fb_only w w'"
  by (auto simp: drm_fb_destroy_dumb_def Inr_iffs Let_def split: option.splits if_splits
      dest!: drm_fb_destroy_frame)

lemma gbm_bo_destroy_call_frame: "gbm_bo_destroy_call bo w = Inr w' \<Longrightarrow> fb_only w w'"
  by (auto simp: gbm_bo_destroy_call_def drm_fb_destroy_gbm_def Inr_iffs Let_def
      split: option.splits dest!: drm_fb_destroy_frame)

lemma drm_fb_unref_frame: "drm_fb_unref p w = Inr w' \<Longrightarrow> fb_only w w'"
  by (auto simp: drm_fb_unref_def Inr_iffs Let_def
      split: option.splits if_splits drm_fb_type.splits
      dest!: drm_fb_destroy_dumb_frame gbm_bo_destroy_call_frame)

lemma drm_fb_ref_frame: "drm_fb_ref fb w = Inr (w', f) \<Longrightarrow> fb_only w w'"
  by (auto simp: drm_fb_ref_def Inr_iffs)

subsection \<open>Plane exclusivity\<close>

lemma listed_ok_removeAll: "listed_ok ph n xs \<Longrightarrow> listed_ok ph n (removeAll a xs)"
  by (auto simp: listed_ok_def removeAll_filter_not_eq distinct_map_filter)

lemma listed_ok_distinct: "listed_ok ph n xs \<Longrightarrow> distinct xs"
  by (auto simp: listed_ok_def distinct_map)

lemma listed_ok_cong:
  assumes "\<And>ps. ps \<in> set xs \<Longrightarrow> map_option ps_plane (ph' ps) = map_option ps_plane (ph ps)"
  shows "listed_ok ph' n xs = listed_ok ph n xs"
proof -
  have m: "map (\<lambda>ps. map_option ps_plane (ph' ps)) xs = map (\<lambda>ps. map_option ps_plane (ph ps)) xs"
    using assms by (rule map_cong [OF refl])
  have n: "(ph' ps = None) = (ph ps = None)" if "ps \<in> set xs" for ps
    using assms [OF that] by (metis map_option_is_None)
  show ?thesis unfolding listed_ok_def m using n by blast
qed

lemma listed_ok_upd_notin:
  "a \<notin> set xs \<Longrightarrow> listed_ok (ph(a := v)) n xs = listed_ok ph n xs"
  by (rule listed_ok_cong) auto

lemma listed_ok_same_plane:
  assumes "ph a = Some r" "ps_plane r' = ps_plane r"
  shows "listed_ok (ph(a \<mapsto> r')) n xs = listed_ok ph n xs"
  using assms by (intro listed_ok_cong) auto

lemma listed_ok_Suc: "listed_ok ph n xs \<Longrightarrow> listed_ok ph (Suc n) xs"
  by (auto simp: listed_ok_def less_Suc_eq)

lemma listed_ok_fresh: "listed_ok ph n xs \<Longrightarrow> n \<notin> set xs"
  by (auto simp: listed_ok_def)

lemma listed_ok_Cons:
  assumes "listed_ok ph n xs" "ph a = Some r" "a < n" "a \<notin> set xs"
    "\<forall>ps\<in>set xs. map_option ps_plane (ph ps) \<noteq> Some (ps_plane r)"
  shows "listed_ok ph n (a # xs)"
proof -
  have "Some (ps_plane r) \<notin> (\<lambda>ps. map_option ps_plane (ph ps)) ` set xs"
    using assms(5) by (metis (no_types, lifting) image_iff)
  then show ?thesis using assms(1-4) by (simp add: listed_ok_def)
qed

lemma plane_state_free_effect:
  assumes "drm_plane_state_free (Some a) force v = Inr v'"
  shows "output_states v' =
           (\<lambda>x. map_option (\<lambda>os. os\<lparr>plane_list := removeAll a (plane_list os)\<rparr>)
                   (output_states v x))
         \<and> (\<forall>b. b \<noteq> a \<longrightarrow> plane_states v' b = plane_states v b)
         \<and> (\<exists>r. plane_states v a = Some r
               \<and> (plane_states v' a = None
                  \<or> plane_states v' a = Some (r\<lparr>ps_output_state := None\<rparr>)))
         \<and> next_addr v' = next_addr v \<and> planes v' = planes v \<and> outputs v' = outputs v
         \<and> pending_states v' = pending_states v \<and> backend v' = backend v"
  using assms
  by (auto simp: drm_plane_state_free_def unlink_plane_state_def Inr_iffs Let_def fb_only_def
      split: if_splits dest!: drm_fb_unref_frame)

lemma plane_state_free_exclusive:
  assumes "drm_plane_state_free p force v = Inr v'" "plane_exclusive v"
  shows "plane_exclusive v'"
proof (cases p)
  case None
  then show ?thesis using assms by (simp add: drm_plane_state_free_def)
next
  case (Some a)
  note eff = plane_state_free_effect [OF assms(1) [unfolded Some]]
  show ?thesis
    unfolding plane_exclusive_def
  proof (intro allI impI)
    fix so os'
    assume "output_states v' so = Some os'"
    then obtain os where os: "output_states v so = Some os"
      and l: "plane_list os' = removeAll a (plane_list os)"
      using eff by auto
    have ok: "listed_ok (plane_states v) (next_addr v) (removeAll a (plane_list os))"
      using assms(2) os by (auto simp: plane_exclusive_def intro: listed_ok_removeAll)
    have "a \<notin> set (removeAll a (plane_list os))" by simp
    moreover have "plane_states v' = (plane_states v)(a := plane_states v' a)"
      using eff by (auto simp: fun_eq_iff)
    ultimately have "listed_ok (plane_states v') (next_addr v) (removeAll a (plane_list os))"
      using ok listed_ok_upd_notin by metis
    then show "listed_ok (plane_states v') (next_addr v') (plane_list os')"
      using l eff by simp
  qed
qed

lemma plane_state_alloc_effect:
  assumes "drm_plane_state_alloc so plane v = Inr (v', a)"
  shows "a = next_addr v \<and> next_addr v' = Suc a
         \<and> plane_states v' = (plane_states v)(a \<mapsto> (zalloc_plane_state plane)\<lparr>ps_output_state := so\<rparr>)
         \<and> (case so of
              None \<Rightarrow> output_states v' = output_states v
            | Some s \<Rightarrow> (\<exists>os. output_states v s = Some os
                 \<and> output_states v' = (output_states v)(s \<mapsto> os\<lparr>plane_list := a # plane_list os\<rparr>)))
         \<and> planes v' = planes v \<and> outputs v' = outputs v
         \<and> pending_states v' = pending_states v \<and> backend v' = backend v \<and> fbs v' = fbs v"
  using assms
  by (auto simp: drm_plane_state_alloc_def link_plane_state_def Inr_iffs Let_def
      split: option.splits)

lemma plane_state_alloc_exclusive:
  assumes "drm_plane_state_alloc so plane v = Inr (v', a)" "plane_exclusive v"
    and "\<forall>s os. so = Some s \<longrightarrow> output_states v s = Some os \<longrightarrow>
           (\<forall>ps\<in>set (plane_list os). map_option ps_plane (plane_states v ps) \<noteq> Some plane)"
  shows "plane_exclusive v'"
proof -
  note eff = plane_state_alloc_effect [OF assms(1)]
  let ?new = "(zalloc_plane_state plane)\<lparr>ps_output_state := so\<rparr>"
  have keep: "listed_ok (plane_states v') (next_addr v') xs"
    if "listed_ok (plane_states v) (next_addr v) xs" for xs
  proof -
    have "a \<notin> set xs" using that eff by (auto dest: listed_ok_fresh)
    then show ?thesis
      using that eff listed_ok_upd_notin [of a xs "plane_states v" "Some ?new" "next_addr v"]
      by (simp add: listed_ok_Suc)
  qed
  show ?thesis
    unfolding plane_exclusive_def
  proof (intro allI impI)
    fix s os'
    assume os': "output_states v' s = Some os'"
    show "listed_ok (plane_states v') (next_addr v') (plane_list os')"
    proof (cases "so = Some s")
      case False
      then have "output_states v s = Some os'"
        using eff os' by (auto split: option.splits if_splits)
      then show ?thesis using assms(2) keep by (auto simp: plane_exclusive_def)
    next
      case True
      then obtain os where os: "output_states v s = Some os"
        and l: "plane_list os' = a # plane_list os"
        using eff os' by auto
      have old: "listed_ok (plane_states v') (next_addr v') (plane_list os)"
        using assms(2) os keep by (auto simp: plane_exclusive_def)
      have notin: "a \<notin> set (plane_list os)"
        using assms(2) os eff by (auto simp: plane_exclusive_def dest: listed_ok_fresh)
      have "\<forall>ps\<in>set (plane_list os).
              map_option ps_plane (plane_states v' ps) \<noteq> Some (ps_plane ?new)"
        using assms(3) True os notin eff by (auto simp: zalloc_plane_state_def)
      then have "listed_ok (plane_states v') (next_addr v') (a # plane_list os)"
        using old notin eff by (intro listed_ok_Cons [where r = ?new]) auto
      then show ?thesis using l by simp
    qed
  qed
qed

lemma foreach_inv_prefix_aux:
  assumes "foreach xs f w = Inr w'" and "P pre w"
    and "\<And>seen x v v'. P seen v \<Longrightarrow> f x v = Inr v' \<Longrightarrow> P (seen @ [x]) v'"
  shows "P (pre @ xs) w'"
  using assms(1,2)
proof (induction xs arbitrary: pre w)
  case Nil
  then show ?case by simp
next
  case (Cons x xs)
  from Cons.prems(1) obtain v where v: "f x w = Inr v" and rest: "foreach xs f v = Inr w'"
    by (auto simp: bnd_Inr_iff)
  have "P (pre @ [x]) v" using assms(3) [OF Cons.prems(2) v] .
  from Cons.IH [OF rest this] show ?case by simp
qed

lemma foreach_inv_prefix:
  assumes "foreach xs f w = Inr w'" and "P [] w"
    and "\<And>seen x v v'. P seen v \<Longrightarrow> f x v = Inr v' \<Longrightarrow> P (seen @ [x]) v'"
  shows "P xs w'"
  using foreach_inv_prefix_aux [OF assms(1), of P "[]"] assms(2,3) by simp

lemma find_plane_state_None:
  assumes "find_plane_state w plane xs = Inr None"
  shows "\<forall>ps\<in>set xs. map_option ps_plane (plane_states w ps) \<noteq> Some plane"
  using assms by (induction xs) (auto simp: Inr_iffs split: if_splits)

lemma find_plane_state_Some:
  assumes "find_plane_state w plane xs = Inr (Some p)"
  shows "p \<in> set xs \<and> map_option ps_plane (plane_states w p) = Some plane"
  using assms by (induction xs) (auto simp: Inr_iffs split: if_splits)

lemma get_plane_exclusive:
  assumes "drm_output_state_get_plane so plane w = Inr (w', a)" "plane_exclusive w"
  shows "plane_exclusive w'
         \<and> (\<exists>os'. output_states w' so = Some os' \<and> a \<in> set (plane_list os')
               \<and> map_option ps_plane (plane_states w' a) = Some plane)
         \<and> (\<forall>os. output_states w so = Some os \<longrightarrow>
               (\<exists>ps\<in>set (plane_list os). map_option ps_plane (plane_states w ps) = Some plane)
               \<longrightarrow> w' = w \<and> a \<in> set (plane_list os))"
proof -
  from assms(1) obtain os found where os: "output_states w so = Some os"
    and found: "find_plane_state w plane (plane_list os) = Inr found"
    and res: "(case found of Some p \<Rightarrow> Inr (w, p)
               | None \<Rightarrow> drm_plane_state_alloc (Some so) plane w) = Inr (w', a)"
    by (auto simp: drm_output_state_get_plane_def drm_output_state_get_existing_plane_def
        Inr_iffs)
  show ?thesis
  proof (cases found)
    case None
    then have alloc: "drm_plane_state_alloc (Some so) plane w = Inr (w', a)" using res by simp
    have guard: "\<forall>ps\<in>set (plane_list os). map_option ps_plane (plane_states w ps) \<noteq> Some plane"
      using find_plane_state_None found None by simp
    have "plane_exclusive w'"
      using plane_state_alloc_exclusive [OF alloc assms(2)] guard os by simp
    moreover have "\<exists>os'. output_states w' so = Some os' \<and> a \<in> set (plane_list os')
               \<and> map_option ps_plane (plane_states w' a) = Some plane"
      using plane_state_alloc_effect [OF alloc] os by (auto simp: zalloc_plane_state_def)
    ultimately show ?thesis using guard os by auto
  next
    case (Some p)
    then have "w' = w" "a = p" using res by simp_all
    then show ?thesis
      using assms(2) os find_plane_state_Some [OF found [unfolded Some]] by auto
  qed
qed

lemma exclusive_fresh_cell:
  assumes "plane_exclusive v"
  shows "plane_exclusive (v\<lparr>plane_states := (plane_states v)(next_addr v \<mapsto> x),
                           next_addr := Suc (next_addr v)\<rparr>)"
  unfolding plane_exclusive_def
proof (intro allI impI)
  fix so os
  assume "output_states (v\<lparr>plane_states := (plane_states v)(next_addr v \<mapsto> x),
                           next_addr := Suc (next_addr v)\<rparr>) so = Some os"
  then have ok: "listed_ok (plane_states v) (next_addr v) (plane_list os)"
    using assms by (simp add: plane_exclusive_def)
  then have "next_addr v \<notin> set (plane_list os)" by (rule listed_ok_fresh)
  then show "listed_ok (plane_states (v\<lparr>plane_states := (plane_states v)(next_addr v \<mapsto> x),
                           next_addr := Suc (next_addr v)\<rparr>))
               (next_addr (v\<lparr>plane_states := (plane_states v)(next_addr v \<mapsto> x),
                           next_addr := Suc (next_addr v)\<rparr>)) (plane_list os)"
    using ok by (simp add: listed_ok_upd_notin listed_ok_Suc)
qed

lemma exclusive_fb_only: "fb_only v v' \<Longrightarrow> plane_exclusive v' = plane_exclusive v"
  by (simp add: fb_only_def plane_exclusive_def)

lemma free_same_plane_step:
  assumes "free_same_plane src p x v = Inr v'"
  shows "x \<noteq> src \<and> (\<exists>r. plane_states v x = Some r
           \<and> (if ps_plane r = p then drm_plane_state_free (Some x) False v = Inr v'
               else v' = v))"
  using assms by (auto simp: free_same_plane_def Inr_iffs split: if_splits)

text \<open>What the loop of \<^verbatim>\<open>drm_plane_state_duplicate\<close> leaves behind.\<close>

lemma free_same_plane_loop:
  assumes loop: "foreach xs (free_same_plane src p) w = Inr w'"
    and ex: "plane_exclusive w"
    and d: "d \<notin> set xs"
  shows "plane_exclusive w' \<and> next_addr w' = next_addr w
         \<and> plane_states w' d = plane_states w d
         \<and> (\<forall>so os'. output_states w' so = Some os' \<longrightarrow>
               (\<exists>os. output_states w so = Some os
                  \<and> set (plane_list os') \<subseteq> set (plane_list os)
                  \<and> os'\<lparr>plane_list := []\<rparr> = os\<lparr>plane_list := []\<rparr>
                  \<and> (\<forall>y\<in>set (plane_list os') \<inter> set xs.
                        map_option ps_plane (plane_states w' y) \<noteq> Some p)))
         \<and> (\<forall>so os. output_states w so = Some os \<longrightarrow> output_states w' so \<noteq> None)"
proof -
  let ?P = "\<lambda>seen v. plane_exclusive v \<and> next_addr v = next_addr w
         \<and> (d \<notin> set seen \<longrightarrow> plane_states v d = plane_states w d)
         \<and> (\<forall>so os'. output_states v so = Some os' \<longrightarrow>
               (\<exists>os. output_states w so = Some os
                  \<and> set (plane_list os') \<subseteq> set (plane_list os)
                  \<and> os'\<lparr>plane_list := []\<rparr> = os\<lparr>plane_list := []\<rparr>
                  \<and> (\<forall>y\<in>set (plane_list os') \<inter> set seen.
                        map_option ps_plane (plane_states v y) \<noteq> Some p)))
         \<and> (\<forall>so os. output_states w so = Some os \<longrightarrow> output_states v so \<noteq> None)"
  have "?P xs w'"
  proof (rule foreach_inv_prefix [where P = ?P, OF loop])
    show "?P [] w" using ex by auto
  next
    fix seen x v v'
    assume P: "?P seen v" and step: "free_same_plane src p x v = Inr v'"
    from free_same_plane_step [OF step] obtain r where r: "plane_states v x = Some r"
      and branch: "if ps_plane r = p then drm_plane_state_free (Some x) False v = Inr v'
                   else v' = v" by blast
    show "?P (seen @ [x]) v'"
    proof (cases "ps_plane r = p")
      case False
      then have same: "v' = v" using branch by simp
      have "\<exists>os. output_states w so = Some os
                  \<and> set (plane_list os') \<subseteq> set (plane_list os)
                  \<and> os'\<lparr>plane_list := []\<rparr> = os\<lparr>plane_list := []\<rparr>
                  \<and> (\<forall>y\<in>set (plane_list os') \<inter> set (seen @ [x]).
                        map_option ps_plane (plane_states v y) \<noteq> Some p)"
        if "output_states v so = Some os'" for so os'
      proof -
        from P that obtain os where os: "output_states w so = Some os"
          "set (plane_list os') \<subseteq> set (plane_list os)"
          "os'\<lparr>plane_list := []\<rparr> = os\<lparr>plane_list := []\<rparr>"
          "\<forall>y\<in>set (plane_list os') \<inter> set seen.
              map_option ps_plane (plane_states v y) \<noteq> Some p" by blast
        have "\<forall>y\<in>set (plane_list os') \<inter> set (seen @ [x]).
                 map_option ps_plane (plane_states v y) \<noteq> Some p"
          using os(4) r False by auto
        then show ?thesis using os(1,2,3) by blast
      qed
      then show ?thesis using P same by auto
    next
      case True
      then have free: "drm_plane_state_free (Some x) False v = Inr v'" using branch by simp
      note eff = plane_state_free_effect [OF free]
      have 1: "plane_exclusive v'" using plane_state_free_exclusive [OF free] P by simp
      have 2: "next_addr v' = next_addr w" using eff P by simp
      have 3: "d \<notin> set (seen @ [x]) \<longrightarrow> plane_states v' d = plane_states w d"
        using eff P by auto
      have 4: "\<exists>os. output_states w so = Some os
                  \<and> set (plane_list os') \<subseteq> set (plane_list os)
                  \<and> os'\<lparr>plane_list := []\<rparr> = os\<lparr>plane_list := []\<rparr>
                  \<and> (\<forall>y\<in>set (plane_list os') \<inter> set (seen @ [x]).
                        map_option ps_plane (plane_states v' y) \<noteq> Some p)"
        if "output_states v' so = Some os'" for so os'
      proof -
        from that eff obtain osv where osv: "output_states v so = Some osv"
          and l: "os' = osv\<lparr>plane_list := removeAll x (plane_list osv)\<rparr>" by auto
        from P osv obtain os where os: "output_states w so = Some os"
          "set (plane_list osv) \<subseteq> set (plane_list os)"
          "osv\<lparr>plane_list := []\<rparr> = os\<lparr>plane_list := []\<rparr>"
          "\<forall>y\<in>set (plane_list osv) \<inter> set seen.
              map_option ps_plane (plane_states v y) \<noteq> Some p" by blast
        have "\<forall>y\<in>set (plane_list os') \<inter> set (seen @ [x]).
                 map_option ps_plane (plane_states v' y) \<noteq> Some p"
          using l os(4) eff by auto
        moreover have "os'\<lparr>plane_list := []\<rparr> = os\<lparr>plane_list := []\<rparr>"
          using l os(3) by simp
        ultimately show ?thesis using os(1,2) l by auto
      qed
      have 5: "\<forall>so os. output_states w so = Some os \<longrightarrow> output_states v' so \<noteq> None"
        using eff P by auto
      show ?thesis using 1 2 3 4 5 by blast
    qed
  qed
  then show ?thesis using d by blast
qed

lemma exclusive_insert:
  assumes ex: "plane_exclusive v" and os: "output_states v so = Some os"
    and a: "plane_states v a = Some r" "a < next_addr v" "a \<notin> set (plane_list os)"
    and other: "\<forall>ps\<in>set (plane_list os). map_option ps_plane (plane_states v ps) \<noteq> Some (ps_plane r)"
  shows "plane_exclusive (v\<lparr>output_states := (output_states v)(so \<mapsto> os\<lparr>plane_list := a # plane_list os\<rparr>)\<rparr>)"
  unfolding plane_exclusive_def
proof (intro allI impI)
  fix s os'
  assume *: "output_states (v\<lparr>output_states := (output_states v)(so \<mapsto> os\<lparr>plane_list := a # plane_list os\<rparr>)\<rparr>) s = Some os'"
  have "listed_ok (plane_states v) (next_addr v) (plane_list os')"
  proof (cases "s = so")
    case True
    then have "plane_list os' = a # plane_list os" using * by auto
    moreover have "listed_ok (plane_states v) (next_addr v) (plane_list os)"
      using ex os by (simp add: plane_exclusive_def)
    ultimately show ?thesis using a other by (simp add: listed_ok_Cons)
  next
    case False
    then show ?thesis using * ex by (simp add: plane_exclusive_def)
  qed
  then show "listed_ok (plane_states (v\<lparr>output_states := (output_states v)(so \<mapsto> os\<lparr>plane_list := a # plane_list os\<rparr>)\<rparr>))
     (next_addr (v\<lparr>output_states := (output_states v)(so \<mapsto> os\<lparr>plane_list := a # plane_list os\<rparr>)\<rparr>)) (plane_list os')"
    by simp
qed

lemma exclusive_same_plane:
  assumes ex: "plane_exclusive v" and a: "plane_states v a = Some r" "ps_plane r' = ps_plane r"
  shows "plane_exclusive (v\<lparr>plane_states := (plane_states v)(a \<mapsto> r')\<rparr>)"
  using ex listed_ok_same_plane [of "plane_states v" a r r'] a
  by (simp add: plane_exclusive_def)

lemma plane_state_duplicate_exclusive:
  assumes dup: "drm_plane_state_duplicate so src w = Inr (w', dst)" and ex: "plane_exclusive w"
  shows "plane_exclusive w'
         \<and> (\<exists>s os'. plane_states w src = Some s \<and> output_states w' so = Some os'
               \<and> dst \<in> set (plane_list os')
               \<and> (\<forall>y\<in>set (plane_list os').
                     map_option ps_plane (plane_states w' y) = Some (ps_plane s) \<longrightarrow> y = dst))"
proof -
  let ?w1 = "\<lambda>s. w\<lparr>plane_states := (plane_states w)(next_addr w \<mapsto> s), next_addr := Suc (next_addr w)\<rparr>"
  from dup obtain s os w2 w3 w5 fbp d where
    s: "plane_states w src = Some s" and dst: "dst = next_addr w"
    and os: "output_states w so = Some os"
    and loop: "foreach (plane_list os) (free_same_plane src (ps_plane s)) (?w1 s) = Inr w2"
    and link: "link_plane_state so dst w2 = Inr w3"
    and ref: "duplicate_fb src dst w3 = Inr (w5, fbp)"
    and d: "plane_states w5 dst = Some d"
    and w': "w' = w5\<lparr>plane_states := (plane_states w5)(dst \<mapsto> d\<lparr>ps_fb := fbp, ps_output_state := Some so, complete := False\<rparr>)\<rparr>"
    by (auto simp: drm_plane_state_duplicate_def Let_def Inr_iffs)
  from link obtain os2 where os2: "output_states w2 so = Some os2"
    and w3: "w3 = w2\<lparr>output_states := (output_states w2)(so \<mapsto> os2\<lparr>plane_list := dst # plane_list os2\<rparr>)\<rparr>"
    by (auto simp: link_plane_state_def Inr_iffs)
  let ?w3 = "w2\<lparr>output_states := (output_states w2)(so \<mapsto> os2\<lparr>plane_list := dst # plane_list os2\<rparr>)\<rparr>"
  have ok: "listed_ok (plane_states w) (next_addr w) (plane_list os)"
    using ex os by (simp add: plane_exclusive_def)
  then have notin: "dst \<notin> set (plane_list os)" using dst by (auto dest: listed_ok_fresh)
  have ex1: "plane_exclusive (?w1 s)" using ex by (rule exclusive_fresh_cell)
  note L = free_same_plane_loop [OF loop ex1 notin]
  have ex2: "plane_exclusive w2" and n2: "next_addr w2 = Suc dst"
    and d2: "plane_states w2 dst = Some s"
    using L dst by simp_all
  from L os2 os have sub: "set (plane_list os2) \<subseteq> set (plane_list os)"
    and diff: "\<forall>y\<in>set (plane_list os2) \<inter> set (plane_list os).
                 map_option ps_plane (plane_states w2 y) \<noteq> Some (ps_plane s)"
    by fastforce+
  have other: "\<forall>y\<in>set (plane_list os2). map_option ps_plane (plane_states w2 y) \<noteq> Some (ps_plane s)"
    using sub diff by blast
  have notin2: "dst \<notin> set (plane_list os2)" using sub notin by blast
  have ex3: "plane_exclusive ?w3"
    using exclusive_insert [OF ex2 os2 d2 _ notin2 other] n2 by simp
  have fr: "fb_only ?w3 w5"
    using ref w3
    by (auto simp: duplicate_fb_def Inr_iffs split: option.splits dest: drm_fb_ref_frame)
  then have ex5: "plane_exclusive w5" using ex3 exclusive_fb_only by blast
  have d5: "plane_states w5 = plane_states w2" "output_states w5 = output_states ?w3"
    using fr by (simp_all add: fb_only_def)
  then have "d = s" using d d2 by simp
  then have ex': "plane_exclusive w'"
    unfolding w' using exclusive_same_plane [OF ex5 d] by simp
  have "output_states w' so = Some (os2\<lparr>plane_list := dst # plane_list os2\<rparr>)"
    using w' d5 by simp
  moreover have "\<forall>y\<in>set (dst # plane_list os2).
      map_option ps_plane (plane_states w' y) = Some (ps_plane s) \<longrightarrow> y = dst"
    using other w' d5 by auto
  ultimately show ?thesis using ex' s by auto
qed

lemma foreach_inv_split_aux:
  assumes "foreach ys f w = Inr w'" and "xs = pre @ ys" and "P pre w"
    and "\<And>seen x rest v v'. xs = seen @ x # rest \<Longrightarrow> P seen v \<Longrightarrow> f x v = Inr v'
           \<Longrightarrow> P (seen @ [x]) v'"
  shows "P xs w'"
  using assms(1,2,3)
proof (induction ys arbitrary: pre w)
  case Nil
  then show ?case by simp
next
  case (Cons y ys)
  from Cons.prems(1) obtain v where v: "f y w = Inr v" and rest: "foreach ys f v = Inr w'"
    by (auto simp: bnd_Inr_iff)
  have "P (pre @ [y]) v" using assms(4) [OF Cons.prems(2) Cons.prems(3) v] .
  moreover have "xs = (pre @ [y]) @ ys" using Cons.prems(2) by simp
  ultimately show ?case using Cons.IH [OF rest] by blast
qed

lemma foreach_inv_split:
  assumes "foreach xs f w = Inr w'" and "P [] w"
    and "\<And>seen x rest v v'. xs = seen @ x # rest \<Longrightarrow> P seen v \<Longrightarrow> f x v = Inr v'
           \<Longrightarrow> P (seen @ [x]) v'"
  shows "P xs w'"
  using foreach_inv_split_aux [OF assms(1), of xs "[]" P] assms(2,3) by simp

lemma output_state_free_exclusive:
  assumes "drm_output_state_free p w = Inr w'" "plane_exclusive w"
  shows "plane_exclusive w'"
proof (cases p)
  case None
  then show ?thesis using assms by (simp add: drm_output_state_free_def)
next
  case (Some st)
  from assms(1) Some obtain s w1 where s: "output_states w st = Some s"
    and loop: "foreach (plane_list s) free_listed_plane_state w = Inr w1"
    and w': "w' = (unlink_output_state st w1)\<lparr>output_states := (output_states (unlink_output_state st w1))(st := None)\<rparr>"
    by (auto simp: drm_output_state_free_def Let_def Inr_iffs)
  have "plane_exclusive w1"
    by (rule foreach_inv [where P = plane_exclusive, OF loop assms(2)])
       (auto simp: free_listed_plane_state_def dest: plane_state_free_exclusive)
  then show ?thesis
    unfolding w' by (auto simp: plane_exclusive_def unlink_output_state_def split: if_splits)
qed

lemma link_output_state_exclusive:
  assumes "link_output_state p st w = Inr w'"
  shows "plane_exclusive w' = plane_exclusive w"
  using link_output_state_frame [OF assms] by (simp add: plane_exclusive_def)

lemma exclusive_new_output_state:
  assumes "plane_exclusive w"
  shows "plane_exclusive (w\<lparr>output_states := (output_states w)(next_addr w \<mapsto> s\<lparr>plane_list := []\<rparr>),
                           next_addr := Suc (next_addr w)\<rparr>)"
  using assms by (auto simp: plane_exclusive_def listed_ok_Suc) (simp add: listed_ok_def)

lemma output_state_alloc_exclusive:
  assumes "drm_output_state_alloc output p w = Inr (w', st)" "plane_exclusive w"
  shows "plane_exclusive w'"
proof -
  from assms(1) obtain w1 where
    "link_output_state p (next_addr w)
       (w\<lparr>output_states := (output_states w)
             (next_addr w \<mapsto> \<lparr>os_output = output, os_pending_state = p,
                              dpms = WESTON_DPMS_OFF, plane_list = []\<rparr>),
          next_addr := Suc (next_addr w)\<rparr>) = Inr w1" and "w' = w1"
    by (auto simp: drm_output_state_alloc_def Let_def Inr_iffs)
  then show ?thesis
    using link_output_state_exclusive
      exclusive_new_output_state [OF assms(2),
        of "\<lparr>os_output = output, os_pending_state = p, dpms = WESTON_DPMS_OFF, plane_list = []\<rparr>"]
    by simp
qed

lemma put_back_exclusive:
  assumes pb: "drm_plane_state_put_back (Some st) w = Inr w'" and ex: "plane_exclusive w"
    and mem: "\<forall>r so os. plane_states w st = Some r \<longrightarrow> ps_output_state r = Some so \<longrightarrow>
                output_states w so = Some os \<longrightarrow> st \<in> set (plane_list os)"
  shows "plane_exclusive w'"
proof -
  from pb obtain r w1 where r: "plane_states w st = Some r"
    and free: "drm_plane_state_free (Some st) False w = Inr w1"
    and alloc: "w' = w1 \<or> (\<exists>a. drm_plane_state_alloc (ps_output_state r) (ps_plane r) w1 = Inr (w', a))"
    by (auto simp: drm_plane_state_put_back_def Inr_iffs split: if_splits)
  have ex1: "plane_exclusive w1" using plane_state_free_exclusive [OF free ex] .
  note eff = plane_state_free_effect [OF free]
  have guard: "\<forall>ps\<in>set (plane_list os1). map_option ps_plane (plane_states w1 ps) \<noteq> Some (ps_plane r)"
    if so: "ps_output_state r = Some so" and os1: "output_states w1 so = Some os1" for so os1
  proof -
    from os1 eff obtain os where os: "output_states w so = Some os"
      and l: "plane_list os1 = removeAll st (plane_list os)" by auto
    have st_in: "st \<in> set (plane_list os)" using mem r so os by blast
    have ok: "listed_ok (plane_states w) (next_addr w) (plane_list os)"
      using ex os by (simp add: plane_exclusive_def)
    then have dist: "distinct (map (\<lambda>ps. map_option ps_plane (plane_states w ps)) (plane_list os))"
      by (simp add: listed_ok_def)
    have "map_option ps_plane (plane_states w ps) \<noteq> Some (ps_plane r)"
      if "ps \<in> set (plane_list os)" "ps \<noteq> st" for ps
    proof
      assume "map_option ps_plane (plane_states w ps) = Some (ps_plane r)"
      then have "map_option ps_plane (plane_states w ps) = map_option ps_plane (plane_states w st)"
        using r by simp
      then show False using dist that st_in by (metis distinct_map inj_onD)
    qed
    then show ?thesis using l eff by auto
  qed
  from alloc show ?thesis
  proof
    assume "w' = w1" then show ?thesis using ex1 by simp
  next
    assume "\<exists>a. drm_plane_state_alloc (ps_output_state r) (ps_plane r) w1 = Inr (w', a)"
    then obtain a where a: "drm_plane_state_alloc (ps_output_state r) (ps_plane r) w1 = Inr (w', a)" ..
    show ?thesis
      by (rule plane_state_alloc_exclusive [OF a ex1]) (use guard in blast)
  qed
qed

lemma duplicate_plane_preserve_loop:
  assumes "foreach xs (duplicate_plane dst DRM_OUTPUT_STATE_PRESERVE_PLANES) w = Inr w'"
    and "plane_exclusive w"
  shows "plane_exclusive w'"
  by (rule foreach_inv [where P = plane_exclusive, OF assms])
     (auto simp: duplicate_plane_def Inr_iffs split: if_splits
       dest: plane_state_duplicate_exclusive)

lemma duplicate_plane_clear_loop:
  assumes loop: "foreach xs (duplicate_plane dst DRM_OUTPUT_STATE_CLEAR_PLANES) w = Inr w'"
    and ex: "plane_exclusive w"
    and dst: "output_states w dst = Some os0" "plane_list os0 = []"
    and xs: "\<forall>x\<in>set xs. x < next_addr w"
      "distinct (map (\<lambda>ps. map_option ps_plane (plane_states w ps)) xs)"
  shows "plane_exclusive w'"
proof -
  let ?pl = "\<lambda>v ps. map_option ps_plane (plane_states v ps)"
  let ?P = "\<lambda>seen v. plane_exclusive v \<and> next_addr w \<le> next_addr v
      \<and> (\<forall>b<next_addr w. plane_states v b = plane_states w b)
      \<and> (\<exists>os. output_states v dst = Some os
            \<and> (\<forall>y\<in>set (plane_list os). ?pl v y \<in> ?pl w ` set seen))"
  have "?P xs w'"
  proof (rule foreach_inv_split [where P = ?P, OF loop])
    show "?P [] w" using ex dst by simp
  next
    fix seen x rest v v'
    assume split: "xs = seen @ x # rest" and P: "?P seen v"
      and step: "duplicate_plane dst DRM_OUTPUT_STATE_CLEAR_PLANES x v = Inr v'"
    from P obtain os where os: "output_states v dst = Some os"
      "\<forall>y\<in>set (plane_list os). ?pl v y \<in> ?pl w ` set seen" by blast
    have xlt: "x < next_addr w" using xs(1) split by simp
    from step obtain r where r: "plane_states v x = Some r"
      and branch: "v' = v \<or> (\<exists>a. drm_plane_state_alloc (Some dst) (ps_plane r) v = Inr (v', a))"
      by (auto simp: duplicate_plane_def Inr_iffs split: if_splits)
    from branch show "?P (seen @ [x]) v'"
    proof
      assume "v' = v"
      then show ?thesis using P by auto
    next
      assume "\<exists>a. drm_plane_state_alloc (Some dst) (ps_plane r) v = Inr (v', a)"
      then obtain a where
        alloc: "drm_plane_state_alloc (Some dst) (ps_plane r) v = Inr (v', a)" ..
      note eff = plane_state_alloc_effect [OF alloc]
      have plx: "?pl w x = Some (ps_plane r)" using P r xlt by simp
      have "?pl w x \<notin> ?pl w ` set seen"
        using xs(2) split by auto
      then have guard: "\<forall>ps\<in>set (plane_list os). ?pl v ps \<noteq> Some (ps_plane r)"
        using os(2) plx by metis
      have 1: "plane_exclusive v'"
        by (rule plane_state_alloc_exclusive [OF alloc]) (use P guard os in auto)
      have 2: "next_addr w \<le> next_addr v'" using eff P by simp
      have 3: "\<forall>b<next_addr w. plane_states v' b = plane_states w b"
        using eff P by auto
      have lo: "listed_ok (plane_states v) (next_addr v) (plane_list os)"
        using P os by (simp add: plane_exclusive_def)
      have os': "output_states v' dst = Some (os\<lparr>plane_list := a # plane_list os\<rparr>)"
        using eff os by auto
      have "?pl v' y \<in> ?pl w ` set (seen @ [x])" if "y \<in> set (a # plane_list os)" for y
      proof (cases "y = a")
        case True
        then have "?pl v' y = Some (ps_plane r)" using eff by (simp add: zalloc_plane_state_def)
        then have "?pl v' y = ?pl w x" using plx by (simp only:)
        then show ?thesis by (simp only: set_append list.set image_Un image_insert) blast
      next
        case False
        then have "y \<in> set (plane_list os)" using that by simp
        moreover from this have "y \<noteq> next_addr v" using lo by (auto dest: listed_ok_fresh)
        ultimately show ?thesis using os(2) eff by auto
      qed
      then have 4: "\<exists>os. output_states v' dst = Some os
            \<and> (\<forall>y\<in>set (plane_list os). ?pl v' y \<in> ?pl w ` set (seen @ [x]))"
        using os' by simp
      show ?thesis using 1 2 3 4 by blast
    qed
  qed
  then show ?thesis by blast
qed

lemma output_state_duplicate_exclusive:
  assumes dup: "drm_output_state_duplicate src p mode w = Inr (w', dst)"
    and ex: "plane_exclusive w"
  shows "plane_exclusive w'"
proof -
  let ?w1 = "\<lambda>s. w\<lparr>output_states := (output_states w)
                 (next_addr w \<mapsto> s\<lparr>os_pending_state := p, plane_list := []\<rparr>),
               next_addr := Suc (next_addr w)\<rparr>"
  from dup obtain s w2 where s: "output_states w src = Some s" and dst: "dst = next_addr w"
    and link: "link_output_state p dst (?w1 s) = Inr w2"
    and loop: "foreach (plane_list s) (duplicate_plane dst mode) w2 = Inr w'"
    by (auto simp: drm_output_state_duplicate_def Let_def Inr_iffs)
  have "plane_exclusive (?w1 s)"
    using exclusive_new_output_state [OF ex, of "s\<lparr>os_pending_state := p\<rparr>"] by simp
  then have ex2: "plane_exclusive w2" using link_output_state_exclusive [OF link] by simp
  note fr = link_output_state_frame [OF link]
  show ?thesis
  proof (cases mode)
    case DRM_OUTPUT_STATE_PRESERVE_PLANES
    then show ?thesis using duplicate_plane_preserve_loop loop ex2 by blast
  next
    case DRM_OUTPUT_STATE_CLEAR_PLANES
    have ok: "listed_ok (plane_states w) (next_addr w) (plane_list s)"
      using ex s by (simp add: plane_exclusive_def)
    have a: "output_states w2 dst = Some (s\<lparr>os_pending_state := p, plane_list := []\<rparr>)"
      using fr dst by simp
    have b: "\<forall>x\<in>set (plane_list s). x < next_addr w2"
      using ok fr by (auto simp: listed_ok_def less_Suc_eq)
    have c: "distinct (map (\<lambda>ps. map_option ps_plane (plane_states w2 ps)) (plane_list s))"
      using ok fr by (simp add: listed_ok_def)
    show ?thesis
      using duplicate_plane_clear_loop [OF loop [unfolded DRM_OUTPUT_STATE_CLEAR_PLANES] ex2 a _ b c]
      by simp
  qed
qed

text \<open>
  Claim C5. No two plane states of one output state name the same plane, and the
  operations of the state model keep it so: duplicating a plane state into an output state
  leaves the copy as the only entry for its plane, and
  \<^verbatim>\<open>drm_output_state_get_plane\<close> returns the entry that exists instead of allocating.
  Putting a plane state back is meant for a state that is listed in the output state it
  names.
\<close>

theorem plane_exclusivity_preserved:
  "plane_exclusive w \<longrightarrow>
     (drm_plane_state_duplicate so src w = Inr (w1, dst) \<longrightarrow>
        plane_exclusive w1
        \<and> (\<exists>s os'. plane_states w src = Some s \<and> output_states w1 so = Some os'
              \<and> dst \<in> set (plane_list os')
              \<and> (\<forall>y\<in>set (plane_list os').
                    map_option ps_plane (plane_states w1 y) = Some (ps_plane s) \<longrightarrow> y = dst)))
     \<and> (drm_output_state_get_plane so2 plane w = Inr (w2, a) \<longrightarrow>
          plane_exclusive w2
          \<and> (\<exists>os'. output_states w2 so2 = Some os' \<and> a \<in> set (plane_list os')
                \<and> map_option ps_plane (plane_states w2 a) = Some plane)
          \<and> (\<forall>os. output_states w so2 = Some os \<longrightarrow>
                (\<exists>ps\<in>set (plane_list os). map_option ps_plane (plane_states w ps) = Some plane)
                \<longrightarrow> w2 = w \<and> a \<in> set (plane_list os)))
     \<and> (drm_plane_state_free p force w = Inr w3 \<longrightarrow> plane_exclusive w3)
     \<and> (drm_plane_state_put_back (Some st) w = Inr w4 \<longrightarrow>
          (\<forall>r so os. plane_states w st = Some r \<longrightarrow> ps_output_state r = Some so \<longrightarrow>
                output_states w so = Some os \<longrightarrow> st \<in> set (plane_list os))
          \<longrightarrow> plane_exclusive w4)
     \<and> (drm_output_state_alloc out pend w = Inr (w5, st5) \<longrightarrow> plane_exclusive w5)
     \<and> (drm_output_state_duplicate osrc pend' mode w = Inr (w6, dst6) \<longrightarrow>
          plane_exclusive w6)
     \<and> (drm_output_state_free q w = Inr w7 \<longrightarrow> plane_exclusive w7)"
  using plane_state_duplicate_exclusive [of so src w w1 dst]
    get_plane_exclusive [of so2 plane w w2 a]
    plane_state_free_exclusive [of p force w w3]
    put_back_exclusive [of st w w4]
    output_state_alloc_exclusive [of out pend w w5 st5]
    output_state_duplicate_exclusive [of osrc pend' mode w w6 dst6]
    output_state_free_exclusive [of q w w7]
  by blast

lemmas eval_defs = drm_plane_state_duplicate_def free_same_plane_def link_plane_state_def
  duplicate_fb_def drm_fb_ref_def drm_output_state_get_plane_def
  drm_output_state_get_existing_plane_def drm_plane_state_free_def unlink_plane_state_def
  drm_fb_unref_def drm_fb_destroy_dumb_def drm_fb_destroy_def gbm_bo_destroy_call_def
  drm_fb_destroy_gbm_def drm_plane_state_put_back_def drm_plane_state_alloc_def
  drm_output_state_alloc_def link_output_state_def drm_output_state_duplicate_def
  duplicate_plane_def drm_output_state_free_def free_listed_plane_state_def
  unlink_output_state_def deref_def nonnull_def bnd_def assert_def Let_def emit_def

lemma example_world_exclusive: "plane_exclusive example_world"
  by (auto simp: plane_exclusive_def listed_ok_def example_defs split: if_splits)

theorem plane_exclusivity_preserved_witness:
  "plane_exclusive example_world
   \<and> (\<exists>w1 d. drm_plane_state_duplicate 20 13 example_world = Inr (w1, d) \<and> plane_exclusive w1)
   \<and> (drm_output_state_get_plane 20 2 example_world = Inr (example_world, 12))
   \<and> (\<exists>w3. drm_plane_state_free (Some 11) True example_world = Inr w3 \<and> plane_exclusive w3)
   \<and> (\<exists>w4. drm_plane_state_put_back (Some 12) example_world = Inr w4 \<and> plane_exclusive w4)
   \<and> (\<exists>w5 s. drm_output_state_alloc 0 (Some 50) example_world = Inr (w5, s) \<and> plane_exclusive w5)
   \<and> (\<exists>w6 s. drm_output_state_duplicate 20 (Some 50) DRM_OUTPUT_STATE_PRESERVE_PLANES
                example_world = Inr (w6, s) \<and> plane_exclusive w6)
   \<and> (\<exists>w7. drm_output_state_free (Some 20) example_world = Inr w7 \<and> plane_exclusive w7)"
proof -
  have e1: "\<exists>w1. drm_plane_state_duplicate 20 13 example_world = Inr (w1, 60)"
    by (simp add: eval_defs example_defs)
  have e2: "drm_output_state_get_plane 20 2 example_world = Inr (example_world, 12)"
    by (simp add: eval_defs example_defs)
  have e3: "\<exists>w3. drm_plane_state_free (Some 11) True example_world = Inr w3"
    by (simp add: eval_defs example_defs)
  have e4: "\<exists>w4. drm_plane_state_put_back (Some 12) example_world = Inr w4"
    by (simp add: eval_defs example_defs)
  have e5: "\<exists>w5. drm_output_state_alloc 0 (Some 50) example_world = Inr (w5, 60)"
    by (simp add: eval_defs example_defs)
  have e6: "\<exists>w6. drm_output_state_duplicate 20 (Some 50) DRM_OUTPUT_STATE_PRESERVE_PLANES
                example_world = Inr (w6, 60)"
    by (simp add: eval_defs example_defs)
  have e7: "\<exists>w7. drm_output_state_free (Some 20) example_world = Inr w7"
    by (simp add: eval_defs example_defs)
  have mem: "\<forall>r so os. plane_states example_world 12 = Some r \<longrightarrow> ps_output_state r = Some so
       \<longrightarrow> output_states example_world so = Some os \<longrightarrow> 12 \<in> set (plane_list os)"
    by (simp add: example_defs)
  from e1 obtain w1 where w1: "drm_plane_state_duplicate 20 13 example_world = Inr (w1, 60)" ..
  from e3 obtain w3 where w3: "drm_plane_state_free (Some 11) True example_world = Inr w3" ..
  from e4 obtain w4 where w4: "drm_plane_state_put_back (Some 12) example_world = Inr w4" ..
  from e5 obtain w5 where w5: "drm_output_state_alloc 0 (Some 50) example_world = Inr (w5, 60)" ..
  from e6 obtain w6 where w6: "drm_output_state_duplicate 20 (Some 50)
      DRM_OUTPUT_STATE_PRESERVE_PLANES example_world = Inr (w6, 60)" ..
  from e7 obtain w7 where w7: "drm_output_state_free (Some 20) example_world = Inr w7" ..
  note inst = plane_exclusivity_preserved
    [where w = example_world and so = 20 and src = 13 and ?w1.0 = w1 and dst = 60
       and ?so2.0 = 20 and plane = 2 and ?w2.0 = example_world and a = 12
       and p = "Some 11" and force = True and ?w3.0 = w3 and st = 12 and ?w4.0 = w4
       and out = 0 and pend = "Some 50" and ?w5.0 = w5 and ?st5.0 = 60
       and osrc = 20 and pend' = "Some 50" and mode = DRM_OUTPUT_STATE_PRESERVE_PLANES
       and ?w6.0 = w6 and ?dst6.0 = 60 and q = "Some 20" and ?w7.0 = w7,
     THEN mp, OF example_world_exclusive]
  have "plane_exclusive w1" using inst w1 by simp
  moreover have "plane_exclusive w3" using inst w3 by simp
  moreover have "plane_exclusive w4" using inst w4 mem by simp
  moreover have "plane_exclusive w5" using inst w5 by simp
  moreover have "plane_exclusive w6" using inst w6 by simp
  moreover have "plane_exclusive w7" using inst w7 by simp
  ultimately show ?thesis
    using example_world_exclusive w1 e2 w3 w4 w5 w6 w7 by blast
qed

subsection \<open>Atomic commit\<close>

lemma submitted_emit [simp]: "submitted (emit c v) = submitted v"
  by (simp add: submitted_def emit_def)

lemma submitted_ioctl [simp]: "submitted (fst (ioctl c v)) = submitted v"
  by (simp add: ioctl_def)

lemma submitted_add_prop [simp]: "submitted (fst (add_prop obj prop val w)) = submitted w"
  by (simp add: add_prop_def case_prod_beta)

lemma submitted_or_all:
  assumes "\<forall>f\<in>set fs. \<forall>v. submitted (fst (f v)) = submitted v"
  shows "submitted (fst (or_all fs r w)) = submitted w"
  using assms by (induction fs arbitrary: r w) (simp_all add: case_prod_beta)

lemma submitted_plane_props [simp]:
  "submitted (fst (or_all (atomic_plane_props out plane ps fbid) r w)) = submitted w"
  by (rule submitted_or_all) (simp add: atomic_plane_props_def plane_add_prop_def)

lemma submitted_crtc_props [simp]:
  "submitted (fst (or_all [crtc_add_prop o1 p1 v1, crtc_add_prop o2 p2 v2,
                           connector_add_prop o3 p3 v3] r w)) = submitted w"
  by (rule submitted_or_all) (simp add: crtc_add_prop_def connector_add_prop_def)






lemma submitted_resync_connector [simp]:
  "submitted (fst (resync_connector c wr)) = submitted (fst wr)"
  by (simp add: resync_connector_def case_prod_beta Let_def)

lemma submitted_resync_crtc [simp]:
  "submitted (fst (resync_crtc c wr)) = submitted (fst wr)"
  by (simp add: resync_crtc_def case_prod_beta Let_def)




lemma owners_fb_only: "fb_only w w' \<Longrightarrow> owners w' = owners w"
  by (simp add: fb_only_def owners_def)

lemma plane_state_free_owners:
  "drm_plane_state_free p force w = Inr w' \<Longrightarrow> owners w' = owners w"
  by (cases p)
     (auto simp: drm_plane_state_free_def unlink_plane_state_def Inr_iffs Let_def fb_only_def
       owners_def split: if_splits dest!: drm_fb_unref_frame)

lemma output_state_free_owners:
  assumes "drm_output_state_free p w = Inr w'"
  shows "owners w' = owners w"
proof (cases p)
  case None
  then show ?thesis using assms by (simp add: drm_output_state_free_def)
next
  case (Some st)
  from assms Some obtain s w1 where s: "output_states w st = Some s"
    and loop: "foreach (plane_list s) free_listed_plane_state w = Inr w1"
    and w': "w' = (unlink_output_state st w1)\<lparr>output_states := (output_states (unlink_output_state st w1))(st := None)\<rparr>"
    by (auto simp: drm_output_state_free_def Let_def Inr_iffs)
  have "owners w1 = owners w"
    by (rule foreach_inv [where P = "\<lambda>v. owners v = owners w", OF loop])
       (auto simp: free_listed_plane_state_def dest: plane_state_free_owners)
  then show ?thesis unfolding w' by (simp add: owners_def unlink_output_state_def)
qed

lemma pending_state_free_owners:
  assumes "drm_pending_state_free (Some p) w = Inr w'"
  shows "owners w' = owners w \<and> pending_states w' p = None"
proof -
  from assms obtain pnd w1 where pnd: "pending_states w p = Some pnd"
    and loop: "foreach (output_list pnd) free_listed_output_state w = Inr w1"
    and w': "w' = w1\<lparr>pending_states := (pending_states w1)(p := None)\<rparr>"
    by (auto simp: drm_pending_state_free_def Inr_iffs)
  have "owners w1 = owners w"
    by (rule foreach_inv [where P = "\<lambda>v. owners v = owners w", OF loop])
       (auto simp: free_listed_output_state_def dest: output_state_free_owners)
  then show ?thesis unfolding w' by (simp add: owners_def)
qed







subsection \<open>Legacy flush\<close>

lemma legacy_flush_valid:
  "legacy_flush f p w = Inr w' \<Longrightarrow> \<not> state_invalid (backend w')"
  by (auto simp: legacy_flush_def Inr_iffs set_backend_def)

lemma legacy_finish_result:
  assumes "legacy_finish p w = Inr (w', ret)"
  shows "ret = 0 \<and> pending_states w' p = None \<and> backend w' = backend w
         \<and> (\<exists>pnd. pending_states w p = Some pnd \<and> output_list pnd = [])"
  using assms
  by (auto simp: legacy_finish_def Inr_iffs owners_def dest!: pending_state_free_owners)

text \<open>
  Claim C9. On a legacy backend the flush returns 0 whatever applying the state of each
  output returned (the function that applies one output's state is arbitrary here); when
  it returns, the flag \<open>state_invalid\<close> is clear, the output list of the pending state
  was empty after the loop, and the pending state has been freed.
\<close>

theorem legacy_flush_returns_zero:
  assumes "\<not> atomic_modeset (backend w)"
    and "drm_pending_state_apply_with apply_state_legacy p w = Inr (w', ret)"
  shows "ret = 0 \<and> pending_states w' p = None \<and> \<not> state_invalid (backend w')
         \<and> (\<exists>w1 pnd. legacy_flush (legacy_apply_output apply_state_legacy) p w = Inr w1
               \<and> pending_states w1 p = Some pnd \<and> output_list pnd = [])"
proof -
  from assms obtain w1 where
    fl: "legacy_flush (legacy_apply_output apply_state_legacy) p w = Inr w1"
    and fin: "legacy_finish p w1 = Inr (w', ret)"
    by (auto simp: drm_pending_state_apply_with_def Inr_iffs)
  from legacy_finish_result [OF fin] legacy_flush_valid [OF fl] fl show ?thesis by auto
qed

lemmas legacy_eval_defs = drm_pending_state_apply_def drm_pending_state_apply_with_def
  legacy_flush_def legacy_resync_def legacy_apply_output_def legacy_finish_def
  drm_output_apply_state_legacy_def drm_output_apply_state_legacy_with_def
  legacy_enable_def legacy_needs_modeset_def legacy_err_def legacy_flip_def
  drm_pending_state_free_def free_listed_output_state_def ioctl_def set_output_def
  set_backend_def

theorem legacy_flush_returns_zero_witness:
  "(\<exists>w1. drm_output_apply_state_legacy 0 60 flip_fail_world = Inr (w1, - 1))
   \<and> (\<exists>w'. drm_pending_state_apply 0 50 flip_fail_world = Inr (w', 0)
         \<and> pending_states w' 50 = None \<and> \<not> state_invalid (backend w'))"
proof -
  have fail: "\<exists>w1. drm_output_apply_state_legacy 0 60 flip_fail_world = Inr (w1, - 1)"
    by (simp add: legacy_eval_defs eval_defs flip_fail_world_def repaint_world_def
        flip_failing_kernel_def example_defs)
  have run: "\<exists>w'. drm_pending_state_apply 0 50 flip_fail_world = Inr (w', 0)"
    by (simp add: legacy_eval_defs eval_defs flip_fail_world_def repaint_world_def
        flip_failing_kernel_def example_defs)
  then obtain w' where w': "drm_pending_state_apply 0 50 flip_fail_world = Inr (w', 0)" ..
  have legacy: "\<not> atomic_modeset (backend flip_fail_world)"
    by (simp add: flip_fail_world_def repaint_world_def example_defs)
  from legacy_flush_returns_zero [OF legacy w' [unfolded drm_pending_state_apply_def]] fail w'
  show ?thesis by blast
qed

subsection \<open>Assigning a state\<close>

lemma free_orphan_effect:
  assumes "free_orphan plane v = Inr v'"
  shows "planes v' = planes v
     \<and> (\<forall>b c'. plane_states v' b = Some c' \<longrightarrow> plane_states v b = Some c')
     \<and> (\<forall>b c. plane_states v b = Some c \<longrightarrow> ps_output_state c \<noteq> None \<longrightarrow>
            plane_states v' b = Some c)
     \<and> (\<forall>p cur c. planes v plane = Some p \<longrightarrow> pl_state_cur p = Some cur \<longrightarrow>
            plane_states v cur = Some c \<longrightarrow> ps_output_state c = None \<longrightarrow>
            plane_states v' cur = None)
     \<and> (\<forall>a. (output_states v' a = None) = (output_states v a = None))
     \<and> outputs v' = outputs v \<and> backend v' = backend v"
proof -
  from assms obtain p where p: "planes v plane = Some p"
    and body: "(case pl_state_cur p of None \<Rightarrow> Inr v
                | Some cur \<Rightarrow> deref (plane_states v) cur (\<lambda>c.
                    if ps_output_state c = None
                    then drm_plane_state_free (Some cur) True v else Inr v)) = Inr v'"
    by (auto simp: free_orphan_def Inr_iffs)
  show ?thesis
  proof (cases "pl_state_cur p")
    case None
    then show ?thesis using body p by simp
  next
    case (Some cur)
    then obtain c where c: "plane_states v cur = Some c"
      and rest: "(if ps_output_state c = None
                  then drm_plane_state_free (Some cur) True v else Inr v) = Inr v'"
      using body by (auto simp: Inr_iffs)
    show ?thesis
    proof (cases "ps_output_state c = None")
      case False
      then show ?thesis using rest p Some c by auto
    next
      case True
      then have fr: "drm_plane_state_free (Some cur) True v = Inr v'" using rest by simp
      then have gone: "plane_states v' cur = None"
        by (auto simp: drm_plane_state_free_def Inr_iffs Let_def fb_only_def
            dest!: drm_fb_unref_frame)
      note eff = plane_state_free_effect [OF fr]
      have others: "\<forall>b. b \<noteq> cur \<longrightarrow> plane_states v' b = plane_states v b" using eff by blast
      have os: "\<forall>a. (output_states v' a = None) = (output_states v a = None)"
        using eff by simp
      have frame: "planes v' = planes v \<and> outputs v' = outputs v \<and> backend v' = backend v"
        using eff by simp
      show ?thesis
        using gone others os frame p Some c True
        by (metis option.inject option.distinct(1))
    qed
  qed
qed


lemma count_completion_effect:
  assumes "count_completion output p v = Inr v'"
  shows "planes v' = planes v \<and> plane_states v' = plane_states v
     \<and> output_states v' = output_states v \<and> backend v' = backend v
     \<and> (\<forall>a. map_option live (outputs v' a) = map_option live (outputs v a))"
  using assms
  by (auto simp: count_completion_def Inr_iffs set_output_def live_def split: if_splits)

lemma assign_plane_state_effect:
  assumes "assign_plane_state output mode x v = Inr v'"
  shows "\<exists>r p. plane_states v x = Some r \<and> planes v (ps_plane r) = Some p
     \<and> planes v' = (planes v)(ps_plane r \<mapsto> p\<lparr>pl_state_cur := Some x\<rparr>)
     \<and> (\<forall>b c'. plane_states v' b = Some c' \<longrightarrow>
            (\<exists>c. plane_states v b = Some c \<and> ps_plane c' = ps_plane c
                \<and> ps_output_state c' = ps_output_state c))
     \<and> (\<forall>b c. plane_states v b = Some c \<longrightarrow> ps_output_state c \<noteq> None \<longrightarrow>
            plane_states v' b \<noteq> None)
     \<and> (\<forall>cur c. pl_state_cur p = Some cur \<longrightarrow> plane_states v cur = Some c \<longrightarrow>
            ps_output_state c = None \<longrightarrow> plane_states v' cur = None)
     \<and> (\<forall>a. (output_states v' a = None) = (output_states v a = None))
     \<and> (\<forall>a. map_option live (outputs v' a) = map_option live (outputs v a))
     \<and> backend v' = backend v"
proof -
  from assms obtain r v1 p1 where r: "plane_states v x = Some r"
    and fo: "free_orphan (ps_plane r) v = Inr v1"
    and p1: "planes v1 (ps_plane r) = Some p1"
    and rest: "(let w2 = v1\<lparr>planes :=
                          (planes v1)(ps_plane r \<mapsto> p1\<lparr>pl_state_cur := Some x\<rparr>)\<rparr>
            in if mode \<noteq> DRM_STATE_APPLY_ASYNC
               then deref (plane_states w2) x (\<lambda>ps2.
                      Inr (w2\<lparr>plane_states :=
                               (plane_states w2)(x \<mapsto> ps2\<lparr>complete := True\<rparr>)\<rparr>))
               else count_completion output p1 w2) = Inr v'"
    by (auto simp: assign_plane_state_def Inr_iffs)
  note fe = free_orphan_effect [OF fo]
  have p: "planes v (ps_plane r) = Some p1" using fe p1 by simp
  let ?w2 = "v1\<lparr>planes := (planes v1)(ps_plane r \<mapsto> p1\<lparr>pl_state_cur := Some x\<rparr>)\<rparr>"
  have tail: "planes v' = planes ?w2 \<and> output_states v' = output_states ?w2
      \<and> backend v' = backend ?w2
      \<and> (\<forall>a. map_option live (outputs v' a) = map_option live (outputs ?w2 a))
      \<and> (\<forall>b c'. plane_states v' b = Some c' \<longrightarrow>
            (\<exists>c. plane_states v1 b = Some c \<and> ps_plane c' = ps_plane c
                \<and> ps_output_state c' = ps_output_state c))
      \<and> (\<forall>b. plane_states v1 b \<noteq> None \<longrightarrow> plane_states v' b \<noteq> None)
      \<and> (\<forall>b. plane_states v1 b = None \<longrightarrow> plane_states v' b = None)"
  proof (cases "mode \<noteq> DRM_STATE_APPLY_ASYNC")
    case True
    then obtain ps2 where "plane_states v1 x = Some ps2"
      and "v' = ?w2\<lparr>plane_states := (plane_states ?w2)(x \<mapsto> ps2\<lparr>complete := True\<rparr>)\<rparr>"
      using rest by (auto simp: Let_def Inr_iffs)
    then show ?thesis by (simp split: if_splits)
  next
    case False
    then have "count_completion output p1 ?w2 = Inr v'" using rest by (simp add: Let_def)
    from count_completion_effect [OF this] show ?thesis by simp
  qed
  from fe have fe1: "planes v1 = planes v"
    and fe2: "\<And>b c'. plane_states v1 b = Some c' \<Longrightarrow> plane_states v b = Some c'"
    and fe3: "\<And>b c. plane_states v b = Some c \<Longrightarrow> ps_output_state c \<noteq> None \<Longrightarrow>
            plane_states v1 b = Some c"
    and fe4: "\<And>cur c. pl_state_cur p1 = Some cur \<Longrightarrow> plane_states v cur = Some c \<Longrightarrow>
            ps_output_state c = None \<Longrightarrow> plane_states v1 cur = None"
    and fe5: "\<And>a. (output_states v1 a = None) = (output_states v a = None)"
    and fe6: "outputs v1 = outputs v" and fe7: "backend v1 = backend v"
    using p by blast+
  from tail have t1: "planes v' = planes ?w2" and t2: "output_states v' = output_states ?w2"
    and t3: "backend v' = backend ?w2"
    and t4: "\<And>a. map_option live (outputs v' a) = map_option live (outputs ?w2 a)"
    and t5: "\<And>b c'. plane_states v' b = Some c' \<Longrightarrow>
            (\<exists>c. plane_states v1 b = Some c \<and> ps_plane c' = ps_plane c
                \<and> ps_output_state c' = ps_output_state c)"
    and t6: "\<And>b. plane_states v1 b \<noteq> None \<Longrightarrow> plane_states v' b \<noteq> None"
    and t7: "\<And>b. plane_states v1 b = None \<Longrightarrow> plane_states v' b = None"
    by blast+
  have a: "planes v' = (planes v)(ps_plane r \<mapsto> p1\<lparr>pl_state_cur := Some x\<rparr>)"
    using t1 fe1 by simp
  have b: "\<forall>b c'. plane_states v' b = Some c' \<longrightarrow>
            (\<exists>c. plane_states v b = Some c \<and> ps_plane c' = ps_plane c
                \<and> ps_output_state c' = ps_output_state c)"
  proof (intro allI impI)
    fix b c' assume "plane_states v' b = Some c'"
    from t5 [OF this] obtain c where "plane_states v1 b = Some c"
      "ps_plane c' = ps_plane c" "ps_output_state c' = ps_output_state c" by blast
    with fe2 [of b c] show "\<exists>c. plane_states v b = Some c \<and> ps_plane c' = ps_plane c
                \<and> ps_output_state c' = ps_output_state c" by blast
  qed
  have c: "\<forall>b c. plane_states v b = Some c \<longrightarrow> ps_output_state c \<noteq> None \<longrightarrow>
            plane_states v' b \<noteq> None"
  proof (intro allI impI)
    fix b c assume "plane_states v b = Some c" "ps_output_state c \<noteq> None"
    from fe3 [OF this] have "plane_states v1 b \<noteq> None" by simp
    from t6 [OF this] show "plane_states v' b \<noteq> None" .
  qed
  have d: "\<forall>cur c. pl_state_cur p1 = Some cur \<longrightarrow> plane_states v cur = Some c \<longrightarrow>
            ps_output_state c = None \<longrightarrow> plane_states v' cur = None"
    using fe4 t7 by blast
  have e: "\<forall>a. (output_states v' a = None) = (output_states v a = None)"
    using t2 fe5 by simp
  have f: "\<forall>a. map_option live (outputs v' a) = map_option live (outputs v a)"
    using t4 fe6 by simp
  have g: "backend v' = backend v" using t3 fe7 by simp
  show ?thesis
    apply (rule exI [of _ r])
    apply (rule exI [of _ p1])
    using r p a b c d e f g apply (intro conjI)
            apply assumption+
    done
qed


lemma assign_loop_frame:
  assumes "foreach L (assign_plane_state output mode) W = Inr w'"
  shows "(\<forall>a. (output_states w' a = None) = (output_states W a = None))
     \<and> (\<forall>a. map_option live (outputs w' a) = map_option live (outputs W a))
     \<and> backend w' = backend W"
  by (rule foreach_inv [where P = "\<lambda>v. (\<forall>a. (output_states v a = None) = (output_states W a = None))
     \<and> (\<forall>a. map_option live (outputs v a) = map_option live (outputs W a))
     \<and> backend v = backend W", OF assms])
     (auto dest!: assign_plane_state_effect)

lemma assign_loop_planes:
  assumes loop: "foreach L (assign_plane_state output mode) W = Inr w'"
    and dist: "distinct (map (\<lambda>ps. map_option ps_plane (plane_states W ps)) L)"
    and linked: "\<forall>ps\<in>set L. \<exists>r. plane_states W ps = Some r \<and> ps_output_state r \<noteq> None"
  shows "(\<forall>ps\<in>set L. \<exists>r0 r p. plane_states W ps = Some r0 \<and> plane_states w' ps = Some r
             \<and> ps_plane r = ps_plane r0 \<and> planes w' (ps_plane r) = Some p
             \<and> pl_state_cur p = Some ps)
     \<and> (\<forall>ps\<in>set L. \<forall>r p cur c. plane_states W ps = Some r \<longrightarrow>
            planes W (ps_plane r) = Some p \<longrightarrow> pl_state_cur p = Some cur \<longrightarrow>
            plane_states W cur = Some c \<longrightarrow> ps_output_state c = None \<longrightarrow>
            plane_states w' cur = None)
     \<and> (\<forall>b. plane_states W b = None \<longrightarrow> plane_states w' b = None)"
proof -
  define I1 where "I1 = (\<lambda>v::world. \<forall>b c. plane_states v b = Some c \<longrightarrow>
      (\<exists>c0. plane_states W b = Some c0 \<and> ps_plane c = ps_plane c0
           \<and> ps_output_state c = ps_output_state c0))"
  define I2 where "I2 = (\<lambda>v::world. \<forall>b c0. plane_states W b = Some c0 \<longrightarrow>
      ps_output_state c0 \<noteq> None \<longrightarrow> plane_states v b \<noteq> None)"
  define I3 where "I3 = (\<lambda>(seen::addr list) (v::world). \<forall>y\<in>set seen. \<forall>r. plane_states W y = Some r \<longrightarrow>
      (\<exists>p. planes v (ps_plane r) = Some p \<and> pl_state_cur p = Some y))"
  define I4 where "I4 = (\<lambda>(seen::addr list) (v::world). \<forall>P.
      (\<forall>y\<in>set seen. map_option ps_plane (plane_states W y) \<noteq> Some P) \<longrightarrow>
      planes v P = planes W P)"
  define I5 where "I5 = (\<lambda>(seen::addr list) (v::world). \<forall>y\<in>set seen. \<forall>r p cur c. plane_states W y = Some r \<longrightarrow>
      planes W (ps_plane r) = Some p \<longrightarrow> pl_state_cur p = Some cur \<longrightarrow>
      plane_states W cur = Some c \<longrightarrow> ps_output_state c = None \<longrightarrow>
      plane_states v cur = None)"
  define Inv where "Inv = (\<lambda>(seen::addr list) (v::world). I1 v \<and> I2 v \<and> I3 seen v \<and> I4 seen v \<and> I5 seen v)"
  have start: "Inv [] W"
    by (simp add: Inv_def I1_def I2_def I3_def I4_def I5_def)
  have step: "Inv (seen @ [x]) v'"
    if split: "L = seen @ x # rest" and inv: "Inv seen v"
      and body: "assign_plane_state output mode x v = Inr v'"
    for seen x rest v v'
  proof -
    from assign_plane_state_effect [OF body] obtain r p where
      r: "plane_states v x = Some r" and p: "planes v (ps_plane r) = Some p"
      and pl: "planes v' = (planes v)(ps_plane r \<mapsto> p\<lparr>pl_state_cur := Some x\<rparr>)"
      and e2: "\<forall>b c'. plane_states v' b = Some c' \<longrightarrow>
                 (\<exists>c. plane_states v b = Some c \<and> ps_plane c' = ps_plane c
                     \<and> ps_output_state c' = ps_output_state c)"
      and e3: "\<forall>b c. plane_states v b = Some c \<longrightarrow> ps_output_state c \<noteq> None \<longrightarrow>
                 plane_states v' b \<noteq> None"
      and e4: "\<forall>cur c. pl_state_cur p = Some cur \<longrightarrow> plane_states v cur = Some c \<longrightarrow>
                 ps_output_state c = None \<longrightarrow> plane_states v' cur = None"
      by blast
    from inv have i1: "I1 v" and i2: "I2 v" and i3: "I3 seen v" and i4: "I4 seen v"
      and i5: "I5 seen v" by (simp_all add: Inv_def)
    from i1 r obtain r0 where r0: "plane_states W x = Some r0" and rp: "ps_plane r = ps_plane r0"
      unfolding I1_def by blast
    have fresh: "\<forall>y\<in>set seen. map_option ps_plane (plane_states W y) \<noteq> Some (ps_plane r0)"
    proof
      fix y assume y: "y \<in> set seen"
      from dist have "map_option ps_plane (plane_states W x)
          \<notin> (\<lambda>ps. map_option ps_plane (plane_states W ps)) ` set seen"
        unfolding split by simp
      with y have "map_option ps_plane (plane_states W y) \<noteq> map_option ps_plane (plane_states W x)"
        by (metis imageI)
      then show "map_option ps_plane (plane_states W y) \<noteq> Some (ps_plane r0)"
        using r0 by simp
    qed
    have pW: "planes W (ps_plane r0) = Some p"
      using i4 fresh p rp unfolding I4_def by metis
    have gone: "plane_states v' b = None" if "plane_states v b = None" for b
      using e2 that by (metis option.distinct(1) not_Some_eq)
    have n1: "I1 v'"
      unfolding I1_def
    proof (intro allI impI)
      fix b c assume "plane_states v' b = Some c"
      with e2 obtain c1 where c1: "plane_states v b = Some c1" "ps_plane c = ps_plane c1"
        "ps_output_state c = ps_output_state c1" by blast
      with i1 obtain c0 where "plane_states W b = Some c0" "ps_plane c1 = ps_plane c0"
        "ps_output_state c1 = ps_output_state c0" unfolding I1_def by blast
      with c1 show "\<exists>c0. plane_states W b = Some c0 \<and> ps_plane c = ps_plane c0
           \<and> ps_output_state c = ps_output_state c0" by simp
    qed
    have n2: "I2 v'"
      unfolding I2_def
    proof (intro allI impI)
      fix b c0 assume W: "plane_states W b = Some c0" and o: "ps_output_state c0 \<noteq> None"
      with i2 obtain c1 where c1: "plane_states v b = Some c1" unfolding I2_def by blast
      with i1 W have "ps_output_state c1 = ps_output_state c0" unfolding I1_def by fastforce
      with e3 c1 o show "plane_states v' b \<noteq> None" by metis
    qed
    have n3: "I3 (seen @ [x]) v'"
      unfolding I3_def
    proof (intro ballI allI impI)
      fix y ry assume y: "y \<in> set (seen @ [x])" and W: "plane_states W y = Some ry"
      show "\<exists>q. planes v' (ps_plane ry) = Some q \<and> pl_state_cur q = Some y"
      proof (cases "y \<in> set seen")
        case True
        with fresh W have "ps_plane ry \<noteq> ps_plane r0" by fastforce
        then have "planes v' (ps_plane ry) = planes v (ps_plane ry)" using pl rp by simp
        with i3 True W show ?thesis unfolding I3_def by simp
      next
        case False
        with y have "y = x" by simp
        with W r0 have "ry = r0" by simp
        then show ?thesis using pl rp \<open>y = x\<close> by simp
      qed
    qed
    have n4: "I4 (seen @ [x]) v'"
      unfolding I4_def
    proof (intro allI impI)
      fix P assume a: "\<forall>y\<in>set (seen @ [x]). map_option ps_plane (plane_states W y) \<noteq> Some P"
      then have "P \<noteq> ps_plane r0" using r0 by auto
      then have "planes v' P = planes v P" using pl rp by simp
      moreover have "planes v P = planes W P" using i4 a unfolding I4_def by simp
      ultimately show "planes v' P = planes W P" by simp
    qed
    have n5: "I5 (seen @ [x]) v'"
      unfolding I5_def
    proof (intro ballI allI impI)
      fix y ry q cur c
      assume y: "y \<in> set (seen @ [x])" and W: "plane_states W y = Some ry"
        and q: "planes W (ps_plane ry) = Some q" and cur: "pl_state_cur q = Some cur"
        and c: "plane_states W cur = Some c" and orphan: "ps_output_state c = None"
      show "plane_states v' cur = None"
      proof (cases "y \<in> set seen")
        case True
        with i5 W q cur c orphan have "plane_states v cur = None" unfolding I5_def by blast
        then show ?thesis by (rule gone)
      next
        case False
        with y have "y = x" by simp
        with W r0 have "ry = r0" by simp
        with q pW have qp: "q = p" by simp
        show ?thesis
        proof (cases "plane_states v cur")
          case None
          then show ?thesis by (rule gone)
        next
          case (Some c1)
          with i1 c have "ps_output_state c1 = ps_output_state c" unfolding I1_def by fastforce
          with e4 cur qp Some orphan show ?thesis by simp
        qed
      qed
    qed
    from n1 n2 n3 n4 n5 show ?thesis by (simp add: Inv_def)
  qed
  have fin: "Inv L w'"
    by (rule foreach_inv_split [where P = Inv, OF loop start]) (rule step)
  then have f1: "I1 w'" and f2: "I2 w'" and f3: "I3 L w'" and f5: "I5 L w'"
    by (simp_all add: Inv_def)
  have c1: "\<forall>ps\<in>set L. \<exists>r0 r p. plane_states W ps = Some r0 \<and> plane_states w' ps = Some r
             \<and> ps_plane r = ps_plane r0 \<and> planes w' (ps_plane r) = Some p
             \<and> pl_state_cur p = Some ps"
  proof
    fix ps assume ps: "ps \<in> set L"
    with linked obtain r0 where r0: "plane_states W ps = Some r0" "ps_output_state r0 \<noteq> None"
      by blast
    with f2 obtain r where r: "plane_states w' ps = Some r" unfolding I2_def by blast
    with f1 r0 have rp: "ps_plane r = ps_plane r0" unfolding I1_def by fastforce
    from f3 ps r0 obtain p where "planes w' (ps_plane r0) = Some p" "pl_state_cur p = Some ps"
      unfolding I3_def by blast
    with r0 r rp show "\<exists>r0 r p. plane_states W ps = Some r0 \<and> plane_states w' ps = Some r
             \<and> ps_plane r = ps_plane r0 \<and> planes w' (ps_plane r) = Some p
             \<and> pl_state_cur p = Some ps" by simp
  qed
  have c3: "\<forall>b. plane_states W b = None \<longrightarrow> plane_states w' b = None"
    using f1 unfolding I1_def by (metis option.distinct(1) not_Some_eq)
  from c1 f5 c3 show ?thesis unfolding I5_def by blast
qed


lemma output_state_free_effect:
  assumes "drm_output_state_free (Some old) w = Inr w1"
  shows "\<exists>os. output_states w old = Some os \<and> output_states w1 old = None
     \<and> (\<forall>b. b \<notin> set (plane_list os) \<longrightarrow> plane_states w1 b = plane_states w b)
     \<and> (\<forall>b\<in>set (plane_list os). plane_states w1 b = None
            \<or> (\<exists>c. plane_states w1 b = Some c \<and> ps_output_state c = None))
     \<and> (\<forall>a s. a \<noteq> old \<longrightarrow> output_states w a = Some s \<longrightarrow>
            output_states w1 a
              = Some (s\<lparr>plane_list := filter (\<lambda>x. x \<notin> set (plane_list os)) (plane_list s)\<rparr>))"
proof -
  from assms obtain os v where os: "output_states w old = Some os"
    and loop: "foreach (plane_list os) free_listed_plane_state w = Inr v"
    and w1: "w1 = (unlink_output_state old v)\<lparr>output_states := (output_states (unlink_output_state old v))(old := None)\<rparr>"
    by (auto simp: drm_output_state_free_def Let_def Inr_iffs)
  define Q where "Q = (\<lambda>(seen::addr list) (v::world).
      (\<forall>b. b \<notin> set seen \<longrightarrow> plane_states v b = plane_states w b)
    \<and> (\<forall>b\<in>set seen. plane_states v b = None
            \<or> (\<exists>c. plane_states v b = Some c \<and> ps_output_state c = None))
    \<and> (\<forall>a. output_states v a
            = map_option (\<lambda>s. s\<lparr>plane_list := filter (\<lambda>x. x \<notin> set seen) (plane_list s)\<rparr>)
                (output_states w a)))"
  have start: "Q [] w" by (simp add: Q_def option.map_ident)
  have step: "Q (seen @ [x]) u'" if inv: "Q seen u" and body: "free_listed_plane_state x u = Inr u'"
    for seen x u u'
  proof -
    from body have fr: "drm_plane_state_free (Some x) False u = Inr u'"
      by (simp add: free_listed_plane_state_def)
    note eff = plane_state_free_effect [OF fr]
    from eff have e1: "output_states u' =
           (\<lambda>a. map_option (\<lambda>os. os\<lparr>plane_list := removeAll x (plane_list os)\<rparr>)
                   (output_states u a))"
      and e2: "\<And>b. b \<noteq> x \<Longrightarrow> plane_states u' b = plane_states u b"
      and e3: "\<exists>r. plane_states u x = Some r
               \<and> (plane_states u' x = None
                  \<or> plane_states u' x = Some (r\<lparr>ps_output_state := None\<rparr>))"
      by blast+
    from inv have q1: "\<And>b. b \<notin> set seen \<Longrightarrow> plane_states u b = plane_states w b"
      and q2: "\<And>b. b \<in> set seen \<Longrightarrow> plane_states u b = None
            \<or> (\<exists>c. plane_states u b = Some c \<and> ps_output_state c = None)"
      and q3: "\<And>a. output_states u a
            = map_option (\<lambda>s. s\<lparr>plane_list := filter (\<lambda>x. x \<notin> set seen) (plane_list s)\<rparr>)
                (output_states w a)"
      by (simp_all add: Q_def)
    have n1: "\<forall>b. b \<notin> set (seen @ [x]) \<longrightarrow> plane_states u' b = plane_states w b"
      using e2 q1 by simp
    have n2: "\<forall>b\<in>set (seen @ [x]). plane_states u' b = None
            \<or> (\<exists>c. plane_states u' b = Some c \<and> ps_output_state c = None)"
    proof
      fix b assume b: "b \<in> set (seen @ [x])"
      show "plane_states u' b = None
            \<or> (\<exists>c. plane_states u' b = Some c \<and> ps_output_state c = None)"
      proof (cases "b = x")
        case True
        with e3 show ?thesis by auto
      next
        case False
        with b have "b \<in> set seen" by simp
        from q2 [OF this] e2 [OF False] show ?thesis by simp
      qed
    qed
    have n3: "\<forall>a. output_states u' a
            = map_option (\<lambda>s. s\<lparr>plane_list := filter (\<lambda>y. y \<notin> set (seen @ [x])) (plane_list s)\<rparr>)
                (output_states w a)"
    proof
      fix a
      have "filter (\<lambda>y. y \<notin> set (seen @ [x])) l = removeAll x (filter (\<lambda>y. y \<notin> set seen) l)"
        for l :: "addr list"
        by (induction l) auto
      then show "output_states u' a
            = map_option (\<lambda>s. s\<lparr>plane_list := filter (\<lambda>y. y \<notin> set (seen @ [x])) (plane_list s)\<rparr>)
                (output_states w a)"
        unfolding e1 q3 by (cases "output_states w a") simp_all
    qed
    from n1 n2 n3 show ?thesis unfolding Q_def by blast
  qed
  have fin: "Q (plane_list os) v"
    by (rule foreach_inv_prefix [where P = Q, OF loop start]) (rule step)
  then have f1: "\<forall>b. b \<notin> set (plane_list os) \<longrightarrow> plane_states v b = plane_states w b"
    and f2: "\<forall>b\<in>set (plane_list os). plane_states v b = None
            \<or> (\<exists>c. plane_states v b = Some c \<and> ps_output_state c = None)"
    and f3: "\<forall>a. output_states v a
            = map_option (\<lambda>s. s\<lparr>plane_list := filter (\<lambda>x. x \<notin> set (plane_list os)) (plane_list s)\<rparr>)
                (output_states w a)"
    by (simp_all add: Q_def)
  have ps: "plane_states w1 = plane_states v" unfolding w1 by (simp add: unlink_output_state_def)
  have o1: "output_states w1 old = None" unfolding w1 by simp
  have o2: "\<forall>a s. a \<noteq> old \<longrightarrow> output_states w a = Some s \<longrightarrow>
            output_states w1 a
              = Some (s\<lparr>plane_list := filter (\<lambda>x. x \<notin> set (plane_list os)) (plane_list s)\<rparr>)"
    unfolding w1 using f3 by (simp add: unlink_output_state_def)
  from os o1 o2 f1 f2 show ?thesis unfolding ps by blast
qed


lemma assign_state_start:
  assumes run: "drm_output_assign_state state mode w = Inr w'" and bl: "backlinked w"
  shows "\<exists>s out W. output_states w state = Some s \<and> outputs w (os_output s) = Some out
     \<and> state_last out = None
     \<and> foreach (plane_list s) (assign_plane_state (os_output s) mode) W = Inr w'
     \<and> planes W = planes w
     \<and> map_option live (outputs W (os_output s))
         = Some (Some state, if mode = DRM_STATE_APPLY_ASYNC then state_cur out else None)
     \<and> (\<forall>ps\<in>set (plane_list s). plane_states W ps = plane_states w ps)
     \<and> (mode = DRM_STATE_APPLY_ASYNC \<or> state_cur out = None \<longrightarrow>
           plane_states W = plane_states w)
     \<and> (mode = DRM_STATE_APPLY_ASYNC \<longrightarrow>
           (\<forall>a. (output_states W a = None) = (output_states w a = None)))
     \<and> (mode \<noteq> DRM_STATE_APPLY_ASYNC \<longrightarrow>
           (\<forall>old os. state_cur out = Some old \<longrightarrow> output_states w old = Some os \<longrightarrow>
              output_states W old = None
              \<and> (\<forall>b. b \<notin> set (plane_list os) \<longrightarrow> plane_states W b = plane_states w b)
              \<and> (\<forall>b\<in>set (plane_list os). plane_states W b = None
                    \<or> (\<exists>c. plane_states W b = Some c \<and> ps_output_state c = None))))"
proof -
  from run obtain s out w1 s1 where s: "output_states w state = Some s"
    and out: "outputs w (os_output s) = Some out" and nolast: "state_last out = None"
    and first: "(if mode = DRM_STATE_APPLY_ASYNC
                 then Inr (set_output (os_output s) (out\<lparr>state_last := state_cur out\<rparr>) w)
                 else drm_output_state_free (state_cur out) w) = Inr w1"
    and s1: "output_states w1 state = Some s1"
    by (auto simp: drm_output_assign_state_def Inr_iffs)
  let ?w3 = "(unlink_output_state state w1)\<lparr>output_states :=
                 (output_states (unlink_output_state state w1))
                   (state \<mapsto> s1\<lparr>os_pending_state := None\<rparr>)\<rparr>"
  from run s out nolast first s1 obtain out3 where out3: "outputs w1 (os_output s) = Some out3"
    and loop: "foreach (plane_list s1) (assign_plane_state (os_output s) mode)
        (set_output (os_output s)
           (if atomic_modeset (backend ?w3) \<and> mode = DRM_STATE_APPLY_ASYNC
            then out3\<lparr>state_cur := Some state, atomic_complete_pending := 1\<rparr>
            else out3\<lparr>state_cur := Some state\<rparr>) ?w3) = Inr w'"
    by (auto simp: drm_output_assign_state_def Inr_iffs Let_def unlink_output_state_def
        split: if_splits)
  let ?out5 = "if atomic_modeset (backend ?w3) \<and> mode = DRM_STATE_APPLY_ASYNC
            then out3\<lparr>state_cur := Some state, atomic_complete_pending := 1\<rparr>
            else out3\<lparr>state_cur := Some state\<rparr>"
  let ?W = "set_output (os_output s) ?out5 ?w3"
  have W1: "plane_states ?W = plane_states w1" and W2: "planes ?W = planes w1"
    and W3: "\<And>a. a \<noteq> state \<Longrightarrow> output_states ?W a = output_states w1 a"
    and W4: "output_states ?W state \<noteq> None"
    and W5: "map_option live (outputs ?W (os_output s)) = Some (Some state, state_last out3)"
    by (simp_all add: set_output_def unlink_output_state_def live_def)
  show ?thesis
  proof (cases "mode = DRM_STATE_APPLY_ASYNC")
    case True
    with first have w1: "w1 = set_output (os_output s) (out\<lparr>state_last := state_cur out\<rparr>) w"
      by simp
    have eq: "s1 = s" "out3 = out\<lparr>state_last := state_cur out\<rparr>"
      "plane_states w1 = plane_states w" "planes w1 = planes w"
      "output_states w1 = output_states w"
      using s1 s out3 unfolding w1 by (simp_all add: set_output_def)
    have dom: "\<forall>a. (output_states ?W a = None) = (output_states w a = None)"
    proof
      fix a show "(output_states ?W a = None) = (output_states w a = None)"
        using W3 [of a] W4 s eq(5) by (cases "a = state") auto
    qed
    from s out nolast loop W1 W2 W5 eq dom True show ?thesis
      by (intro exI [of _ s] exI [of _ out] exI [of _ ?W]) (simp del: foreach.simps)
  next
    case False
    with first have fr: "drm_output_state_free (state_cur out) w = Inr w1" by simp
    from output_state_free_owners [OF fr] have own: "planes w1 = planes w" "outputs w1 = outputs w"
      by (simp_all add: owners_def)
    with out out3 have o3: "out3 = out" by simp
    show ?thesis
    proof (cases "state_cur out")
      case None
      with fr have w1: "w1 = w" by (simp add: drm_output_state_free_def)
      with s s1 have eq: "s1 = s" by simp
      from s out nolast loop W1 W2 W5 eq o3 w1 None False show ?thesis
        by (intro exI [of _ s] exI [of _ out] exI [of _ ?W]) (simp del: foreach.simps)
    next
      case (Some old)
      from output_state_free_effect [OF fr [unfolded Some]] obtain os where
        os: "output_states w old = Some os" and gone: "output_states w1 old = None"
        and keep: "\<forall>b. b \<notin> set (plane_list os) \<longrightarrow> plane_states w1 b = plane_states w b"
        and orph: "\<forall>b\<in>set (plane_list os). plane_states w1 b = None
            \<or> (\<exists>c. plane_states w1 b = Some c \<and> ps_output_state c = None)"
        and lists: "\<forall>a s. a \<noteq> old \<longrightarrow> output_states w a = Some s \<longrightarrow>
            output_states w1 a
              = Some (s\<lparr>plane_list := filter (\<lambda>x. x \<notin> set (plane_list os)) (plane_list s)\<rparr>)"
        by blast
      from gone s1 have ne: "state \<noteq> old" by auto
      have disj: "\<forall>x\<in>set (plane_list s). x \<notin> set (plane_list os)"
      proof
        fix x assume x: "x \<in> set (plane_list s)"
        with bl s obtain r where r: "plane_states w x = Some r" "ps_output_state r = Some state"
          unfolding backlinked_def by blast
        show "x \<notin> set (plane_list os)"
        proof
          assume "x \<in> set (plane_list os)"
          with bl os obtain r' where "plane_states w x = Some r'" "ps_output_state r' = Some old"
            unfolding backlinked_def by blast
          with r ne show False by simp
        qed
      qed
      then have "filter (\<lambda>x. x \<notin> set (plane_list os)) (plane_list s) = plane_list s"
        by (simp add: filter_id_conv)
      with lists ne s s1 have eq: "s1 = s" by simp
      have same: "\<forall>ps\<in>set (plane_list s). plane_states ?W ps = plane_states w ps"
        using disj keep W1 by simp
      have oldW: "output_states ?W old = None" using W3 [of old] ne gone by simp
      have part: "\<forall>old' os'. state_cur out = Some old' \<longrightarrow> output_states w old' = Some os' \<longrightarrow>
              output_states ?W old' = None
              \<and> (\<forall>b. b \<notin> set (plane_list os') \<longrightarrow> plane_states ?W b = plane_states w b)
              \<and> (\<forall>b\<in>set (plane_list os'). plane_states ?W b = None
                    \<or> (\<exists>c. plane_states ?W b = Some c \<and> ps_output_state c = None))"
        using Some os oldW keep orph unfolding W1 by simp
      have lv: "map_option live (outputs ?W (os_output s)) = Some (Some state, None)"
        using W5 o3 nolast by simp
      have pl: "planes ?W = planes w" using W2 own by simp
      from loop eq have loop': "foreach (plane_list s) (assign_plane_state (os_output s) mode) ?W = Inr w'"
        by simp
      show ?thesis
        apply (rule exI [of _ s])
        apply (rule exI [of _ out])
        apply (rule exI [of _ ?W])
        using s out nolast loop' pl lv same part False Some
        apply (intro conjI)
                 apply assumption
                apply assumption
               apply assumption
              apply assumption
             apply assumption
            apply simp
           apply assumption
          apply simp
         apply simp
        apply blast
        done
    qed
  qed
qed


text \<open>
  Claim C3. Assigning an output state returns only when the output had no previous state
  outstanding. In a store where the plane states listed in an output state name pairwise
  different planes and point back to that output state, a call that returns has made the
  candidate the current state of its output. With mode ASYNC the state that was current
  before is now the previous state of the output and no output state has been freed; with
  mode SYNC the output has no previous state and the state that was current before has been
  freed. Every plane state of the candidate is still allocated and is now the current state
  of its plane, and the state that was current on that plane before has been freed if it
  was orphaned: if it had no owning output state or, with mode SYNC, if it was listed in
  the state that was just freed.
\<close>

theorem assign_state_commits:
  assumes "drm_output_assign_state state mode w = Inr w'"
    and "plane_exclusive w" and "backlinked w"
  shows "\<exists>s out. output_states w state = Some s \<and> outputs w (os_output s) = Some out
     \<and> state_last out = None
     \<and> map_option live (outputs w' (os_output s))
         = Some (Some state, if mode = DRM_STATE_APPLY_ASYNC then state_cur out else None)
     \<and> (mode = DRM_STATE_APPLY_ASYNC \<longrightarrow>
           (\<forall>a. (output_states w' a = None) = (output_states w a = None)))
     \<and> (mode \<noteq> DRM_STATE_APPLY_ASYNC \<longrightarrow>
           (\<forall>old. state_cur out = Some old \<longrightarrow> output_states w' old = None))
     \<and> (\<forall>ps\<in>set (plane_list s). \<exists>r p. plane_states w' ps = Some r
           \<and> planes w' (ps_plane r) = Some p \<and> pl_state_cur p = Some ps)
     \<and> (\<forall>ps\<in>set (plane_list s). \<forall>r p cur c. plane_states w ps = Some r \<longrightarrow>
           planes w (ps_plane r) = Some p \<longrightarrow> pl_state_cur p = Some cur \<longrightarrow>
           plane_states w cur = Some c \<longrightarrow>
           (ps_output_state c = None
            \<or> (mode \<noteq> DRM_STATE_APPLY_ASYNC
                \<and> (\<exists>old os. state_cur out = Some old \<and> output_states w old = Some os
                      \<and> cur \<in> set (plane_list os)))) \<longrightarrow>
           plane_states w' cur = None)"
proof -
  from assign_state_start [OF assms(1,3)] obtain s out W where all:
    "output_states w state = Some s \<and> outputs w (os_output s) = Some out
     \<and> state_last out = None
     \<and> foreach (plane_list s) (assign_plane_state (os_output s) mode) W = Inr w'
     \<and> planes W = planes w
     \<and> map_option live (outputs W (os_output s))
         = Some (Some state, if mode = DRM_STATE_APPLY_ASYNC then state_cur out else None)
     \<and> (\<forall>ps\<in>set (plane_list s). plane_states W ps = plane_states w ps)
     \<and> (mode = DRM_STATE_APPLY_ASYNC \<or> state_cur out = None \<longrightarrow>
           plane_states W = plane_states w)
     \<and> (mode = DRM_STATE_APPLY_ASYNC \<longrightarrow>
           (\<forall>a. (output_states W a = None) = (output_states w a = None)))
     \<and> (mode \<noteq> DRM_STATE_APPLY_ASYNC \<longrightarrow>
           (\<forall>old os. state_cur out = Some old \<longrightarrow> output_states w old = Some os \<longrightarrow>
              output_states W old = None
              \<and> (\<forall>b. b \<notin> set (plane_list os) \<longrightarrow> plane_states W b = plane_states w b)
              \<and> (\<forall>b\<in>set (plane_list os). plane_states W b = None
                    \<or> (\<exists>c. plane_states W b = Some c \<and> ps_output_state c = None))))"
    by (elim exE) (rule that)
  note s = all [THEN conjunct1]
  note out = all [THEN conjunct2, THEN conjunct1]
  note nolast = all [THEN conjunct2, THEN conjunct2, THEN conjunct1]
  note loop = all [THEN conjunct2, THEN conjunct2, THEN conjunct2, THEN conjunct1]
  note pl = all [THEN conjunct2, THEN conjunct2, THEN conjunct2, THEN conjunct2, THEN conjunct1]
  note lv = all [THEN conjunct2, THEN conjunct2, THEN conjunct2, THEN conjunct2, THEN conjunct2, THEN conjunct1]
  note same = all [THEN conjunct2, THEN conjunct2, THEN conjunct2, THEN conjunct2, THEN conjunct2, THEN conjunct2, THEN conjunct1]
  note whole = all [THEN conjunct2, THEN conjunct2, THEN conjunct2, THEN conjunct2, THEN conjunct2, THEN conjunct2, THEN conjunct2, THEN conjunct1]
  note async = all [THEN conjunct2, THEN conjunct2, THEN conjunct2, THEN conjunct2, THEN conjunct2, THEN conjunct2, THEN conjunct2, THEN conjunct2, THEN conjunct1]
  note sync = all [THEN conjunct2, THEN conjunct2, THEN conjunct2, THEN conjunct2, THEN conjunct2, THEN conjunct2, THEN conjunct2, THEN conjunct2, THEN conjunct2]
  from assign_loop_frame [OF loop] have
    fr1: "\<forall>a. (output_states w' a = None) = (output_states W a = None)"
    and fr2: "\<forall>a. map_option live (outputs w' a) = map_option live (outputs W a)"
    by blast+
  have "listed_ok (plane_states w) (next_addr w) (plane_list s)"
    using assms(2) s by (simp add: plane_exclusive_def)
  then have "distinct (map (\<lambda>ps. map_option ps_plane (plane_states w ps)) (plane_list s))"
    by (simp add: listed_ok_def)
  moreover have "map (\<lambda>ps. map_option ps_plane (plane_states W ps)) (plane_list s)
      = map (\<lambda>ps. map_option ps_plane (plane_states w ps)) (plane_list s)"
    using same by (intro map_cong [OF refl]) simp
  ultimately have dist: "distinct (map (\<lambda>ps. map_option ps_plane (plane_states W ps)) (plane_list s))"
    by (simp only:)
  have linked: "\<forall>ps\<in>set (plane_list s). \<exists>r. plane_states W ps = Some r \<and> ps_output_state r \<noteq> None"
  proof
    fix ps assume ps: "ps \<in> set (plane_list s)"
    with assms(3) s obtain r where "plane_states w ps = Some r" "ps_output_state r = Some state"
      unfolding backlinked_def by blast
    with same ps show "\<exists>r. plane_states W ps = Some r \<and> ps_output_state r \<noteq> None" by simp
  qed
  from assign_loop_planes [OF loop dist linked] have
    l1: "\<forall>ps\<in>set (plane_list s). \<exists>r0 r p. plane_states W ps = Some r0 \<and> plane_states w' ps = Some r
             \<and> ps_plane r = ps_plane r0 \<and> planes w' (ps_plane r) = Some p
             \<and> pl_state_cur p = Some ps"
    and l2: "\<forall>ps\<in>set (plane_list s). \<forall>r p cur c. plane_states W ps = Some r \<longrightarrow>
            planes W (ps_plane r) = Some p \<longrightarrow> pl_state_cur p = Some cur \<longrightarrow>
            plane_states W cur = Some c \<longrightarrow> ps_output_state c = None \<longrightarrow>
            plane_states w' cur = None"
    and l3: "\<forall>b. plane_states W b = None \<longrightarrow> plane_states w' b = None"
    by blast+
  have c4: "map_option live (outputs w' (os_output s))
         = Some (Some state, if mode = DRM_STATE_APPLY_ASYNC then state_cur out else None)"
    using fr2 lv by simp
  have c5: "mode = DRM_STATE_APPLY_ASYNC \<longrightarrow>
           (\<forall>a. (output_states w' a = None) = (output_states w a = None))"
    using fr1 async by simp
  have c6: "mode \<noteq> DRM_STATE_APPLY_ASYNC \<longrightarrow>
           (\<forall>old. state_cur out = Some old \<longrightarrow> output_states w' old = None)"
  proof (intro impI allI)
    fix old assume m: "mode \<noteq> DRM_STATE_APPLY_ASYNC" and old: "state_cur out = Some old"
    from assms(1) s out m old obtain os where "output_states w old = Some os"
      by (auto simp: drm_output_assign_state_def drm_output_state_free_def Inr_iffs)
    with sync m old have "output_states W old = None" by blast
    with fr1 show "output_states w' old = None" by simp
  qed
  have c7: "\<forall>ps\<in>set (plane_list s). \<exists>r p. plane_states w' ps = Some r
           \<and> planes w' (ps_plane r) = Some p \<and> pl_state_cur p = Some ps"
    using l1 by blast
  have c8: "\<forall>ps\<in>set (plane_list s). \<forall>r p cur c. plane_states w ps = Some r \<longrightarrow>
           planes w (ps_plane r) = Some p \<longrightarrow> pl_state_cur p = Some cur \<longrightarrow>
           plane_states w cur = Some c \<longrightarrow>
           (ps_output_state c = None
            \<or> (mode \<noteq> DRM_STATE_APPLY_ASYNC
                \<and> (\<exists>old os. state_cur out = Some old \<and> output_states w old = Some os
                      \<and> cur \<in> set (plane_list os)))) \<longrightarrow>
           plane_states w' cur = None"
  proof (intro ballI allI impI)
    fix ps r p cur c
    assume ps: "ps \<in> set (plane_list s)" and r: "plane_states w ps = Some r"
      and p: "planes w (ps_plane r) = Some p" and cur: "pl_state_cur p = Some cur"
      and c: "plane_states w cur = Some c"
      and orphan: "ps_output_state c = None
            \<or> (mode \<noteq> DRM_STATE_APPLY_ASYNC
                \<and> (\<exists>old os. state_cur out = Some old \<and> output_states w old = Some os
                      \<and> cur \<in> set (plane_list os)))"
    have rW: "plane_states W ps = Some r" using same ps r by simp
    have pW: "planes W (ps_plane r) = Some p" using pl p by simp
    have orphW: "plane_states W cur = None
        \<or> (\<exists>c'. plane_states W cur = Some c' \<and> ps_output_state c' = None)"
    proof (cases "mode = DRM_STATE_APPLY_ASYNC \<or> state_cur out = None")
      case True
      with whole orphan c show ?thesis by auto
    next
      case False
      then obtain old where m: "mode \<noteq> DRM_STATE_APPLY_ASYNC" and old: "state_cur out = Some old"
        by auto
      from assms(1) s out m old obtain os where os: "output_states w old = Some os"
        by (auto simp: drm_output_assign_state_def drm_output_state_free_def Inr_iffs)
      from sync m old os have
        keep: "\<forall>b. b \<notin> set (plane_list os) \<longrightarrow> plane_states W b = plane_states w b"
        and orph: "\<forall>b\<in>set (plane_list os). plane_states W b = None
                    \<or> (\<exists>c. plane_states W b = Some c \<and> ps_output_state c = None)"
        by blast+
      show ?thesis
      proof (cases "cur \<in> set (plane_list os)")
        case True
        with orph show ?thesis by blast
      next
        case False
        with keep c have "plane_states W cur = Some c" by simp
        moreover from orphan False old os have "ps_output_state c = None" by auto
        ultimately show ?thesis by simp
      qed
    qed
    then show "plane_states w' cur = None"
    proof
      assume "plane_states W cur = None"
      with l3 show ?thesis by simp
    next
      assume "\<exists>c'. plane_states W cur = Some c' \<and> ps_output_state c' = None"
      then obtain c' where "plane_states W cur = Some c'" "ps_output_state c' = None" by blast
      with l2 ps rW pW cur show ?thesis by blast
    qed
  qed
  show ?thesis
    apply (rule exI [of _ s])
    apply (rule exI [of _ out])
    using s out nolast c4 c5 c6 c7 c8
    apply (intro conjI)
           apply assumption+
    done
qed

lemma repaint_world_exclusive: "plane_exclusive repaint_world"
  by (auto simp: plane_exclusive_def listed_ok_def repaint_world_def example_defs
      split: if_splits)

lemma repaint_world_backlinked: "backlinked repaint_world"
  by (auto simp: backlinked_def repaint_world_def example_defs split: if_splits)

lemmas assign_eval_defs = drm_output_assign_state_def assign_plane_state_def free_orphan_def
  count_completion_def set_output_def

theorem assign_state_commits_witness:
  "\<exists>w'. drm_output_assign_state 60 DRM_STATE_APPLY_SYNC repaint_world = Inr w'
      \<and> map_option live (outputs w' 0) = Some (Some 60, None)
      \<and> output_states w' 20 = None
      \<and> (\<exists>r p. plane_states w' 61 = Some r \<and> planes w' (ps_plane r) = Some p
             \<and> pl_state_cur p = Some 61)
      \<and> plane_states w' 11 = None"
proof -
  have "\<exists>w'. drm_output_assign_state 60 DRM_STATE_APPLY_SYNC repaint_world = Inr w'"
    by (simp add: assign_eval_defs eval_defs repaint_world_def example_defs)
  then obtain w' where w': "drm_output_assign_state 60 DRM_STATE_APPLY_SYNC repaint_world = Inr w'" ..
  from assign_state_commits [OF w' repaint_world_exclusive repaint_world_backlinked]
  obtain s out where all: "output_states repaint_world 60 = Some s
     \<and> outputs repaint_world (os_output s) = Some out
     \<and> state_last out = None
     \<and> map_option live (outputs w' (os_output s))
         = Some (Some 60, if DRM_STATE_APPLY_SYNC = DRM_STATE_APPLY_ASYNC then state_cur out else None)
     \<and> (DRM_STATE_APPLY_SYNC = DRM_STATE_APPLY_ASYNC \<longrightarrow>
           (\<forall>a. (output_states w' a = None) = (output_states repaint_world a = None)))
     \<and> (DRM_STATE_APPLY_SYNC \<noteq> DRM_STATE_APPLY_ASYNC \<longrightarrow>
           (\<forall>old. state_cur out = Some old \<longrightarrow> output_states w' old = None))
     \<and> (\<forall>ps\<in>set (plane_list s). \<exists>r p. plane_states w' ps = Some r
           \<and> planes w' (ps_plane r) = Some p \<and> pl_state_cur p = Some ps)
     \<and> (\<forall>ps\<in>set (plane_list s). \<forall>r p cur c. plane_states repaint_world ps = Some r \<longrightarrow>
           planes repaint_world (ps_plane r) = Some p \<longrightarrow> pl_state_cur p = Some cur \<longrightarrow>
           plane_states repaint_world cur = Some c \<longrightarrow>
           (ps_output_state c = None
            \<or> (DRM_STATE_APPLY_SYNC \<noteq> DRM_STATE_APPLY_ASYNC
                \<and> (\<exists>old os. state_cur out = Some old \<and> output_states repaint_world old = Some os
                      \<and> cur \<in> set (plane_list os)))) \<longrightarrow>
           plane_states w' cur = None)"
    by (elim exE) (rule that)
  note s = all [THEN conjunct1]
  note out = all [THEN conjunct2, THEN conjunct1]
  note lv = all [THEN conjunct2, THEN conjunct2, THEN conjunct2, THEN conjunct1]
  note fr = all [THEN conjunct2, THEN conjunct2, THEN conjunct2, THEN conjunct2, THEN conjunct2, THEN conjunct1]
  note cur = all [THEN conjunct2, THEN conjunct2, THEN conjunct2, THEN conjunct2, THEN conjunct2, THEN conjunct2, THEN conjunct1]
  note orph = all [THEN conjunct2, THEN conjunct2, THEN conjunct2, THEN conjunct2, THEN conjunct2, THEN conjunct2, THEN conjunct2]
  from s have sl: "os_output s = 0" "plane_list s = [61]"
    by (auto simp: repaint_world_def example_defs)
  from out sl have oc: "state_cur out = Some 20"
    by (auto simp: repaint_world_def example_defs)
  have a: "map_option live (outputs w' 0) = Some (Some 60, None)" using lv sl by simp
  have b: "output_states w' 20 = None" using fr oc by simp
  have c: "\<exists>r p. plane_states w' 61 = Some r \<and> planes w' (ps_plane r) = Some p
             \<and> pl_state_cur p = Some 61" using cur sl by simp
  have "plane_states repaint_world 61 = Some ((example_plane_state 1 (Some 0) (Some 60) (Some 30))
                   \<lparr>src_w := 67108864, src_h := 50331648, dest_w := 1024, dest_h := 768,
                    complete := False\<rparr>)"
    "planes repaint_world 1 = Some (example_plane WDRM_PLANE_TYPE_PRIMARY 201 11)"
    "plane_states repaint_world 11 = Some (example_plane_state 1 (Some 0) (Some 20) (Some 30))"
    "output_states repaint_world 20 = Some \<lparr>os_output = 0, os_pending_state = None,
                               dpms = WESTON_DPMS_ON, plane_list = [12, 11]\<rparr>"
    by (simp_all add: repaint_world_def example_world_def)
  with orph sl oc have d: "plane_states w' 11 = None"
    by (simp add: example_plane_state_def example_plane_def zalloc_plane_state_def)
  from w' a b c d show ?thesis by blast
qed

end
